(* ===== verification/Prelude.thy ===== *)
theory Prelude
  imports Main "HOL-Library.Word"
begin

text \<open>
  What every component of the model shares: the outcomes of the interpreter's process
  (\<open>exit.cpp\<close>), the state-and-error monad in which the components are written, the
  reasoning rules for relations that a computation preserves, and byte strings
  (little-endian and big-endian words, slices of a byte buffer).
\<close>

section \<open>How a run of the interpreter ends early\<close>

type_synonym byte = "8 word"
type_synonym u32 = "32 word"
type_synonym u64 = "64 word"

text \<open>
  The functions of \<open>exit.cpp\<close> never return; each becomes a value of
  \<open>emu_error\<close>. \<open>ExitClean\<close> is \<open>do_exit\<close>, with the width and the unsigned value of
  the number it prints. Three constructors have no counterpart in the source: \<open>BadAlloc\<close> is
  an exception of \<open>new char[s]\<close>, which nothing catches, so that the process is aborted; \<open>HostUB\<close>
  marks a point where the C++ code itself has undefined behaviour (a null or dangling
  pointer is dereferenced, a buffer is overrun, memory is freed twice), with a word on
  the reason, and \<open>OutOfFuel\<close> is the model's own bound on the depth of the recursion.
\<close>

datatype emu_error =
    ErrExit string
  | CantHandle
  | CantCast
  | BadMemRead
  | BadMemWrite
  | ErrUndef
  | ExitClean nat nat
  | BadAlloc
  | HostUB string
  | OutOfFuel

text \<open>A message that ends in a newline.\<close>

definition line :: "string \<Rightarrow> string" where
  "line s = s @ [CHR 0x0A]"

text \<open>The exit status of the process: \<open>None\<close> where the model makes no promise.\<close>

fun exit_code :: "emu_error \<Rightarrow> int option" where
  "exit_code (ErrExit s) = Some 1"
| "exit_code CantHandle = Some 1"
| "exit_code CantCast = Some 1"
| "exit_code BadMemRead = Some 1"
| "exit_code BadMemWrite = Some 1"
| "exit_code ErrUndef = Some 1"
| "exit_code (ExitClean w v) = Some 0"
| "exit_code BadAlloc = None"
| "exit_code (HostUB s) = None"
| "exit_code OutOfFuel = None"

text \<open>The message handed to \<open>debug_dump\<close> before the process exits.\<close>

fun exit_message :: "emu_error \<Rightarrow> string option" where
  "exit_message (ErrExit s) = Some s"
| "exit_message CantHandle = Some ''The interpreter doesn't know how to handle this''"
| "exit_message CantCast = Some ''The interpreter doesn't know how to perform this cast''"
| "exit_message BadMemRead = Some ''Attempted read larger than memory allocation''"
| "exit_message BadMemWrite = Some ''Attempted write to unallocated memory''"
| "exit_message ErrUndef = Some ''Tried to use an undefined or uninitialized value''"
| "exit_message _ = None"

section \<open>The state-and-error monad\<close>

type_synonym 'a res = "emu_error + 'a"
type_synonym ('s, 'a) sm = "'s \<Rightarrow> emu_error + ('a \<times> 's)"

definition ret :: "'a \<Rightarrow> ('s, 'a) sm" where
  "ret x = (\<lambda>s. Inr (x, s))"

definition fail :: "emu_error \<Rightarrow> ('s, 'a) sm" where
  "fail e = (\<lambda>s. Inl e)"

definition bindM :: "('s, 'a) sm \<Rightarrow> ('a \<Rightarrow> ('s, 'b) sm) \<Rightarrow> ('s, 'b) sm" where
  "bindM m f = (\<lambda>s. case m s of Inl e \<Rightarrow> Inl e | Inr (x, s') \<Rightarrow> f x s')"

definition seqM :: "('s, 'a) sm \<Rightarrow> ('s, 'b) sm \<Rightarrow> ('s, 'b) sm" where
  "seqM m k = bindM m (\<lambda>_. k)"

definition gets :: "('s \<Rightarrow> 'a) \<Rightarrow> ('s, 'a) sm" where
  "gets f = (\<lambda>s. Inr (f s, s))"

definition modifyM :: "('s \<Rightarrow> 's) \<Rightarrow> ('s, unit) sm" where
  "modifyM f = (\<lambda>s. Inr ((), f s))"

definition lift :: "'a res \<Rightarrow> ('s, 'a) sm" where
  "lift r = (case r of Inl e \<Rightarrow> fail e | Inr x \<Rightarrow> ret x)"

definition res_bind :: "'a res \<Rightarrow> ('a \<Rightarrow> 'b res) \<Rightarrow> 'b res" where
  "res_bind r f = (case r of Inl e \<Rightarrow> Inl e | Inr x \<Rightarrow> f x)"

fun forM :: "'b list \<Rightarrow> ('b \<Rightarrow> ('s, unit) sm) \<Rightarrow> ('s, unit) sm" where
  "forM [] f = ret ()"
| "forM (x # xs) f = bindM (f x) (\<lambda>_. forM xs f)"

fun mapM :: "('b \<Rightarrow> ('s, 'a) sm) \<Rightarrow> 'b list \<Rightarrow> ('s, 'a list) sm" where
  "mapM f [] = ret []"
| "mapM f (x # xs) = bindM (f x) (\<lambda>y. bindM (mapM f xs) (\<lambda>ys. ret (y # ys)))"

text \<open>The equations that run a computation on a concrete or symbolic state.\<close>

named_theorems run_simps

lemma run_ret [run_simps]: "ret x s = Inr (x, s)"
  by (simp add: ret_def)

lemma run_fail [run_simps]: "fail e s = Inl e"
  by (simp add: fail_def)

lemma run_bind [run_simps]:
  "bindM m f s = (case m s of Inl e \<Rightarrow> Inl e | Inr (x, s') \<Rightarrow> f x s')"
  by (simp add: bindM_def)

lemma run_seq [run_simps]:
  "seqM m k s = (case m s of Inl e \<Rightarrow> Inl e | Inr (x, s') \<Rightarrow> k s')"
  by (simp add: seqM_def bindM_def)

lemma run_gets [run_simps]: "gets f s = Inr (f s, s)"
  by (simp add: gets_def)

lemma run_modify [run_simps]: "modifyM f s = Inr ((), f s)"
  by (simp add: modifyM_def)

lemma run_lift [run_simps]:
  "lift r s = (case r of Inl e \<Rightarrow> Inl e | Inr x \<Rightarrow> Inr (x, s))"
  by (simp add: lift_def ret_def fail_def split: sum.splits)

lemma res_bind_simps [run_simps]:
  "res_bind (Inl e) f = Inl e" "res_bind (Inr x) f = f x"
  by (simp_all add: res_bind_def)

lemma bindM_InrE:
  assumes "bindM m f s = Inr (y, t)"
  obtains x s' where "m s = Inr (x, s')" and "f x s' = Inr (y, t)"
  using assms by (auto simp: bindM_def split: sum.splits)

lemma res_bind_InrE:
  assumes "res_bind r f = Inr y"
  obtains x where "r = Inr x" and "f x = Inr y"
  using assms by (auto simp: res_bind_def split: sum.splits)

lemma bindM_assoc: "bindM (bindM m f) g = bindM m (\<lambda>x. bindM (f x) g)"
  by (rule ext) (auto simp: bindM_def split: sum.splits)

lemma bindM_ret_left [simp]: "bindM (ret x) f = f x"
  by (rule ext) (simp add: bindM_def ret_def)

section \<open>Relations that a computation preserves\<close>

text \<open>
  \<open>preserves R m\<close>: whenever \<open>m\<close> returns, its first and last state are related by
  \<open>R\<close>. A preorder is preserved by every composition of computations that preserve it;
  the locale collects those rules once.
\<close>

definition preserves :: "('s \<Rightarrow> 's \<Rightarrow> bool) \<Rightarrow> ('s, 'a) sm \<Rightarrow> bool" where
  "preserves R m \<longleftrightarrow> (\<forall>s x t. m s = Inr (x, t) \<longrightarrow> R s t)"

lemma preservesD: "preserves R m \<Longrightarrow> m s = Inr (x, t) \<Longrightarrow> R s t"
  by (auto simp: preserves_def)

lemma preservesI: "(\<And>s x t. m s = Inr (x, t) \<Longrightarrow> R s t) \<Longrightarrow> preserves R m"
  by (auto simp: preserves_def)

locale state_preorder =
  fixes R :: "'s \<Rightarrow> 's \<Rightarrow> bool"
  assumes R_refl: "R s s"
    and R_trans: "R s t \<Longrightarrow> R t u \<Longrightarrow> R s u"
begin

lemma pres_ret [intro!]: "preserves R (ret x)"
  by (auto simp: preserves_def ret_def R_refl)

lemma pres_fail [intro!]: "preserves R (fail e)"
  by (auto simp: preserves_def fail_def)

lemma pres_gets [intro!]: "preserves R (gets f)"
  by (auto simp: preserves_def gets_def R_refl)

lemma pres_lift [intro!]: "preserves R (lift r)"
  by (cases r) (auto simp: preserves_def lift_def ret_def fail_def R_refl)

lemma pres_modify: "(\<And>s. R s (f s)) \<Longrightarrow> preserves R (modifyM f)"
  by (auto simp: preserves_def modifyM_def)

lemma pres_bind [intro!]:
  assumes "preserves R m" and "\<And>x. preserves R (f x)"
  shows "preserves R (bindM m f)"
proof (rule preservesI)
  fix s y u assume "bindM m f s = Inr (y, u)"
  then obtain x t where "m s = Inr (x, t)" and "f x t = Inr (y, u)"
    by (rule bindM_InrE)
  with assms show "R s u" by (blast dest: preservesD intro: R_trans)
qed

lemma pres_seq [intro!]: "preserves R m \<Longrightarrow> preserves R k \<Longrightarrow> preserves R (seqM m k)"
  unfolding seqM_def by (rule pres_bind)

lemma pres_if [intro!]:
  "(b \<Longrightarrow> preserves R m) \<Longrightarrow> (\<not> b \<Longrightarrow> preserves R k) \<Longrightarrow> preserves R (if b then m else k)"
  by simp

lemma pres_forM: "(\<And>x. x \<in> set xs \<Longrightarrow> preserves R (f x)) \<Longrightarrow> preserves R (forM xs f)"
  by (induction xs) auto

lemma pres_mapM: "(\<And>x. x \<in> set xs \<Longrightarrow> preserves R (f x)) \<Longrightarrow> preserves R (mapM f xs)"
  by (induction xs) auto

end

section \<open>The order in which a computation is more defined with more fuel\<close>

text \<open>
  \<open>le_fuel m k\<close>: \<open>k\<close> agrees with \<open>m\<close> wherever \<open>m\<close> does not run out of fuel.
\<close>

definition le_fuel :: "('s, 'a) sm \<Rightarrow> ('s, 'a) sm \<Rightarrow> bool" where
  "le_fuel m k \<longleftrightarrow> (\<forall>s. m s = Inl OutOfFuel \<or> k s = m s)"

named_theorems fuel_intros

lemma le_fuel_refl [fuel_intros]: "le_fuel m m"
  by (simp add: le_fuel_def)

lemma le_fuel_trans: "le_fuel m k \<Longrightarrow> le_fuel k l \<Longrightarrow> le_fuel m l"
  by (auto simp: le_fuel_def) metis

lemma le_fuel_out [fuel_intros]: "le_fuel (fail OutOfFuel) k"
  by (simp add: le_fuel_def fail_def)

lemma le_fuel_bind [fuel_intros]:
  assumes "le_fuel m m'" and "\<And>x. le_fuel (f x) (f' x)"
  shows "le_fuel (bindM m f) (bindM m' f')"
  unfolding le_fuel_def
proof
  fix s
  show "bindM m f s = Inl OutOfFuel \<or> bindM m' f' s = bindM m f s"
  proof (cases "m s = Inl OutOfFuel")
    case True
    then show ?thesis by (simp add: bindM_def)
  next
    case False
    with assms(1) have eq: "m' s = m s" by (auto simp: le_fuel_def)
    show ?thesis
      using assms(2) by (auto simp: bindM_def eq le_fuel_def split: sum.splits)
  qed
qed

lemma le_fuel_seq [fuel_intros]:
  "le_fuel m m' \<Longrightarrow> le_fuel k k' \<Longrightarrow> le_fuel (seqM m k) (seqM m' k')"
  unfolding seqM_def by (rule le_fuel_bind)

lemma le_fuel_if [fuel_intros]:
  "le_fuel m m' \<Longrightarrow> le_fuel k k' \<Longrightarrow> le_fuel (if b then m else k) (if b then m' else k')"
  by simp

lemma le_fuel_forM [fuel_intros]:
  "(\<And>x. le_fuel (f x) (f' x)) \<Longrightarrow> le_fuel (forM xs f) (forM xs f')"
  by (induction xs) (auto intro!: fuel_intros)

lemma le_fuel_mapM [fuel_intros]:
  "(\<And>x. le_fuel (f x) (f' x)) \<Longrightarrow> le_fuel (mapM f xs) (mapM f' xs)"
  by (induction xs) (auto intro!: fuel_intros)

section \<open>Bytes\<close>

text \<open>\<open>to_le k n\<close>: the low \<open>k\<close> bytes of \<open>n\<close>, least significant first.\<close>

primrec to_le :: "nat \<Rightarrow> nat \<Rightarrow> byte list" where
  "to_le 0 n = []"
| "to_le (Suc k) n = of_nat (n mod 256) # to_le k (n div 256)"

primrec from_le :: "byte list \<Rightarrow> nat" where
  "from_le [] = 0"
| "from_le (b # bs) = unat b + 256 * from_le bs"

lemma length_to_le [simp]: "length (to_le k n) = k"
  by (induction k arbitrary: n) auto

lemma from_to_le: "from_le (to_le k n) = n mod 256 ^ k"
proof (induction k arbitrary: n)
  case 0
  then show ?case by simp
next
  case (Suc k)
  have "unat (of_nat (n mod 256) :: byte) = n mod 256"
    by (simp add: unat_of_nat)
  with Suc show ?case by (simp add: mod_mult2_eq)
qed

lemma from_le_lt: "from_le bs < 256 ^ length bs"
proof (induction bs)
  case Nil
  then show ?case by simp
next
  case (Cons b bs)
  have "unat b < 256" using unsigned_less [of b] by simp
  with Cons show ?case by simp
qed

text \<open>A \<open>uint32_t\<close> or \<open>uint64_t\<close> stored through a pointer cast, on a little-endian host.\<close>

definition bytes_u32 :: "u32 \<Rightarrow> byte list" where
  "bytes_u32 w = to_le 4 (unat w)"

definition u32_of_bytes :: "byte list \<Rightarrow> u32" where
  "u32_of_bytes bs = of_nat (from_le (take 4 bs))"

definition bytes_u64 :: "u64 \<Rightarrow> byte list" where
  "bytes_u64 w = to_le 8 (unat w)"

definition u64_of_bytes :: "byte list \<Rightarrow> u64" where
  "u64_of_bytes bs = of_nat (from_le (take 8 bs))"

lemma length_bytes [simp]: "length (bytes_u32 w) = 4" "length (bytes_u64 v) = 8"
  by (simp_all add: bytes_u32_def bytes_u64_def)

lemma u32_roundtrip [simp]: "u32_of_bytes (bytes_u32 w @ bs) = w"
proof -
  have "unat w < 256 ^ 4" using unsigned_less [of w] by simp
  then show ?thesis
    by (simp add: u32_of_bytes_def bytes_u32_def from_to_le)
qed

lemma u64_roundtrip [simp]: "u64_of_bytes (bytes_u64 w @ bs) = w"
proof -
  have "unat w < 256 ^ 8" using unsigned_less [of w] by simp
  then show ?thesis
    by (simp add: u64_of_bytes_def bytes_u64_def from_to_le)
qed

text \<open>\<open>store_at buf off bs\<close>: the buffer after \<open>bs\<close> is stored at \<open>off\<close>.\<close>

definition store_at :: "'a list \<Rightarrow> nat \<Rightarrow> 'a list \<Rightarrow> 'a list" where
  "store_at buf off bs = take off buf @ bs @ drop (off + length bs) buf"

lemma length_store_at [simp]:
  "off + length bs \<le> length buf \<Longrightarrow> length (store_at buf off bs) = length buf"
  by (simp add: store_at_def)

lemma store_at_nth_outside:
  assumes "off + length bs \<le> length buf" and "i < off \<or> off + length bs \<le> i"
  shows "store_at buf off bs ! i = buf ! i"
proof (cases "i < off")
  case True
  then show ?thesis using assms(1) by (simp add: store_at_def nth_append)
next
  case False
  with assms have i: "off + length bs \<le> i" by simp
  then have "\<not> i < off" "\<not> i - off < length bs" by auto
  with i assms(1) show ?thesis by (simp add: store_at_def nth_append)
qed

lemma drop_store_at:
  "off + length bs \<le> length buf \<Longrightarrow>
   drop off (store_at buf off bs) = bs @ drop (off + length bs) buf"
  by (simp add: store_at_def)

text \<open>Disjoint stores do not see each other.\<close>

lemma take_drop_store_at_before:
  "n + k \<le> off \<Longrightarrow> off + length bs \<le> length buf \<Longrightarrow>
   take k (drop n (store_at buf off bs)) = take k (drop n buf)"
  by (simp add: store_at_def take_drop min_def)

section \<open>Sizes\<close>

text \<open>\<open>size_t\<close> is 64 bits wide; the model keeps sizes as \<open>nat\<close> and writes the wrap out.\<close>

definition sz :: "nat \<Rightarrow> nat" where
  "sz n = n mod 2 ^ 64"

definition sz_sub :: "nat \<Rightarrow> nat \<Rightarrow> nat" where
  "sz_sub a b = (a + (2 ^ 64 - b mod 2 ^ 64)) mod 2 ^ 64"

abbreviation SIZE_MAX :: nat where
  "SIZE_MAX \<equiv> 2 ^ 64 - 1"

lemma sz_id [simp]: "n < 2 ^ 64 \<Longrightarrow> sz n = n"
  by (simp add: sz_def)

lemma sz_lt: "sz n < 2 ^ 64"
  by (simp add: sz_def)

lemma sz_sub_id [simp]: "b \<le> a \<Longrightarrow> a < 2 ^ 64 \<Longrightarrow> sz_sub a b = a - b"
proof -
  assume "b \<le> a" and a: "a < 2 ^ 64"
  then have "a + (2 ^ 64 - b mod 2 ^ 64) = (a - b) + 2 ^ 64" by simp
  then show ?thesis using a by (simp add: sz_sub_def)
qed

text \<open>The conversion of a \<open>size_t\<close> to a 32-bit \<open>int\<close>.\<close>

definition size_to_int :: "nat \<Rightarrow> int" where
  "size_to_int n = signed_take_bit 31 (int n)"

lemma size_to_int_id [simp]:
  assumes "n < 2 ^ 31"
  shows "size_to_int n = int n"
proof -
  have "int n < 2 ^ 31" using assms by (metis of_nat_less_iff of_nat_numeral of_nat_power)
  then show ?thesis
    by (simp add: size_to_int_def signed_take_bit_int_eq_self)
qed

end
