(* ===== verification/Clang_Ast.thy ===== *)
theory Clang_Ast
  imports Prelude
begin

text \<open>
  The data the interpreter receives from Clang: types, expressions, statements and
  declarations, one constructor per node class that the source tells apart with
  \<open>isa\<close> or a \<open>switch\<close>, with the fields it reads. A node class or an enumerator that the
  source only rejects is an \<open>..._Unsupported\<close> constructor carrying its name.

  Types are canonical: typedefs and the other sugar are resolved, so that
  \<open>getCanonicalType\<close> is the identity and the type predicates of Clang are tests of
  the constructor. A record type carries the types of its members; a record that is only
  declared (the pointee of a self-referential structure, for instance) is \<open>QUndefStruct\<close>.
\<close>

section \<open>Arbitrary-precision integers\<close>

text \<open>
  An \<open>llvm::APInt\<close> shows its bit width and its unsigned value. What the operations of
  the class compute is a parameter of the model, in the theory \<open>Host\<close>.
\<close>

datatype apint = APInt (ap_width: nat) (ap_val: nat)

section \<open>Types and expressions\<close>

datatype builtin_kind =
    BK_Void | BK_Bool
  | BK_Char_U | BK_UChar | BK_UShort | BK_UInt | BK_ULong | BK_ULongLong
  | BK_Char_S | BK_SChar | BK_Short | BK_Int | BK_Long | BK_LongLong
  | BK_OtherInteger string
  | BK_UnknownAny
  | BK_Unsupported string

datatype string_kind = SK_Ascii | SK_Unsupported string

datatype unary_op = UO_AddrOf | UO_LNot | UO_Minus | UO_Unsupported string

datatype binary_op =
    BO_Assign
  | BO_LT | BO_GT | BO_LE | BO_GE | BO_EQ | BO_NE
  | BO_AddAssign | BO_SubAssign
  | BO_Add | BO_Sub | BO_Mul | BO_Div | BO_And | BO_Or
  | BO_Unsupported string

datatype cast_kind =
    CK_LValueToRValue | CK_NoOp | CK_BitCast | CK_IntegralCast
  | CK_FunctionToPointerDecay | CK_ArrayToPointerDecay | CK_BuiltinFnToFnPtr
  | CK_NullToPointer | CK_PointerToIntegral
  | CK_Unsupported string

datatype trait_kind = UETT_SizeOf | UETT_Unsupported string

datatype qtype =
    QBuiltin builtin_kind
  | QPointer qtype
  | QConstantArray qtype nat
  | QVariableArray qtype expr
  | QFunction string
  | QStruct string members
  | QUnion string members
  | QUndefStruct string
  | QUnsupported string
and members =
    MNil
  | MField qtype members
  | MNonValue members
and expr =
    IntegerLiteral apint
  | CharacterLiteral u32
  | StringLiteral string_kind "byte list" qtype
  | DeclRefExpr string qtype
  | ParenExpr expr
  | ArraySubscriptExpr expr expr
  | UnaryOperator unary_op expr qtype
  | BinaryOperator binary_op expr expr
  | ImplicitCastExpr cast_kind expr qtype
  | ExplicitCastExpr cast_kind expr qtype qtype
  | CallExpr expr "expr list"
  | UnaryExprOrTypeTraitExpr trait_kind "qtype option"
  | InitListExpr "expr list" qtype
  | ImplicitValueInitExpr qtype
  | UnsupportedExpr string

text \<open>
  \<open>MField t\<close> is a \<open>ValueDecl\<close> of type \<open>t\<close> among the declarations of a record,
  \<open>MNonValue\<close> any other declaration. The second type of an \<open>ExplicitCastExpr\<close> is
  the type as written. The argument of \<open>sizeof\<close> is \<open>None\<close> when it is an expression.
\<close>

section \<open>Statements and declarations\<close>

record var_decl =
  vd_name :: string
  vd_type :: qtype
  vd_init :: "expr option"
  vd_extern_storage :: bool
  vd_external_linkage :: bool

datatype decl = VarDecl var_decl | NonVarDecl

datatype stmt =
    CompoundStmt "stmt list"
  | DeclStmt "decl list"
  | ExprStmt expr
  | ReturnStmt "expr option"
  | IfStmt expr stmt "stmt option"
  | ForStmt "stmt option" "expr option" "expr option" stmt
  | NullStmt
  | SwitchStmt expr stmt
  | CaseStmt expr stmt
  | DefaultStmt stmt
  | BreakStmt
  | UnsupportedStmt string

record function_decl =
  fd_name :: string
  fd_type :: qtype
  fd_return :: qtype
  fd_params :: "(string \<times> qtype) list"
  fd_body :: "stmt option"
  fd_is_definition :: bool
  fd_external_linkage :: bool

datatype top_decl =
    TopFunction function_decl
  | TopVar var_decl
  | TopOtherValue string
  | TopOther string

section \<open>Type predicates\<close>

fun builtin_is_integer :: "builtin_kind \<Rightarrow> bool" where
  "builtin_is_integer BK_Void = False"
| "builtin_is_integer BK_UnknownAny = False"
| "builtin_is_integer (BK_Unsupported s) = False"
| "builtin_is_integer _ = True"

fun isIntegerType :: "qtype \<Rightarrow> bool" where
  "isIntegerType (QBuiltin k) = builtin_is_integer k"
| "isIntegerType _ = False"

fun isPointerType :: "qtype \<Rightarrow> bool" where
  "isPointerType (QPointer t) = True"
| "isPointerType _ = False"

fun isArrayType :: "qtype \<Rightarrow> bool" where
  "isArrayType (QConstantArray t n) = True"
| "isArrayType (QVariableArray t e) = True"
| "isArrayType _ = False"

fun isFunctionType :: "qtype \<Rightarrow> bool" where
  "isFunctionType (QFunction s) = True"
| "isFunctionType _ = False"

fun isFunctionPointerType :: "qtype \<Rightarrow> bool" where
  "isFunctionPointerType (QPointer t) = isFunctionType t"
| "isFunctionPointerType _ = False"

fun isStructureType :: "qtype \<Rightarrow> bool" where
  "isStructureType (QStruct s m) = True"
| "isStructureType (QUndefStruct s) = True"
| "isStructureType _ = False"

text \<open>The types that \<open>main\<close> fetches from the AST context into globals of \<open>types.cpp\<close>.\<close>

abbreviation RawType :: qtype where "RawType \<equiv> QBuiltin BK_UnknownAny"
abbreviation BoolType :: qtype where "BoolType \<equiv> QBuiltin BK_Bool"
abbreviation CharType :: qtype where "CharType \<equiv> QBuiltin BK_Char_S"
abbreviation UCharType :: qtype where "UCharType \<equiv> QBuiltin BK_UChar"
abbreviation ShortType :: qtype where "ShortType \<equiv> QBuiltin BK_Short"
abbreviation UShortType :: qtype where "UShortType \<equiv> QBuiltin BK_UShort"
abbreviation IntType :: qtype where "IntType \<equiv> QBuiltin BK_Int"
abbreviation UIntType :: qtype where "UIntType \<equiv> QBuiltin BK_UInt"
abbreviation LongType :: qtype where "LongType \<equiv> QBuiltin BK_Long"
abbreviation ULongType :: qtype where "ULongType \<equiv> QBuiltin BK_ULong"
abbreviation LongLongType :: qtype where "LongLongType \<equiv> QBuiltin BK_LongLong"
abbreviation ULongLongType :: qtype where "ULongLongType \<equiv> QBuiltin BK_ULongLong"
abbreviation VoidType :: qtype where "VoidType \<equiv> QBuiltin BK_Void"
abbreviation VoidPtrType :: qtype where "VoidPtrType \<equiv> QPointer VoidType"

end
