(* ===== verification/Host.thy ===== *)
theory Host
  imports Clang_Ast "HOL-Library.Signed_Division"
begin

unbundle bit_operations_syntax

text \<open>
  What the interpreter takes from outside its own source: the operations of
  \<open>llvm::APInt\<close>, the builtin \<open>va_list\<close> type of the target, the object representation
  of an \<open>APInt\<close> in host memory, and the indeterminate contents of freshly allocated
  memory. All of it is one record, an argument of every definition that uses it. The
  locale \<open>llvm_host\<close> states the documented behaviour of \<open>APInt\<close> for widths up to 64;
  nothing is assumed of the indeterminate parts.
\<close>

section \<open>The parameter\<close>

record host =
  ap_new :: "nat \<Rightarrow> u64 \<Rightarrow> bool \<Rightarrow> apint"
  ap_assign :: "apint \<Rightarrow> u64 \<Rightarrow> apint"
  ap_uninit :: apint
  ap_add :: "apint \<Rightarrow> apint \<Rightarrow> apint"
  ap_sub :: "apint \<Rightarrow> apint \<Rightarrow> apint"
  ap_mul :: "apint \<Rightarrow> apint \<Rightarrow> apint"
  ap_sdiv :: "apint \<Rightarrow> apint \<Rightarrow> apint"
  ap_udiv :: "apint \<Rightarrow> apint \<Rightarrow> apint"
  ap_or :: "apint \<Rightarrow> apint \<Rightarrow> apint"
  ap_and :: "apint \<Rightarrow> apint \<Rightarrow> apint"
  ap_lshr :: "apint \<Rightarrow> nat \<Rightarrow> apint"
  ap_not :: "apint \<Rightarrow> bool"
  ap_eq64 :: "apint \<Rightarrow> u64 \<Rightarrow> bool"
  ap_eq :: "apint \<Rightarrow> apint \<Rightarrow> bool"
  ap_slt :: "apint \<Rightarrow> apint \<Rightarrow> bool"
  ap_sle :: "apint \<Rightarrow> apint \<Rightarrow> bool"
  ap_ult :: "apint \<Rightarrow> apint \<Rightarrow> bool"
  ap_ule :: "apint \<Rightarrow> apint \<Rightarrow> bool"
  ap_is_negative :: "apint \<Rightarrow> bool"
  ap_ugt64 :: "apint \<Rightarrow> u64 \<Rightarrow> bool"
  ap_get_limited :: "apint \<Rightarrow> u64"
  ap_get_zext :: "apint \<Rightarrow> u64"
  ap_get_sext :: "apint \<Rightarrow> u64"
  apint_object :: "apint \<Rightarrow> byte list"
  va_list_type :: qtype
  fresh_byte :: "u32 \<Rightarrow> nat \<Rightarrow> byte"
  fresh_col :: "nat \<Rightarrow> bool"
  fresh_next :: "nat option"

text \<open>The remaining comparisons of \<open>APInt\<close> are the converses and complements.\<close>

definition ap_sgt :: "host \<Rightarrow> apint \<Rightarrow> apint \<Rightarrow> bool" where "ap_sgt H x y = ap_slt H y x"
definition ap_sge :: "host \<Rightarrow> apint \<Rightarrow> apint \<Rightarrow> bool" where "ap_sge H x y = ap_sle H y x"
definition ap_ugt :: "host \<Rightarrow> apint \<Rightarrow> apint \<Rightarrow> bool" where "ap_ugt H x y = ap_ult H y x"
definition ap_uge :: "host \<Rightarrow> apint \<Rightarrow> apint \<Rightarrow> bool" where "ap_uge H x y = ap_ule H y x"
definition ap_ne :: "host \<Rightarrow> apint \<Rightarrow> apint \<Rightarrow> bool" where "ap_ne H x y = (\<not> ap_eq H x y)"

lemmas ap_cmp_defs = ap_sgt_def ap_sge_def ap_ugt_def ap_uge_def ap_ne_def

section \<open>Documented behaviour of APInt\<close>

definition ap_wf :: "apint \<Rightarrow> bool" where
  "ap_wf x \<longleftrightarrow> 0 < ap_width x \<and> ap_width x \<le> 64 \<and> ap_val x < 2 ^ ap_width x"

text \<open>The value as a two's complement number.\<close>

definition ap_sint :: "apint \<Rightarrow> int" where
  "ap_sint x = signed_take_bit (ap_width x - 1) (int (ap_val x))"

text \<open>The truncation of a mathematical integer to a width.\<close>

definition ap_of_int :: "nat \<Rightarrow> int \<Rightarrow> apint" where
  "ap_of_int w i = APInt w (nat (i mod 2 ^ w))"

lemma ap_of_int_simps [simp]:
  "ap_width (ap_of_int w i) = w" "ap_val (ap_of_int w i) = nat (i mod 2 ^ w)"
  by (simp_all add: ap_of_int_def)

lemma ap_wf_of_int [simp]: "0 < w \<Longrightarrow> w \<le> 64 \<Longrightarrow> ap_wf (ap_of_int w i)"
  by (simp add: ap_wf_def ap_of_int_def nat_less_iff)

lemma ap_sint_of_int:
  assumes "0 < w"
  shows "ap_sint (ap_of_int w i) = signed_take_bit (w - 1) i"
proof -
  from assms obtain v where w: "w = Suc v" by (cases w) auto
  have "signed_take_bit v (take_bit (Suc v) i) = signed_take_bit v i"
    by (simp add: signed_take_bit_take_bit)
  then show ?thesis
    by (simp add: ap_sint_def ap_of_int_def w take_bit_eq_mod)
qed

locale llvm_host =
  fixes H :: host
  assumes new: "0 < w \<Longrightarrow> w \<le> 64 \<Longrightarrow> ap_new H w v s = ap_of_int w (uint v)"
    and assign: "ap_wf x \<Longrightarrow> ap_assign H x v = ap_of_int (ap_width x) (uint v)"
    and add: "ap_wf x \<Longrightarrow> ap_wf y \<Longrightarrow> ap_width x = ap_width y \<Longrightarrow>
      ap_add H x y = ap_of_int (ap_width x) (int (ap_val x) + int (ap_val y))"
    and sub: "ap_wf x \<Longrightarrow> ap_wf y \<Longrightarrow> ap_width x = ap_width y \<Longrightarrow>
      ap_sub H x y = ap_of_int (ap_width x) (int (ap_val x) - int (ap_val y))"
    and mul: "ap_wf x \<Longrightarrow> ap_wf y \<Longrightarrow> ap_width x = ap_width y \<Longrightarrow>
      ap_mul H x y = ap_of_int (ap_width x) (int (ap_val x) * int (ap_val y))"
    and udiv: "ap_wf x \<Longrightarrow> ap_wf y \<Longrightarrow> ap_width x = ap_width y \<Longrightarrow> ap_val y \<noteq> 0 \<Longrightarrow>
      ap_udiv H x y = ap_of_int (ap_width x) (int (ap_val x) div int (ap_val y))"
    and sdiv: "ap_wf x \<Longrightarrow> ap_wf y \<Longrightarrow> ap_width x = ap_width y \<Longrightarrow> ap_val y \<noteq> 0 \<Longrightarrow>
      ap_sdiv H x y = ap_of_int (ap_width x) (ap_sint x sdiv ap_sint y)"
    and bit_or: "ap_wf x \<Longrightarrow> ap_wf y \<Longrightarrow> ap_width x = ap_width y \<Longrightarrow>
      ap_or H x y = APInt (ap_width x) (ap_val x OR ap_val y)"
    and bit_and: "ap_wf x \<Longrightarrow> ap_wf y \<Longrightarrow> ap_width x = ap_width y \<Longrightarrow>
      ap_and H x y = APInt (ap_width x) (ap_val x AND ap_val y)"
    and lshr: "ap_wf x \<Longrightarrow> ap_lshr H x k = APInt (ap_width x) (ap_val x div 2 ^ k)"
    and is_zero: "ap_wf x \<Longrightarrow> ap_not H x = (ap_val x = 0)"
    and eq64: "ap_wf x \<Longrightarrow> ap_eq64 H x v = (int (ap_val x) = uint v)"
    and eq: "ap_wf x \<Longrightarrow> ap_wf y \<Longrightarrow> ap_width x = ap_width y \<Longrightarrow>
      ap_eq H x y = (ap_val x = ap_val y)"
    and slt: "ap_wf x \<Longrightarrow> ap_wf y \<Longrightarrow> ap_width x = ap_width y \<Longrightarrow>
      ap_slt H x y = (ap_sint x < ap_sint y)"
    and sle: "ap_wf x \<Longrightarrow> ap_wf y \<Longrightarrow> ap_width x = ap_width y \<Longrightarrow>
      ap_sle H x y = (ap_sint x \<le> ap_sint y)"
    and ult: "ap_wf x \<Longrightarrow> ap_wf y \<Longrightarrow> ap_width x = ap_width y \<Longrightarrow>
      ap_ult H x y = (ap_val x < ap_val y)"
    and ule: "ap_wf x \<Longrightarrow> ap_wf y \<Longrightarrow> ap_width x = ap_width y \<Longrightarrow>
      ap_ule H x y = (ap_val x \<le> ap_val y)"
    and is_negative: "ap_wf x \<Longrightarrow> ap_is_negative H x = (ap_sint x < 0)"
    and ugt64_max: "ap_wf x \<Longrightarrow> \<not> ap_ugt64 H x (- 1)"
    and get_limited: "ap_wf x \<Longrightarrow> ap_get_limited H x = of_nat (ap_val x)"
    and get_zext: "ap_wf x \<Longrightarrow> ap_get_zext H x = of_nat (ap_val x)"
    and get_sext: "ap_wf x \<Longrightarrow> ap_get_sext H x = of_int (ap_sint x)"

section \<open>A concrete instance, for the witnesses\<close>

definition std_host :: host where
  "std_host = \<lparr>
     ap_new = (\<lambda>w v s. ap_of_int w (uint v)),
     ap_assign = (\<lambda>x v. ap_of_int (ap_width x) (uint v)),
     ap_uninit = APInt 1 0,
     ap_add = (\<lambda>x y. ap_of_int (ap_width x) (int (ap_val x) + int (ap_val y))),
     ap_sub = (\<lambda>x y. ap_of_int (ap_width x) (int (ap_val x) - int (ap_val y))),
     ap_mul = (\<lambda>x y. ap_of_int (ap_width x) (int (ap_val x) * int (ap_val y))),
     ap_sdiv = (\<lambda>x y. ap_of_int (ap_width x) (ap_sint x sdiv ap_sint y)),
     ap_udiv = (\<lambda>x y. ap_of_int (ap_width x) (int (ap_val x) div int (ap_val y))),
     ap_or = (\<lambda>x y. APInt (ap_width x) (ap_val x OR ap_val y)),
     ap_and = (\<lambda>x y. APInt (ap_width x) (ap_val x AND ap_val y)),
     ap_lshr = (\<lambda>x k. APInt (ap_width x) (ap_val x div 2 ^ k)),
     ap_not = (\<lambda>x. ap_val x = 0),
     ap_eq64 = (\<lambda>x v. int (ap_val x) = uint v),
     ap_eq = (\<lambda>x y. ap_val x = ap_val y),
     ap_slt = (\<lambda>x y. ap_sint x < ap_sint y),
     ap_sle = (\<lambda>x y. ap_sint x \<le> ap_sint y),
     ap_ult = (\<lambda>x y. ap_val x < ap_val y),
     ap_ule = (\<lambda>x y. ap_val x \<le> ap_val y),
     ap_is_negative = (\<lambda>x. ap_sint x < 0),
     ap_ugt64 = (\<lambda>x v. uint v < int (ap_val x)),
     ap_get_limited = (\<lambda>x. of_nat (ap_val x)),
     ap_get_zext = (\<lambda>x. of_nat (ap_val x)),
     ap_get_sext = (\<lambda>x. of_int (ap_sint x)),
     apint_object = (\<lambda>x. bytes_u32 (of_nat (ap_width x)) @ [0, 0, 0, 0] @ bytes_u64 (of_nat (ap_val x))),
     va_list_type = QUnsupported ''__builtin_va_list'',
     fresh_byte = (\<lambda>b i. 0),
     fresh_col = (\<lambda>a. False),
     fresh_next = None \<rparr>"

lemma ap_val_lt_2_64: "ap_wf x \<Longrightarrow> ap_val x < 2 ^ 64"
proof -
  assume "ap_wf x"
  then have "ap_val x < 2 ^ ap_width x" and "ap_width x \<le> 64" by (auto simp: ap_wf_def)
  moreover have "(2::nat) ^ ap_width x \<le> 2 ^ 64"
    using \<open>ap_width x \<le> 64\<close> by (rule power_increasing) simp
  ultimately show ?thesis by linarith
qed

interpretation std: llvm_host std_host
  by unfold_locales
    (auto simp: std_host_def unsigned_minus_1_eq_mask mask_eq_exp_minus_1 dest: ap_val_lt_2_64)

context llvm_host begin

text \<open>Results stay within the width; the laws in the form the components use.\<close>

lemma wf_new [simp]: "0 < w \<Longrightarrow> w \<le> 64 \<Longrightarrow> ap_wf (ap_new H w v s)"
  by (simp add: new)

lemma width_new [simp]: "0 < w \<Longrightarrow> w \<le> 64 \<Longrightarrow> ap_width (ap_new H w v s) = w"
  by (simp add: new)

lemma new_of_nat:
  assumes "0 < w" and "w \<le> 64" and "n < 2 ^ w"
  shows "ap_new H w (of_nat n) s = APInt w n"
proof -
  have "(2::nat) ^ w \<le> 2 ^ 64" using assms(2) by (rule power_increasing) simp
  with assms(3) have "n < 2 ^ 64" by linarith
  then have "uint (of_nat n :: u64) = int n"
    by (simp add: uint_nat unat_of_nat)
  moreover have "int n mod 2 ^ w = int n"
    using assms(3) by (metis mod_pos_pos_trivial of_nat_0_le_iff of_nat_less_iff of_nat_numeral of_nat_power)
  ultimately show ?thesis using assms by (simp add: new ap_of_int_def)
qed

end

end
