(* ===== verification/Values.thy ===== *)
theory Values
  imports Host
begin

unbundle bit_operations_syntax

text \<open>
  The type subsystem (\<open>enums.h\<close>, \<open>types.h\<close>, \<open>types.cpp\<close>): the emulated values
  \<open>EmuVal\<close> with their status, their tagged representation in emulated memory
  (\<open>dump_repr\<close> and the constructors from \<open>const void*\<close>), their casts and their
  arithmetic.
\<close>

section \<open>Enumerations and tags\<close>

datatype status_t = STATUS_UNDEFINED | STATUS_UNINITIALIZED | STATUS_DEFINED

datatype mem_type_t =
    MEM_TYPE_STATIC | MEM_TYPE_GLOBAL | MEM_TYPE_STACK | MEM_TYPE_HEAP
  | MEM_TYPE_EXTERN | MEM_TYPE_INVALID | MEM_TYPE_FREED

datatype num_type_t =
    NUM_TYPE_BOOL | NUM_TYPE_CHAR | NUM_TYPE_UCHAR | NUM_TYPE_SHORT | NUM_TYPE_USHORT
  | NUM_TYPE_INT | NUM_TYPE_UINT | NUM_TYPE_LONG | NUM_TYPE_ULONG
  | NUM_TYPE_LONGLONG | NUM_TYPE_ULONGLONG

definition EMU_TYPE_ZERO_ID :: u32 where "EMU_TYPE_ZERO_ID = 0x00000000"
definition EMU_TYPE_INVALID_ID :: u32 where "EMU_TYPE_INVALID_ID = 0x01010101"
definition EMU_TYPE_FUNC_ID :: u32 where "EMU_TYPE_FUNC_ID = 0x02020202"
definition EMU_TYPE_STRUCT_ID :: u32 where "EMU_TYPE_STRUCT_ID = 0x04040404"
definition EMU_TYPE_STACKPOS_ID :: u32 where "EMU_TYPE_STACKPOS_ID = 0x05050505"
definition EMU_TYPE_BOOL_ID :: u32 where "EMU_TYPE_BOOL_ID = 0x40404040"
definition EMU_TYPE_CHAR_ID :: u32 where "EMU_TYPE_CHAR_ID = 0x41414141"
definition EMU_TYPE_SHORT_ID :: u32 where "EMU_TYPE_SHORT_ID = 0x42424242"
definition EMU_TYPE_INT_ID :: u32 where "EMU_TYPE_INT_ID = 0x43434343"
definition EMU_TYPE_LONG_ID :: u32 where "EMU_TYPE_LONG_ID = 0x44444444"
definition EMU_TYPE_LONGLONG_ID :: u32 where "EMU_TYPE_LONGLONG_ID = 0x45454545"
definition EMU_TYPE_PTR_ID :: u32 where "EMU_TYPE_PTR_ID = 0x60606060"
definition EMU_TYPE_UNINIT_MASK :: u32 where "EMU_TYPE_UNINIT_MASK = 0x80808080"

lemmas type_id_defs =
  EMU_TYPE_ZERO_ID_def EMU_TYPE_INVALID_ID_def EMU_TYPE_FUNC_ID_def EMU_TYPE_STRUCT_ID_def
  EMU_TYPE_STACKPOS_ID_def EMU_TYPE_BOOL_ID_def EMU_TYPE_CHAR_ID_def EMU_TYPE_SHORT_ID_def
  EMU_TYPE_INT_ID_def EMU_TYPE_LONG_ID_def EMU_TYPE_LONGLONG_ID_def EMU_TYPE_PTR_ID_def
  EMU_TYPE_UNINIT_MASK_def

text \<open>The statuses in the order of their enumerators: the less defined, the smaller.\<close>

instantiation status_t :: linorder
begin

fun status_rank :: "status_t \<Rightarrow> nat" where
  "status_rank STATUS_UNDEFINED = 0"
| "status_rank STATUS_UNINITIALIZED = 1"
| "status_rank STATUS_DEFINED = 2"

definition less_eq_status_t :: "status_t \<Rightarrow> status_t \<Rightarrow> bool" where
  "less_eq_status_t a b \<longleftrightarrow> status_rank a \<le> status_rank b"

definition less_status_t :: "status_t \<Rightarrow> status_t \<Rightarrow> bool" where
  "less_status_t a b \<longleftrightarrow> status_rank a < status_rank b"

instance
proof
  fix a b :: status_t
  show "a \<le> b \<Longrightarrow> b \<le> a \<Longrightarrow> a = b"
    by (cases a; cases b) (simp_all add: less_eq_status_t_def)
qed (auto simp: less_eq_status_t_def less_status_t_def)

end

section \<open>Numeric types\<close>

fun bits_in_num_type :: "num_type_t \<Rightarrow> nat" where
  "bits_in_num_type NUM_TYPE_BOOL = 1"
| "bits_in_num_type NUM_TYPE_CHAR = 8"
| "bits_in_num_type NUM_TYPE_UCHAR = 8"
| "bits_in_num_type NUM_TYPE_SHORT = 16"
| "bits_in_num_type NUM_TYPE_USHORT = 16"
| "bits_in_num_type NUM_TYPE_INT = 32"
| "bits_in_num_type NUM_TYPE_UINT = 32"
| "bits_in_num_type NUM_TYPE_LONG = 32"
| "bits_in_num_type NUM_TYPE_ULONG = 32"
| "bits_in_num_type NUM_TYPE_LONGLONG = 64"
| "bits_in_num_type NUM_TYPE_ULONGLONG = 64"

definition bytes_in_num_type :: "num_type_t \<Rightarrow> nat" where
  "bytes_in_num_type t = (bits_in_num_type t + 7) div 8"

fun type_from_num_type :: "num_type_t \<Rightarrow> qtype" where
  "type_from_num_type NUM_TYPE_BOOL = BoolType"
| "type_from_num_type NUM_TYPE_CHAR = CharType"
| "type_from_num_type NUM_TYPE_UCHAR = UCharType"
| "type_from_num_type NUM_TYPE_SHORT = ShortType"
| "type_from_num_type NUM_TYPE_USHORT = UShortType"
| "type_from_num_type NUM_TYPE_INT = IntType"
| "type_from_num_type NUM_TYPE_UINT = UIntType"
| "type_from_num_type NUM_TYPE_LONG = LongType"
| "type_from_num_type NUM_TYPE_ULONG = ULongType"
| "type_from_num_type NUM_TYPE_LONGLONG = LongLongType"
| "type_from_num_type NUM_TYPE_ULONGLONG = ULongLongType"

fun id_from_num_type :: "num_type_t \<Rightarrow> u32" where
  "id_from_num_type NUM_TYPE_BOOL = EMU_TYPE_BOOL_ID"
| "id_from_num_type NUM_TYPE_CHAR = EMU_TYPE_CHAR_ID"
| "id_from_num_type NUM_TYPE_UCHAR = EMU_TYPE_CHAR_ID"
| "id_from_num_type NUM_TYPE_SHORT = EMU_TYPE_SHORT_ID"
| "id_from_num_type NUM_TYPE_USHORT = EMU_TYPE_SHORT_ID"
| "id_from_num_type NUM_TYPE_INT = EMU_TYPE_INT_ID"
| "id_from_num_type NUM_TYPE_UINT = EMU_TYPE_INT_ID"
| "id_from_num_type NUM_TYPE_LONG = EMU_TYPE_LONG_ID"
| "id_from_num_type NUM_TYPE_ULONG = EMU_TYPE_LONG_ID"
| "id_from_num_type NUM_TYPE_LONGLONG = EMU_TYPE_LONGLONG_ID"
| "id_from_num_type NUM_TYPE_ULONGLONG = EMU_TYPE_LONGLONG_ID"

fun is_num_type_signed :: "num_type_t \<Rightarrow> bool" where
  "is_num_type_signed NUM_TYPE_CHAR = True"
| "is_num_type_signed NUM_TYPE_SHORT = True"
| "is_num_type_signed NUM_TYPE_INT = True"
| "is_num_type_signed NUM_TYPE_LONG = True"
| "is_num_type_signed NUM_TYPE_LONGLONG = True"
| "is_num_type_signed _ = False"

fun getNumType :: "qtype \<Rightarrow> num_type_t res" where
  "getNumType (QBuiltin BK_Bool) = Inr NUM_TYPE_BOOL"
| "getNumType (QBuiltin BK_Char_S) = Inr NUM_TYPE_CHAR"
| "getNumType (QBuiltin BK_SChar) = Inr NUM_TYPE_CHAR"
| "getNumType (QBuiltin BK_Char_U) = Inr NUM_TYPE_UCHAR"
| "getNumType (QBuiltin BK_UChar) = Inr NUM_TYPE_UCHAR"
| "getNumType (QBuiltin BK_Short) = Inr NUM_TYPE_SHORT"
| "getNumType (QBuiltin BK_UShort) = Inr NUM_TYPE_USHORT"
| "getNumType (QBuiltin BK_Int) = Inr NUM_TYPE_INT"
| "getNumType (QBuiltin BK_UInt) = Inr NUM_TYPE_UINT"
| "getNumType (QBuiltin BK_Long) = Inr NUM_TYPE_LONG"
| "getNumType (QBuiltin BK_ULong) = Inr NUM_TYPE_ULONG"
| "getNumType (QBuiltin BK_LongLong) = Inr NUM_TYPE_LONGLONG"
| "getNumType (QBuiltin BK_ULongLong) = Inr NUM_TYPE_ULONGLONG"
| "getNumType _ = Inl CantCast"

section \<open>Values\<close>

text \<open>
  A \<open>mem_block*\<close>: null, the block with an id (ids are never reused, so the id stands for
  the address), or a pointer whose bits are not the address of any block. The union of an
  \<open>EmuPtr\<close> holds a block, the type and block id read from memory, or nothing yet.
\<close>

datatype blkptr = NullBlk | BlkPtr u32 | WildBlk

datatype ptr_union = PBlock blkptr | PRepr u32 u32 | PIndet

datatype emu_val =
    EmuNum status_t num_type_t apint u32
  | EmuPtr status_t qtype ptr_union u64
  | EmuFunc status_t qtype u32 u32
  | EmuVoid
  | EmuStackPos status_t u32 u32 u32
  | EmuStruct status_t qtype u32 "emu_val list"

fun emu_status :: "emu_val \<Rightarrow> status_t" where
  "emu_status (EmuNum s T v r) = s"
| "emu_status (EmuPtr s q u off) = s"
| "emu_status (EmuFunc s q r f) = s"
| "emu_status EmuVoid = STATUS_DEFINED"
| "emu_status (EmuStackPos s r l n) = s"
| "emu_status (EmuStruct s q r ms) = s"

fun obj_type :: "host \<Rightarrow> emu_val \<Rightarrow> qtype" where
  "obj_type H (EmuNum s T v r) = type_from_num_type T"
| "obj_type H (EmuPtr s q u off) = q"
| "obj_type H (EmuFunc s q r f) = q"
| "obj_type H EmuVoid = VoidType"
| "obj_type H (EmuStackPos s r l n) = va_list_type H"
| "obj_type H (EmuStruct s q r ms) = q"

text \<open>Reading \<open>u.block\<close>: the bits of another union member are no block address.\<close>

fun union_block :: "ptr_union \<Rightarrow> blkptr" where
  "union_block (PBlock b) = b"
| "union_block (PRepr t b) = WildBlk"
| "union_block PIndet = WildBlk"

subsection \<open>Constructors\<close>

definition num_of_status :: "host \<Rightarrow> num_type_t \<Rightarrow> status_t \<Rightarrow> emu_val" where
  "num_of_status H T s = EmuNum s T (ap_uninit H) (id_from_num_type T)"

definition num_of_apint :: "num_type_t \<Rightarrow> apint \<Rightarrow> emu_val" where
  "num_of_apint T i = EmuNum STATUS_DEFINED T i (id_from_num_type T)"

definition ptr_of_status :: "status_t \<Rightarrow> qtype \<Rightarrow> emu_val" where
  "ptr_of_status s q = EmuPtr s q PIndet 0"

definition ptr_of_mem_ptr :: "blkptr \<Rightarrow> u64 \<Rightarrow> qtype \<Rightarrow> emu_val" where
  "ptr_of_mem_ptr b off q = EmuPtr STATUS_DEFINED q (PBlock b) off"

definition func_of_status :: "status_t \<Rightarrow> qtype \<Rightarrow> emu_val" where
  "func_of_status s q =
     EmuFunc s q (EMU_TYPE_FUNC_ID OR (if s = STATUS_UNINITIALIZED then EMU_TYPE_UNINIT_MASK else 0)) 0"

definition func_of_id :: "u32 \<Rightarrow> qtype \<Rightarrow> emu_val" where
  "func_of_id f q = EmuFunc STATUS_DEFINED q EMU_TYPE_FUNC_ID f"

definition stackpos_of :: "u32 \<Rightarrow> u32 \<Rightarrow> emu_val" where
  "stackpos_of l n = EmuStackPos STATUS_DEFINED EMU_TYPE_STACKPOS_ID l n"

fun struct_tag :: "status_t \<Rightarrow> u32" where
  "struct_tag STATUS_DEFINED = EMU_TYPE_STRUCT_ID"
| "struct_tag STATUS_UNINITIALIZED = EMU_TYPE_STRUCT_ID OR EMU_TYPE_UNINIT_MASK"
| "struct_tag STATUS_UNDEFINED = EMU_TYPE_INVALID_ID"

definition struct_of :: "status_t \<Rightarrow> qtype \<Rightarrow> emu_val list \<Rightarrow> emu_val" where
  "struct_of s q ms = EmuStruct s q (struct_tag s) ms"

subsection \<open>Sizes\<close>

definition EMU_SIZE_PTR :: nat where "EMU_SIZE_PTR = 4 + 4 + 8"
definition EMU_SIZE_FUNC :: nat where "EMU_SIZE_FUNC = 4 + 4"
definition EMU_SIZE_STACKPOS :: nat where "EMU_SIZE_STACKPOS = 4 + 4 + 4"

lemmas emu_size_defs = EMU_SIZE_PTR_def EMU_SIZE_FUNC_def EMU_SIZE_STACKPOS_def

fun emu_size :: "emu_val \<Rightarrow> nat res" and emu_sizes :: "emu_val list \<Rightarrow> nat \<Rightarrow> nat res" where
  "emu_size (EmuNum s T v r) = Inr (4 + (bits_in_num_type T + 7) div 8)"
| "emu_size (EmuPtr s q u off) = Inr EMU_SIZE_PTR"
| "emu_size (EmuFunc s q r f) = Inr EMU_SIZE_FUNC"
| "emu_size EmuVoid = Inl (ErrExit ''Tried to get size of void'')"
| "emu_size (EmuStackPos s r l n) = Inr EMU_SIZE_STACKPOS"
| "emu_size (EmuStruct s q r ms) = emu_sizes ms 4"
| "emu_sizes [] acc = Inr acc"
| "emu_sizes (m # ms) acc = res_bind (emu_size m) (\<lambda>k. emu_sizes ms (sz (acc + k)))"

end
