(* ===== verification/Repr.thy ===== *)
theory Repr
  imports Values
begin

unbundle bit_operations_syntax

text \<open>
  The representation of values in emulated memory (\<open>types.h\<close>, \<open>types.cpp\<close>): a 4-byte
  type tag, then the value. Numbers are stored big-endian, ids and offsets in the byte
  order of the (little-endian) host. The locale \<open>mem_codec\<close> is the contract between a
  writer (\<open>dump_repr\<close>) and a reader (a constructor from \<open>const void*\<close>); the
  interpretations say for which values each pair of the source keeps it.
\<close>

section \<open>Reading\<close>

text \<open>The loop of \<open>EmuNum(const void*)\<close> over the bytes of the value.\<close>

function read_be :: "nat \<Rightarrow> u64 \<Rightarrow> byte list \<Rightarrow> u64" where
  "read_be bitsleft v bs =
     (if bitsleft = 0 then v
      else case bs of [] \<Rightarrow> v
      | b # bs' \<Rightarrow>
         if bitsleft < 8
         then read_be 0 (0x100 * v + ucast (b AND drop_bit (8 - bitsleft) 0xFF)) bs'
         else read_be (bitsleft - 8) (0x100 * v + ucast b) bs')"
  by pat_completeness auto
termination
  by (relation "measure (\<lambda>(n, v, bs). n)") auto

declare read_be.simps [simp del]

definition num_tag_status :: "u32 \<Rightarrow> u64 \<Rightarrow> status_t" where
  "num_tag_status t v =
     (if t = EMU_TYPE_INT_ID OR EMU_TYPE_UNINIT_MASK then STATUS_UNINITIALIZED
      else if t = EMU_TYPE_INT_ID then STATUS_DEFINED
      else if t = EMU_TYPE_ZERO_ID \<and> v = 0 then STATUS_DEFINED
      else STATUS_UNDEFINED)"

text \<open>
  The readers take the bytes from the address to the end of the host buffer; a read that
  passes the end is undefined behaviour of the host program.
\<close>

definition host_overrun :: emu_error where
  "host_overrun = HostUB ''access past the end of a host buffer''"

definition num_from_mem :: "host \<Rightarrow> num_type_t \<Rightarrow> byte list \<Rightarrow> emu_val res" where
  "num_from_mem H T bs =
     (let bits = bits_in_num_type T in
      if length bs < 4 + (bits + 7) div 8 then Inl host_overrun
      else
        let v = read_be bits 0 (drop 4 bs);
            t = u32_of_bytes bs;
            val = ap_new H bits v (is_num_type_signed T)
        in Inr (EmuNum (num_tag_status t v) T (ap_assign H val v) t))"

text \<open>\<open>active\<close> is membership in \<open>active_mem\<close>, \<open>known\<close> in \<open>global_functions\<close>.\<close>

definition ptr_from_mem :: "(u32 \<Rightarrow> bool) \<Rightarrow> byte list \<Rightarrow> qtype \<Rightarrow> emu_val res" where
  "ptr_from_mem active bs q =
     (if length bs < EMU_SIZE_PTR then Inl host_overrun
      else
        let t = u32_of_bytes bs;
            i = u32_of_bytes (drop 4 bs);
            off = u64_of_bytes (drop 8 bs)
        in Inr (if t = EMU_TYPE_PTR_ID OR EMU_TYPE_UNINIT_MASK
                then EmuPtr STATUS_UNINITIALIZED q (PRepr t i) off
                else if t = EMU_TYPE_PTR_ID \<and> active i
                then EmuPtr STATUS_DEFINED q (PBlock (BlkPtr i)) off
                else EmuPtr STATUS_UNDEFINED q (PRepr t i) off))"

definition func_from_mem :: "(u32 \<Rightarrow> bool) \<Rightarrow> byte list \<Rightarrow> qtype \<Rightarrow> emu_val res" where
  "func_from_mem known bs q =
     (if length bs < EMU_SIZE_FUNC then Inl host_overrun
      else
        let t = u32_of_bytes bs;
            i = u32_of_bytes (drop 4 bs)
        in Inr (EmuFunc
             (if t = EMU_TYPE_FUNC_ID OR EMU_TYPE_UNINIT_MASK then STATUS_UNINITIALIZED
              else if t = EMU_TYPE_FUNC_ID \<and> known i then STATUS_DEFINED
              else STATUS_UNDEFINED) q t i))"

definition stackpos_from_mem :: "byte list \<Rightarrow> emu_val res" where
  "stackpos_from_mem bs =
     (if length bs < EMU_SIZE_STACKPOS then Inl host_overrun
      else
        let t = u32_of_bytes bs
        in Inr (EmuStackPos
             (if t = EMU_TYPE_STACKPOS_ID OR EMU_TYPE_UNINIT_MASK then STATUS_UNINITIALIZED
              else if t = EMU_TYPE_STACKPOS_ID then STATUS_DEFINED
              else STATUS_UNDEFINED)
             t (u32_of_bytes (drop 4 bs)) (u32_of_bytes (drop 8 bs))))"

section \<open>Writing\<close>

text \<open>The loop of \<open>dump_repr\<close> over a number: the last byte first, then shift by 8.\<close>

primrec dump_be :: "host \<Rightarrow> nat \<Rightarrow> apint \<Rightarrow> byte list" where
  "dump_be H 0 t = []"
| "dump_be H (Suc k) t = dump_be H k (ap_lshr H t 8) @ [ucast (ap_get_zext H t AND 0xFF)]"

definition num_dump :: "host \<Rightarrow> status_t \<Rightarrow> num_type_t \<Rightarrow> apint \<Rightarrow> u32 \<Rightarrow> byte list" where
  "num_dump H s T v r =
     (let vbytes = (bits_in_num_type T + 7) div 8 in
      case s of
        STATUS_UNINITIALIZED \<Rightarrow>
          bytes_u32 (id_from_num_type T OR EMU_TYPE_UNINIT_MASK)
            @ replicate vbytes (ucast EMU_TYPE_INVALID_ID)
      | _ \<Rightarrow> bytes_u32 r @ dump_be H vbytes v)"

definition BLOCK_ID_NULL :: u32 where "BLOCK_ID_NULL = 1"
definition BLOCK_ID_INVALID :: u32 where "BLOCK_ID_INVALID = 2"
definition BLOCK_ID_START :: u32 where "BLOCK_ID_START = 3"

lemmas block_id_defs = BLOCK_ID_NULL_def BLOCK_ID_INVALID_def BLOCK_ID_START_def

definition ptr_dump :: "status_t \<Rightarrow> ptr_union \<Rightarrow> u64 \<Rightarrow> byte list res" where
  "ptr_dump s u off =
     (case s of
        STATUS_DEFINED \<Rightarrow>
          (case union_block u of
             NullBlk \<Rightarrow> Inr (bytes_u32 EMU_TYPE_PTR_ID @ bytes_u32 BLOCK_ID_NULL @ bytes_u64 off)
           | BlkPtr i \<Rightarrow> Inr (bytes_u32 EMU_TYPE_PTR_ID @ bytes_u32 i @ bytes_u64 off)
           | WildBlk \<Rightarrow> Inl (HostUB ''id of a wild block pointer''))
      | STATUS_UNDEFINED \<Rightarrow>
          (case u of
             PRepr t i \<Rightarrow> Inr (bytes_u32 t @ bytes_u32 i @ bytes_u64 off)
           | _ \<Rightarrow> Inl (HostUB ''representation of a pointer that has none''))
      | STATUS_UNINITIALIZED \<Rightarrow>
          Inr (bytes_u32 (EMU_TYPE_PTR_ID OR EMU_TYPE_UNINIT_MASK)
                 @ bytes_u32 BLOCK_ID_INVALID @ bytes_u64 (- 1)))"

definition func_dump :: "u32 \<Rightarrow> u32 \<Rightarrow> byte list" where
  [simp]: "func_dump r f = bytes_u32 r @ bytes_u32 f"

definition void_dump :: "byte list res" where
  [simp]: "void_dump = Inl (ErrExit ''Tried to write void to memory'')"

definition stackpos_dump :: "u32 \<Rightarrow> u32 \<Rightarrow> u32 \<Rightarrow> byte list" where
  [simp]: "stackpos_dump r l n = bytes_u32 r @ bytes_u32 l @ bytes_u32 n"

text \<open>
  The call of the virtual method; the last class is \<open>EmuStruct\<close>. The members of a structure
  are written one after the other, each at the sum of the sizes of those before it.
\<close>

fun dump_repr :: "host \<Rightarrow> emu_val \<Rightarrow> byte list res"
  and dump_members :: "host \<Rightarrow> emu_val list \<Rightarrow> byte list res" where
  "dump_repr H (EmuNum s T v r) = Inr (num_dump H s T v r)"
| "dump_repr H (EmuPtr s q u off) = ptr_dump s u off"
| "dump_repr H (EmuFunc s q r f) = Inr (func_dump r f)"
| "dump_repr H EmuVoid = void_dump"
| "dump_repr H (EmuStackPos s r l n) = Inr (stackpos_dump r l n)"
| "dump_repr H (EmuStruct s q r ms) =
     res_bind (dump_members H ms) (\<lambda>bs. Inr (bytes_u32 r @ bs))"
| "dump_members H [] = Inr []"
| "dump_members H (m # ms) =
     res_bind (dump_repr H m) (\<lambda>b. res_bind (dump_members H ms) (\<lambda>bs. Inr (b @ bs)))"

section \<open>Lengths\<close>

lemma length_dump_be [simp]: "length (dump_be H k v) = k"
  by (induction k arbitrary: v) auto

lemma length_num_dump [simp]:
  "length (num_dump H s T v r) = 4 + (bits_in_num_type T + 7) div 8"
  by (cases s) (simp_all add: num_dump_def Let_def)

lemma length_ptr_dump: "ptr_dump s u off = Inr bs \<Longrightarrow> length bs = EMU_SIZE_PTR"
  by (auto simp: ptr_dump_def emu_size_defs split: status_t.splits blkptr.splits ptr_union.splits)

text \<open>What \<open>dump_repr\<close> writes is as long as \<open>size\<close> says, up to the wrap of \<open>size_t\<close>.\<close>

lemma sz_add_sz: "sz (sz a + b) = sz (a + b)"
  by (simp add: sz_def mod_add_left_eq)

lemma dump_length:
  "dump_repr H v = Inr bs \<Longrightarrow> \<exists>k. emu_size v = Inr k \<and> sz k = sz (length bs)"
  "dump_members H vs = Inr bs \<Longrightarrow>
     \<forall>acc. \<exists>k. emu_sizes vs acc = Inr k \<and> sz k = sz (acc + length bs)"
proof (induction H v and H vs arbitrary: bs and bs rule: dump_repr_dump_members.induct)
  case (2 H s q u off)
  then show ?case by (auto dest: length_ptr_dump)
next
  case (6 H s q r ms)
  from "6.prems" obtain b where b: "dump_members H ms = Inr b" and bs: "bs = bytes_u32 r @ b"
    by (auto elim!: res_bind_InrE)
  from "6.IH" [OF b] obtain k where "emu_sizes ms 4 = Inr k" "sz k = sz (4 + length b)"
    by blast
  then show ?case by (simp add: bs)
next
  case (8 H m ms)
  from "8.prems" obtain b cs where b: "dump_repr H m = Inr b"
    and cs: "dump_members H ms = Inr cs" and bs: "bs = b @ cs"
    by (auto elim!: res_bind_InrE)
  from "8.IH"(1) [OF b] obtain k where k: "emu_size m = Inr k" "sz k = sz (length b)"
    by blast
  show ?case
  proof
    fix acc
    from "8.IH"(2) [OF cs] obtain k' where
      k': "emu_sizes ms (sz (acc + k)) = Inr k'" "sz k' = sz (sz (acc + k) + length cs)"
      by blast
    have "sz (sz (acc + k) + length cs) = sz (acc + length b + length cs)"
      using k(2) by (simp add: sz_def) (metis (no_types) mod_add_left_eq mod_add_right_eq)
    with k k' bs show "\<exists>k. emu_sizes (m # ms) acc = Inr k \<and> sz k = sz (acc + length bs)"
      by (simp add: res_bind_def add.assoc)
  qed
qed (auto simp: emu_size_defs)

section \<open>The contract between writer and reader\<close>

text \<open>
  \<open>ok v\<close>: the values that survive. Storing one into a buffer and reading at the same
  place returns it, and a store elsewhere does not disturb it.
\<close>

locale mem_codec =
  fixes enc :: "'v \<Rightarrow> byte list"
    and dec :: "byte list \<Rightarrow> 'v res"
    and width :: nat
    and ok :: "'v \<Rightarrow> bool"
  assumes enc_length: "ok v \<Longrightarrow> length (enc v) = width"
    and dec_enc: "ok v \<Longrightarrow> dec (enc v @ rest) = Inr v"
    and dec_local: "width \<le> length bs \<Longrightarrow> take width bs = take width cs \<Longrightarrow> width \<le> length cs \<Longrightarrow>
      dec bs = dec cs"
begin

lemma read_back:
  "ok v \<Longrightarrow> off + width \<le> length buf \<Longrightarrow> dec (drop off (store_at buf off (enc v))) = Inr v"
  by (simp add: drop_store_at enc_length dec_enc)

lemma read_elsewhere:
  assumes "off + width \<le> length buf" and "i + length bs \<le> length buf"
    and "off + width \<le> i \<or> i + length bs \<le> off"
  shows "dec (drop off (store_at buf i bs)) = dec (drop off buf)"
proof (rule dec_local)
  show "take width (drop off (store_at buf i bs)) = take width (drop off buf)"
  proof (cases "off + width \<le> i")
    case True
    then show ?thesis using assms(2) by (simp add: take_drop_store_at_before)
  next
    case False
    with assms(3) have "i + length bs \<le> off" by simp
    then have "drop off (store_at buf i bs) = drop off buf"
      using assms(2) by (simp add: store_at_def)
    then show ?thesis by simp
  qed
qed (use assms in auto)

end

end
