(* ===== verification/RoundTrip.thy ===== *)
theory RoundTrip
  imports Repr
begin

unbundle bit_operations_syntax

text \<open>
  Which values survive a store to emulated memory and a load: the byte-level lemmas, the
  interpretations of \<open>mem_codec\<close> for numbers, pointers, functions and stack positions,
  and the properties about the values that do not survive.
\<close>

section \<open>Byte order\<close>

lemma to_le_snoc: "to_le (Suc k) n = to_le k n @ [of_nat (n div 256 ^ k mod 256)]"
proof (induction k arbitrary: n)
  case 0
  then show ?case by simp
next
  case (Suc k)
  have "to_le (Suc (Suc k)) n = of_nat (n mod 256) # to_le (Suc k) (n div 256)" by simp
  also have "\<dots> = of_nat (n mod 256) # to_le k (n div 256)
      @ [of_nat (n div 256 div 256 ^ k mod 256)]" by (simp only: Suc.IH)
  finally show ?case by (simp add: div_mult2_eq)
qed

lemma byte_of_nat_mod: "(of_nat (n mod 256) :: byte) = of_nat n"
  by (simp add: word_of_nat_eq_iff take_bit_eq_mod)

lemma low_byte: "(ucast ((of_nat n :: u64) AND 0xFF) :: byte) = of_nat (n mod 256)"
proof -
  have "(of_nat n :: u64) AND 0xFF = take_bit 8 (of_nat n)"
    by (simp add: take_bit_eq_mask mask_eq_exp_minus_1)
  then have "(ucast ((of_nat n :: u64) AND 0xFF) :: byte) = ucast (take_bit 8 (of_nat n :: u64))"
    by simp
  also have "\<dots> = of_nat n"
    by (rule bit_word_eqI) (simp add: bit_simps)
  also have "\<dots> = (of_nat (n mod 256) :: byte)"
    by (simp add: byte_of_nat_mod)
  finally show ?thesis .
qed

lemma dump_be_eq:
  assumes "llvm_host H" and "ap_wf v"
  shows "dump_be H k v = rev (to_le k (ap_val v))"
  using assms(2)
proof (induction k arbitrary: v)
  case 0
  then show ?case by simp
next
  case (Suc k)
  have l: "ap_lshr H v 8 = APInt (ap_width v) (ap_val v div 256)"
    using llvm_host.lshr [OF assms(1) Suc.prems] by simp
  have "ap_wf (APInt (ap_width v) (ap_val v div 256))"
    using Suc.prems by (auto simp: ap_wf_def intro: le_less_trans [OF div_le_dividend])
  from Suc.IH [OF this] show ?case
    by (simp add: l llvm_host.get_zext [OF assms(1) Suc.prems] low_byte)
qed

lemma ucast_byte: "m < 256 \<Longrightarrow> (ucast (of_nat m :: byte) :: u64) = of_nat m"
  by (simp add: unsigned_of_nat take_bit_nat_eq_self)

lemma read_be_rev:
  "read_be (8 * k) v (rev (to_le k n) @ rest) = v * 256 ^ k + of_nat (n mod 256 ^ k)"
proof (induction k arbitrary: v)
  case 0
  then show ?case by (simp add: read_be.simps)
next
  case (Suc k)
  define m where "m = n div 256 ^ k mod 256"
  have m: "m < 256" by (simp add: m_def)
  have "read_be (8 * Suc k) v (rev (to_le (Suc k) n) @ rest)
      = read_be (8 * k) (0x100 * v + ucast (of_nat m :: byte)) (rev (to_le k n) @ rest)"
    unfolding to_le_snoc m_def [symmetric] by (subst read_be.simps) simp
  also have "\<dots> = (0x100 * v + of_nat m) * 256 ^ k + of_nat (n mod 256 ^ k)"
    unfolding Suc.IH ucast_byte [OF m] ..
  also have "\<dots> = v * 256 ^ Suc k + of_nat (256 ^ k * m + n mod 256 ^ k)"
    by (simp add: algebra_simps)
  also have "256 ^ k * m + n mod 256 ^ k = n mod 256 ^ Suc k"
    by (simp add: m_def mod_mult2_eq mult.commute [of 256])
  finally show ?case .
qed

lemma pow_2_8: "(2::nat) ^ 8 = 256"
  by simp

lemma read_be_bit:
  assumes "n < 2"
  shows "read_be 1 0 (rev (to_le 1 n) @ rest) = of_nat n"
proof -
  from assms have "n = 0 \<or> n = 1" by auto
  then show ?thesis by (auto simp: read_be.simps)
qed

text \<open>The bytes of a number give its value back.\<close>

lemma read_dump_be:
  assumes "llvm_host H" and "ap_wf v" and "ap_width v = bits_in_num_type T"
  shows "read_be (bits_in_num_type T) 0 (dump_be H ((bits_in_num_type T + 7) div 8) v @ rest)
      = of_nat (ap_val v)"
proof -
  have b: "ap_val v < 2 ^ bits_in_num_type T"
    using assms(2,3) by (simp add: ap_wf_def)
  show ?thesis
  proof (cases "T = NUM_TYPE_BOOL")
    case True
    with b read_be_bit [of "ap_val v" rest] show ?thesis
      unfolding dump_be_eq [OF assms(1,2)] by simp
  next
    case False
    then have w: "8 * ((bits_in_num_type T + 7) div 8) = bits_in_num_type T"
      by (cases T) auto
    then have "(256::nat) ^ ((bits_in_num_type T + 7) div 8) = 2 ^ bits_in_num_type T"
      by (metis power_mult pow_2_8)
    with b read_be_rev [of "(bits_in_num_type T + 7) div 8" 0 "ap_val v" rest] w
    show ?thesis by (simp add: dump_be_eq [OF assms(1,2)])
  qed
qed

section \<open>Readers look at their own bytes only\<close>

lemma read_be_local:
  "take ((bits + 7) div 8) bs = take ((bits + 7) div 8) cs \<Longrightarrow>
   (bits + 7) div 8 \<le> length bs \<Longrightarrow> (bits + 7) div 8 \<le> length cs \<Longrightarrow>
   read_be bits v bs = read_be bits v cs"
proof (induction bits v bs arbitrary: cs rule: read_be.induct)
  case (1 bits v bs)
  show ?case
  proof (cases "bits = 0")
    case True
    then show ?thesis by (simp add: read_be.simps)
  next
    case False
    then obtain k where k: "(bits + 7) div 8 = Suc k" by (cases "(bits + 7) div 8") auto
    with "1.prems" obtain b bs' cs' where bs: "bs = b # bs'" and cs: "cs = b # cs'"
      by (cases bs; cases cs) auto
    show ?thesis
    proof (cases "bits < 8")
      case True
      then show ?thesis by (simp add: bs cs read_be.simps)
    next
      case False
      then have "(bits - 8 + 7) div 8 = k" using k by simp
      with "1.prems" have *: "take ((bits - 8 + 7) div 8) bs' = take ((bits - 8 + 7) div 8) cs'"
        "(bits - 8 + 7) div 8 \<le> length bs'" "(bits - 8 + 7) div 8 \<le> length cs'"
        by (simp_all only: k bs cs) auto
      from "1.IH"(2) [OF \<open>bits \<noteq> 0\<close> bs False *] False \<open>bits \<noteq> 0\<close>
      show ?thesis by (subst (1 2) read_be.simps) (simp add: bs cs)
    qed
  qed
qed

lemma take_drop_eq:
  assumes "take n bs = take n cs" and "i + k \<le> n"
  shows "take k (drop i bs) = take k (drop i cs)"
proof -
  have "take (k + i) (take n bs) = take (k + i) (take n cs)" using assms(1) by simp
  then show ?thesis using assms(2) by (simp add: take_drop)
qed

lemma u32_local:
  assumes "take n bs = take n cs" and "i + 4 \<le> n"
  shows "u32_of_bytes (drop i bs) = u32_of_bytes (drop i cs)"
  unfolding u32_of_bytes_def take_drop_eq [OF assms] ..

lemma u64_local:
  assumes "take n bs = take n cs" and "i + 8 \<le> n"
  shows "u64_of_bytes (drop i bs) = u64_of_bytes (drop i cs)"
  unfolding u64_of_bytes_def take_drop_eq [OF assms] ..

lemma num_from_mem_local:
  assumes "4 + (bits_in_num_type T + 7) div 8 \<le> length bs"
    and "take (4 + (bits_in_num_type T + 7) div 8) bs = take (4 + (bits_in_num_type T + 7) div 8) cs"
    and "4 + (bits_in_num_type T + 7) div 8 \<le> length cs"
  shows "num_from_mem H T bs = num_from_mem H T cs"
proof -
  have t: "u32_of_bytes bs = u32_of_bytes cs"
    using u32_local [OF assms(2), of 0] by simp
  have v: "read_be (bits_in_num_type T) 0 (drop 4 bs) = read_be (bits_in_num_type T) 0 (drop 4 cs)"
    using assms(1,3) by (intro read_be_local take_drop_eq [OF assms(2)]) auto
  show ?thesis using assms(1,3) by (simp add: num_from_mem_def t v)
qed

section \<open>The codecs\<close>

text \<open>The bytes of a value that has a representation.\<close>

definition repr_bytes :: "host \<Rightarrow> emu_val \<Rightarrow> byte list" where
  "repr_bytes H v = (case dump_repr H v of Inl e \<Rightarrow> [] | Inr bs \<Rightarrow> bs)"

lemma u32_drop4 [simp]: "u32_of_bytes (drop 4 (bytes_u32 a @ bytes_u32 b @ c)) = b"
  "u64_of_bytes (drop 8 (bytes_u32 a @ bytes_u32 b @ bytes_u64 d @ c)) = d"
  "u32_of_bytes (drop 8 (bytes_u32 a @ bytes_u32 b @ bytes_u32 e @ c)) = e"
  by simp_all

definition ok_num :: "num_type_t \<Rightarrow> emu_val \<Rightarrow> bool" where
  "ok_num T v \<longleftrightarrow> id_from_num_type T = EMU_TYPE_INT_ID \<and>
     (\<exists>x. v = num_of_apint T x \<and> ap_wf x \<and> ap_width x = bits_in_num_type T)"

definition ok_ptr :: "(u32 \<Rightarrow> bool) \<Rightarrow> qtype \<Rightarrow> emu_val \<Rightarrow> bool" where
  "ok_ptr active q v \<longleftrightarrow> (\<exists>i off. v = ptr_of_mem_ptr (BlkPtr i) off q \<and> active i)"

definition ok_func :: "(u32 \<Rightarrow> bool) \<Rightarrow> qtype \<Rightarrow> emu_val \<Rightarrow> bool" where
  "ok_func known q v \<longleftrightarrow> (\<exists>i. v = func_of_id i q \<and> known i)"

definition ok_stackpos :: "emu_val \<Rightarrow> bool" where
  "ok_stackpos v \<longleftrightarrow> (\<exists>l n. v = stackpos_of l n)"

context llvm_host begin

lemma ap_assign_back:
  assumes "ap_wf x"
  shows "ap_assign H (ap_new H (ap_width x) (of_nat (ap_val x)) s) (of_nat (ap_val x)) = x"
proof -
  have w: "0 < ap_width x" "ap_width x \<le> 64" "ap_val x < 2 ^ ap_width x"
    using assms by (auto simp: ap_wf_def)
  from new_of_nat [OF this] have n: "ap_new H (ap_width x) (of_nat (ap_val x)) t = x" for t
    by simp
  have "ap_of_int (ap_width x) (uint (of_nat (ap_val x) :: u64)) = x"
    using n new [OF w(1,2)] by simp
  then show ?thesis by (simp add: n assign [OF assms])
qed

lemma num_from_dump:
  assumes "ap_wf x" and "ap_width x = bits_in_num_type T" and "s \<noteq> STATUS_UNINITIALIZED"
  shows "num_from_mem H T (num_dump H s T x r @ rest)
      = Inr (EmuNum (num_tag_status r (of_nat (ap_val x))) T x r)"
proof -
  have "num_dump H s T x r = bytes_u32 r @ dump_be H ((bits_in_num_type T + 7) div 8) x"
    using assms(3) by (cases s) (simp_all add: num_dump_def Let_def)
  then show ?thesis
    using read_dump_be [OF llvm_host_axioms assms(1,2), of rest]
      ap_assign_back [OF assms(1)] assms(2)
    by (simp add: num_from_mem_def Let_def)
qed

end

sublocale llvm_host < num_codec: mem_codec
  "repr_bytes H" "num_from_mem H T" "4 + (bits_in_num_type T + 7) div 8" "ok_num T" for T
proof
  fix v rest assume "ok_num T v"
  then obtain x where v: "v = num_of_apint T x" and x: "ap_wf x" "ap_width x = bits_in_num_type T"
    and i: "id_from_num_type T = EMU_TYPE_INT_ID" by (auto simp: ok_num_def)
  show "length (repr_bytes H v) = 4 + (bits_in_num_type T + 7) div 8"
    by (simp add: repr_bytes_def v num_of_apint_def)
  show "num_from_mem H T (repr_bytes H v @ rest) = Inr v"
    using num_from_dump [OF x, of STATUS_DEFINED] i
    by (simp add: repr_bytes_def v num_of_apint_def num_tag_status_def type_id_defs)
qed (rule num_from_mem_local)

context llvm_host begin

lemma num_read_back:
  "ok_num T v \<Longrightarrow> off + (4 + (bits_in_num_type T + 7) div 8) \<le> length buf \<Longrightarrow>
   num_from_mem H T (drop off (store_at buf off (repr_bytes H v))) = Inr v"
  by (rule num_codec.read_back)

end

interpretation ptr_codec: mem_codec
  "repr_bytes H" "\<lambda>bs. ptr_from_mem active bs q" EMU_SIZE_PTR "ok_ptr active q" for H active q
proof
  fix v rest assume "ok_ptr active q v"
  then obtain i off where v: "v = ptr_of_mem_ptr (BlkPtr i) off q" and a: "active i"
    by (auto simp: ok_ptr_def)
  have b: "repr_bytes H v = bytes_u32 EMU_TYPE_PTR_ID @ bytes_u32 i @ bytes_u64 off"
    by (simp add: repr_bytes_def v ptr_of_mem_ptr_def ptr_dump_def)
  show "length (repr_bytes H v) = EMU_SIZE_PTR" by (simp add: b emu_size_defs)
  show "ptr_from_mem active (repr_bytes H v @ rest) q = Inr v"
    unfolding b by (simp add: v a ptr_from_mem_def ptr_of_mem_ptr_def emu_size_defs type_id_defs)
next
  fix bs cs :: "byte list"
  assume l: "EMU_SIZE_PTR \<le> length bs" "take EMU_SIZE_PTR bs = take EMU_SIZE_PTR cs"
    "EMU_SIZE_PTR \<le> length cs"
  from u32_local [OF l(2), of 0] u32_local [OF l(2), of 4] u64_local [OF l(2), of 8] l(1,3)
  show "ptr_from_mem active bs q = ptr_from_mem active cs q"
    by (simp add: ptr_from_mem_def emu_size_defs)
qed

interpretation func_codec: mem_codec
  "repr_bytes H" "\<lambda>bs. func_from_mem known bs q" EMU_SIZE_FUNC "ok_func known q" for H known q
proof
  fix v rest assume "ok_func known q v"
  then obtain i where v: "v = func_of_id i q" and a: "known i" by (auto simp: ok_func_def)
  have b: "repr_bytes H v = bytes_u32 EMU_TYPE_FUNC_ID @ bytes_u32 i"
    by (simp add: repr_bytes_def v func_of_id_def)
  show "length (repr_bytes H v) = EMU_SIZE_FUNC" by (simp add: b emu_size_defs)
  show "func_from_mem known (repr_bytes H v @ rest) q = Inr v"
    unfolding b by (simp add: v a func_from_mem_def func_of_id_def emu_size_defs type_id_defs)
next
  fix bs cs :: "byte list"
  assume l: "EMU_SIZE_FUNC \<le> length bs" "take EMU_SIZE_FUNC bs = take EMU_SIZE_FUNC cs"
    "EMU_SIZE_FUNC \<le> length cs"
  from u32_local [OF l(2), of 0] u32_local [OF l(2), of 4] l(1,3)
  show "func_from_mem known bs q = func_from_mem known cs q"
    by (simp add: func_from_mem_def emu_size_defs)
qed

interpretation stackpos_codec: mem_codec
  "repr_bytes H" stackpos_from_mem EMU_SIZE_STACKPOS ok_stackpos for H
proof
  fix v rest assume "ok_stackpos v"
  then obtain l n where v: "v = stackpos_of l n" by (auto simp: ok_stackpos_def)
  have b: "repr_bytes H v = bytes_u32 EMU_TYPE_STACKPOS_ID @ bytes_u32 l @ bytes_u32 n"
    by (simp add: repr_bytes_def v stackpos_of_def)
  show "length (repr_bytes H v) = EMU_SIZE_STACKPOS" by (simp add: b emu_size_defs)
  show "stackpos_from_mem (repr_bytes H v @ rest) = Inr v"
    unfolding b by (simp add: v stackpos_from_mem_def stackpos_of_def emu_size_defs type_id_defs)
next
  fix bs cs :: "byte list"
  assume l: "EMU_SIZE_STACKPOS \<le> length bs" "take EMU_SIZE_STACKPOS bs = take EMU_SIZE_STACKPOS cs"
    "EMU_SIZE_STACKPOS \<le> length cs"
  from u32_local [OF l(2), of 0] u32_local [OF l(2), of 4] u32_local [OF l(2), of 8] l(1,3)
  show "stackpos_from_mem bs = stackpos_from_mem cs"
    by (simp add: stackpos_from_mem_def emu_size_defs)
qed

section \<open>Properties\<close>

lemma emu_sizes_bound:
  "emu_size v = Inr k \<Longrightarrow> k < 2 ^ 64"
  "emu_sizes vs acc = Inr k \<Longrightarrow> acc < 2 ^ 64 \<Longrightarrow> k < 2 ^ 64"
proof (induction v and vs acc arbitrary: k and k rule: emu_size_emu_sizes.induct)
  case (1 s T v r)
  then show ?case by (cases T) auto
next
  case (8 m ms acc)
  from "8.prems"(1) obtain x where "emu_sizes ms (sz (acc + x)) = Inr k"
    by (auto elim!: res_bind_InrE)
  from "8.IH"(2) [OF this sz_lt] show ?case .
qed (auto simp: emu_size_defs)

text \<open>The values that have a representation.\<close>

fun has_repr :: "emu_val \<Rightarrow> bool" where
  "has_repr (EmuPtr s q u off) \<longleftrightarrow> (case s of
     STATUS_DEFINED \<Rightarrow> union_block u \<noteq> WildBlk
   | STATUS_UNDEFINED \<Rightarrow> (\<exists>t i. u = PRepr t i)
   | STATUS_UNINITIALIZED \<Rightarrow> True)"
| "has_repr EmuVoid \<longleftrightarrow> False"
| "has_repr (EmuStruct s q r ms) \<longleftrightarrow> (\<forall>m \<in> set ms. has_repr m)"
| "has_repr _ \<longleftrightarrow> True"

lemma ptr_dump_has_repr: "(\<exists>bs. ptr_dump s u off = Inr bs) \<longleftrightarrow> has_repr (EmuPtr s q u off)"
  by (cases s; cases u; cases "union_block u") (simp_all add: ptr_dump_def)

lemma dump_has_repr:
  "(\<exists>bs. dump_repr H v = Inr bs) \<longleftrightarrow> has_repr v"
  "(\<exists>bs. dump_members H vs = Inr bs) \<longleftrightarrow> (\<forall>v \<in> set vs. has_repr v)"
proof (induction H v and H vs rule: dump_repr_dump_members.induct)
  case (2 H s q u off)
  show ?case using ptr_dump_has_repr by simp
qed (auto simp: res_bind_def split: sum.splits)

text \<open>C26: Which values have a representation, and its length. A value has one exactly if it is
  no void, no defined pointer to a garbage block and no undefined pointer without the bytes it
  was loaded from, and none of its members is; and the representation is exactly as long as
  \<open>size()\<close> says, for every value whose size does not overflow \<open>size_t\<close>.\<close>

theorem repr_length:
  "((\<exists>bs. dump_repr H v = Inr bs) \<longleftrightarrow> has_repr v) \<and>
   (dump_repr H v = Inr bs \<and> length bs < 2 ^ 64 \<longrightarrow> emu_size v = Inr (length bs))"
proof (intro conjI impI)
  assume d: "dump_repr H v = Inr bs \<and> length bs < 2 ^ 64"
  with dump_length(1) obtain k where k: "emu_size v = Inr k" "sz k = sz (length bs)" by blast
  with emu_sizes_bound(1) [OF k(1)] d show "emu_size v = Inr (length bs)" by simp
qed (rule dump_has_repr)

theorem repr_length_witness:
  "emu_size (struct_of STATUS_DEFINED IntType
     [func_of_id 7 IntType, stackpos_of 1 2]) = Inr 24"
  using repr_length [where H = std_host and v = "struct_of STATUS_DEFINED IntType
     [func_of_id 7 IntType, stackpos_of 1 2]"
     and bs = "bytes_u32 EMU_TYPE_STRUCT_ID @ (bytes_u32 EMU_TYPE_FUNC_ID @ bytes_u32 7) @
       (bytes_u32 EMU_TYPE_STACKPOS_ID @ bytes_u32 1 @ bytes_u32 2)"]
  by (simp add: struct_of_def func_of_id_def stackpos_of_def run_simps)

text \<open>C8: A defined number of type \<open>int\<close> or \<open>unsigned\<close>, stored anywhere in a buffer, is
  read back unchanged: value, type, status and tag.\<close>

theorem int_store_load:
  assumes "llvm_host H" and "T = NUM_TYPE_INT \<or> T = NUM_TYPE_UINT"
    and "ap_wf x" and "ap_width x = 32" and "off + 8 \<le> length buf"
    and "dump_repr H (num_of_apint T x) = Inr bs"
  shows "num_from_mem H T (drop off (store_at buf off bs)) = Inr (num_of_apint T x)"
proof -
  have "ok_num T (num_of_apint T x)"
    using assms(2-4) by (auto simp: ok_num_def)
  moreover have "bs = repr_bytes H (num_of_apint T x)"
    using assms(6) by (simp add: repr_bytes_def)
  moreover have "off + (4 + (bits_in_num_type T + 7) div 8) \<le> length buf"
    using assms(2,5) by auto
  ultimately show ?thesis using llvm_host.num_read_back [OF assms(1)] by simp
qed

theorem int_store_load_witness:
  "num_from_mem std_host NUM_TYPE_INT
     (drop 1 (store_at (replicate 9 0) 1
        (num_dump std_host STATUS_DEFINED NUM_TYPE_INT (APInt 32 4294967295) EMU_TYPE_INT_ID)))
   = Inr (num_of_apint NUM_TYPE_INT (APInt 32 4294967295))"
  by (rule int_store_load [OF std.llvm_host_axioms])
    (simp_all add: num_of_apint_def ap_wf_def)

text \<open>What the reader of numbers gets out of any bytes fits the type.\<close>

lemma uint_ucast_byte: "uint (ucast b :: u64) = uint b" for b :: byte
  by (rule uint_up_ucast) (simp add: is_up)

lemma read_be_bytes_bound:
  "uint v < 2 ^ k \<Longrightarrow> k + 8 * n \<le> 64 \<Longrightarrow> uint (read_be (8 * n) v bs) < 2 ^ (k + 8 * n)"
proof (induction n arbitrary: v k bs)
  case 0
  then show ?case by (simp add: read_be.simps)
next
  case (Suc n)
  show ?case
  proof (cases bs)
    case Nil
    have "(2::int) ^ k \<le> 2 ^ (k + 8 * Suc n)" by (rule power_increasing) simp_all
    with Suc.prems(1) have "uint v < 2 ^ (k + 8 * Suc n)" by (rule less_le_trans)
    then show ?thesis by (subst read_be.simps) (simp add: Nil)
  next
    case (Cons b bs')
    have le: "(2::int) ^ (k + 8) \<le> 2 ^ 64" using Suc.prems(2) by (intro power_increasing) simp_all
    have b: "0 \<le> uint b" "uint b < 256" using uint_lt2p [of b] by simp_all
    have v: "256 * uint v + uint b < 2 ^ (k + 8)" using Suc.prems(1) b(2) by (simp add: power_add)
    have "uint (0x100 * v + ucast b) = 256 * uint v + uint b"
    proof -
      have "uint (0x100 * v + ucast b) = (256 * uint v + uint b) mod 2 ^ 64"
        by (simp add: uint_word_ariths mod_simps uint_ucast_byte)
      also have "\<dots> = 256 * uint v + uint b" using v le b(1) by (intro mod_pos_pos_trivial) auto
      finally show ?thesis .
    qed
    with v have "uint (0x100 * v + ucast b) < 2 ^ (k + 8)" by simp
    from Suc.IH [OF this, of bs'] Suc.prems(2) show ?thesis
      by (subst read_be.simps) (simp add: Cons add_ac)
  qed
qed

lemma read_be_fits: "uint (read_be (bits_in_num_type T) 0 bs) < 2 ^ bits_in_num_type T"
proof (cases "T = NUM_TYPE_BOOL")
  case True
  have "uint (b AND drop_bit 7 0xFF) < 2" for b :: byte
  proof -
    have "drop_bit 7 0xFF = (1 :: byte)" by simp
    then show ?thesis by (simp add: and_one_eq uint_mod)
  qed
  with True show ?thesis
    by (cases bs) (simp_all add: read_be.simps [of "Suc 0"] read_be.simps [of 0] uint_ucast_byte)
next
  case False
  then have "8 * (bits_in_num_type T div 8) = bits_in_num_type T" "bits_in_num_type T \<le> 64"
    by (cases T; simp)+
  with read_be_bytes_bound [of 0 0 "bits_in_num_type T div 8" bs] show ?thesis by simp
qed

context llvm_host begin

text \<open>A number that a load made is stored with the tag it had, and loaded again unchanged.\<close>

lemma num_loaded_again:
  assumes "num_from_mem H T bs = Inr v" and "emu_status v \<noteq> STATUS_UNINITIALIZED" and "dump_repr H v = Inr cs"
  shows "num_from_mem H T (cs @ rest) = Inr v"
proof -
  let ?b = "bits_in_num_type T"
  define w where "w = read_be ?b 0 (drop 4 bs)"
  define x where "x = ap_of_int ?b (uint w)"
  have b: "0 < ?b" "?b \<le> 64" by (cases T; simp)+
  have w: "uint w < 2 ^ ?b" unfolding w_def by (rule read_be_fits)
  have "ap_assign H (ap_new H ?b w (is_num_type_signed T)) w = x"
    using b by (simp only: new assign ap_wf_of_int ap_of_int_simps x_def)
  then have "num_from_mem H T bs = (if length bs < 4 + (?b + 7) div 8 then Inl host_overrun
      else Inr (EmuNum (num_tag_status (u32_of_bytes bs) w) T x (u32_of_bytes bs)))"
    unfolding num_from_mem_def Let_def w_def by (rule arg_cong)
  with assms(1) have v: "v = EmuNum (num_tag_status (u32_of_bytes bs) w) T x (u32_of_bytes bs)"
    by (cases "length bs < 4 + (?b + 7) div 8") (simp_all only: if_True if_False sum.distinct sum.inject)
  have "uint w mod 2 ^ ?b = uint w" using w by (intro mod_pos_pos_trivial) simp_all
  then have "of_nat (ap_val x) = w" by (simp only: x_def ap_of_int_simps nat_uint_eq of_nat_unat ucast_id)
  moreover have "ap_wf x" "ap_width x = ?b" using b by (simp_all add: x_def)
  ultimately show ?thesis
    using num_from_dump [of x T "emu_status v" "u32_of_bytes bs" rest] assms(2,3) by (simp add: v)
qed

end

text \<open>C35: What a load makes of the status a number was stored with. A number that no load made
  carries the tag of its type, and only the tag of \<open>int\<close>, which \<open>unsigned int\<close> shares, is
  recognized, whatever the type: a number of any other type comes back undefined even when it
  was defined, and an \<open>int\<close> that was undefined comes back defined. But a number that a load
  made keeps the tag it had in memory: unless it was uninitialized, it is stored and loaded
  again unchanged, in value, status and tag, so that an undefined one stays undefined.\<close>

theorem reload_status:
  assumes "llvm_host H"
  shows "(\<exists>x' r'. num_from_mem H T (num_dump H s T x (id_from_num_type T) @ rest) =
     Inr (EmuNum
       (if T = NUM_TYPE_INT \<or> T = NUM_TYPE_UINT
        then (if s = STATUS_UNINITIALIZED then STATUS_UNINITIALIZED else STATUS_DEFINED)
        else STATUS_UNDEFINED) T x' r')) \<and>
   (num_from_mem H T bs = Inr v \<and> emu_status v \<noteq> STATUS_UNINITIALIZED \<longrightarrow>
      dump_repr H v = Inr cs \<longrightarrow> num_from_mem H T (cs @ rest) = Inr v)"
proof (intro conjI impI)
  have t: "u32_of_bytes (num_dump H s T x (id_from_num_type T) @ rest) =
      (if s = STATUS_UNINITIALIZED then id_from_num_type T OR EMU_TYPE_UNINIT_MASK
       else id_from_num_type T)"
    by (cases s) (simp_all add: num_dump_def Let_def)
  have "num_tag_status (u32_of_bytes (num_dump H s T x (id_from_num_type T) @ rest)) w =
      (if T = NUM_TYPE_INT \<or> T = NUM_TYPE_UINT
       then (if s = STATUS_UNINITIALIZED then STATUS_UNINITIALIZED else STATUS_DEFINED)
       else STATUS_UNDEFINED)" for w
    unfolding t by (cases T; cases s) (simp_all add: num_tag_status_def type_id_defs)
  then show "\<exists>x' r'. num_from_mem H T (num_dump H s T x (id_from_num_type T) @ rest) =
     Inr (EmuNum
       (if T = NUM_TYPE_INT \<or> T = NUM_TYPE_UINT
        then (if s = STATUS_UNINITIALIZED then STATUS_UNINITIALIZED else STATUS_DEFINED)
        else STATUS_UNDEFINED) T x' r')" by (simp add: num_from_mem_def Let_def)
next
  assume l: "num_from_mem H T bs = Inr v \<and> emu_status v \<noteq> STATUS_UNINITIALIZED"
    and d: "dump_repr H v = Inr cs"
  from l show "num_from_mem H T (cs @ rest) = Inr v"
    using llvm_host.num_loaded_again [OF assms, of T bs v cs rest] d by blast
qed

theorem reload_status_witness:
  "\<exists>x' r'. num_from_mem std_host NUM_TYPE_SHORT
     (num_dump std_host STATUS_DEFINED NUM_TYPE_SHORT (APInt 16 5) (id_from_num_type NUM_TYPE_SHORT) @ [])
   = Inr (EmuNum STATUS_UNDEFINED NUM_TYPE_SHORT x' r')"
  using reload_status [OF std.llvm_host_axioms, of NUM_TYPE_SHORT STATUS_DEFINED "APInt 16 5" "[]", THEN conjunct1]
  by (simp only: num_type_t.distinct if_False simp_thms)

text \<open>C25: A defined pointer to a live block is read back unchanged, block and offset, from
  wherever it is stored.\<close>

theorem ptr_store_load:
  assumes "active i" and "off + 16 \<le> length buf"
    and "dump_repr H (ptr_of_mem_ptr (BlkPtr i) o' q) = Inr bs"
  shows "ptr_from_mem active (drop off (store_at buf off bs)) q
      = Inr (ptr_of_mem_ptr (BlkPtr i) o' q)"
proof -
  have "ok_ptr active q (ptr_of_mem_ptr (BlkPtr i) o' q)"
    using assms(1) by (auto simp: ok_ptr_def)
  moreover have "bs = repr_bytes H (ptr_of_mem_ptr (BlkPtr i) o' q)"
    using assms(3) by (simp add: repr_bytes_def)
  ultimately show ?thesis
    using ptr_codec.read_back [of active q _ off buf H] assms(2) by (simp add: emu_size_defs)
qed

theorem ptr_store_load_witness:
  "ptr_from_mem (\<lambda>i. i = 5) (drop 2 (store_at (replicate 20 0) 2
     (bytes_u32 EMU_TYPE_PTR_ID @ bytes_u32 5 @ bytes_u64 8))) IntType
   = Inr (ptr_of_mem_ptr (BlkPtr 5) 8 IntType)"
  by (rule ptr_store_load [where H = std_host])
    (simp_all add: ptr_of_mem_ptr_def ptr_dump_def)

text \<open>C36: A pointer to a block that is not live comes back undefined; so does the null
  pointer unless the block id written for it, which no allocation hands out, is live.\<close>

theorem dead_ptr_reload:
  "(\<exists>u. ptr_from_mem active (repr_bytes H (ptr_of_mem_ptr NullBlk off q) @ rest) q =
     Inr (EmuPtr (if active BLOCK_ID_NULL then STATUS_DEFINED else STATUS_UNDEFINED) q u off))
   \<and> (\<exists>u. ptr_from_mem active (repr_bytes H (ptr_of_mem_ptr (BlkPtr i) off q) @ rest) q =
     Inr (EmuPtr (if active i then STATUS_DEFINED else STATUS_UNDEFINED) q u off))"
  by (simp add: repr_bytes_def ptr_of_mem_ptr_def ptr_dump_def ptr_from_mem_def
      emu_size_defs type_id_defs)

text \<open>C34: Function values and stack positions are read back unchanged; a function id that is
  not in \<open>global_functions\<close>, such as that of an external function, comes back undefined.\<close>

theorem func_stackpos_store_load:
  "func_from_mem known (repr_bytes H (func_of_id i q) @ rest) q
     = Inr (EmuFunc (if known i then STATUS_DEFINED else STATUS_UNDEFINED) q EMU_TYPE_FUNC_ID i)
   \<and> stackpos_from_mem (repr_bytes H (stackpos_of l n) @ rest) = Inr (stackpos_of l n)"
proof
  show "stackpos_from_mem (repr_bytes H (stackpos_of l n) @ rest) = Inr (stackpos_of l n)"
    by (rule stackpos_codec.dec_enc) (auto simp: ok_stackpos_def)
qed (simp add: repr_bytes_def func_of_id_def func_from_mem_def emu_size_defs type_id_defs)

end
