(* ===== verification/Arith.thy ===== *)
theory Arith
  imports RoundTrip
begin

unbundle bit_operations_syntax

text \<open>
  Arithmetic and casts of emulated values (\<open>types.h\<close>, \<open>types.cpp\<close>): the operations of
  \<open>EmuNum\<close>, the dispatch over the kinds of the operands in \<open>EmuNumGeneric\<close>, and the
  \<open>cast_to\<close> method of every class, with the status they give their result.
\<close>

section \<open>Operations on two numbers of one type\<close>

text \<open>
  The common guards of the six operations: an undefined operand gives an undefined result,
  an uninitialized one an uninitialized result, otherwise \<open>k\<close> computes.
\<close>

definition num_strict :: "host \<Rightarrow> num_type_t \<Rightarrow> status_t \<Rightarrow> status_t \<Rightarrow> emu_val \<Rightarrow> emu_val" where
  "num_strict H T s1 s2 k =
     (if s1 = STATUS_UNDEFINED \<or> s2 = STATUS_UNDEFINED then num_of_status H T STATUS_UNDEFINED
      else if s1 = STATUS_UNINITIALIZED \<or> s2 = STATUS_UNINITIALIZED
      then num_of_status H T STATUS_UNINITIALIZED
      else k)"

definition num_add where
  "num_add H T s1 v1 s2 v2 = num_strict H T s1 s2 (num_of_apint T (ap_add H v1 v2))"

definition num_sub where
  "num_sub H T s1 v1 s2 v2 = num_strict H T s1 s2 (num_of_apint T (ap_sub H v1 v2))"

definition num_mul where
  "num_mul H T s1 v1 s2 v2 = num_strict H T s1 s2 (num_of_apint T (ap_mul H v1 v2))"

definition num_div where
  "num_div H T s1 v1 s2 v2 = num_strict H T s1 s2
     (if ap_eq64 H v2 0 then num_of_status H T STATUS_UNDEFINED
      else if is_num_type_signed T then num_of_apint T (ap_sdiv H v1 v2)
      else num_of_apint T (ap_udiv H v1 v2))"

definition num_or where
  "num_or H T s1 v1 s2 v2 = num_strict H T s1 s2 (num_of_apint T (ap_or H v1 v2))"

definition num_and where
  "num_and H T s1 v1 s2 v2 = num_strict H T s1 s2 (num_of_apint T (ap_and H v1 v2))"

definition num_lnot :: "host \<Rightarrow> num_type_t \<Rightarrow> status_t \<Rightarrow> apint \<Rightarrow> emu_val" where
  "num_lnot H T s v =
     (if s = STATUS_UNDEFINED then num_of_status H T STATUS_UNDEFINED
      else if s = STATUS_UNINITIALIZED then num_of_status H T STATUS_UNINITIALIZED
      else num_of_apint T
        (ap_new H (bits_in_num_type T) (if ap_not H v then 1 else 0) (is_num_type_signed T)))"

definition num_neg :: "host \<Rightarrow> num_type_t \<Rightarrow> status_t \<Rightarrow> apint \<Rightarrow> emu_val" where
  "num_neg H T s v =
     (if s = STATUS_UNDEFINED then num_of_status H T STATUS_UNDEFINED
      else if s = STATUS_UNINITIALIZED then num_of_status H T STATUS_UNINITIALIZED
      else num_of_apint T
        (ap_new H (bits_in_num_type T) (- ap_get_limited H v) (is_num_type_signed T)))"

section \<open>Dispatch\<close>

datatype num_op = OpAdd | OpSub | OpMul | OpDiv | OpOr | OpAnd

fun num_method where
  "num_method H OpAdd = num_add H"
| "num_method H OpSub = num_sub H"
| "num_method H OpMul = num_mul H"
| "num_method H OpDiv = num_div H"
| "num_method H OpOr = num_or H"
| "num_method H OpAnd = num_and H"

text \<open>
  \<open>get_gen_kind\<close>: both operands must have the same builtin integer kind. The \<open>switch\<close> of
  \<open>DOOP\<close> then names the class to call; plain \<open>char\<close> (\<open>Char_S\<close>, \<open>Char_U\<close>) is not among
  its cases.
\<close>

fun get_gen_kind :: "qtype \<Rightarrow> qtype \<Rightarrow> builtin_kind res" where
  "get_gen_kind (QBuiltin a) (QBuiltin b) =
     (if \<not> builtin_is_integer a then Inl CantCast
      else if a \<noteq> b then Inl CantCast else Inr a)"
| "get_gen_kind _ _ = Inl CantCast"

fun doop_type :: "builtin_kind \<Rightarrow> num_type_t res" where
  "doop_type BK_Bool = Inr NUM_TYPE_BOOL"
| "doop_type BK_SChar = Inr NUM_TYPE_CHAR"
| "doop_type BK_UChar = Inr NUM_TYPE_UCHAR"
| "doop_type BK_Short = Inr NUM_TYPE_SHORT"
| "doop_type BK_UShort = Inr NUM_TYPE_USHORT"
| "doop_type BK_Int = Inr NUM_TYPE_INT"
| "doop_type BK_UInt = Inr NUM_TYPE_UINT"
| "doop_type BK_Long = Inr NUM_TYPE_LONG"
| "doop_type BK_ULong = Inr NUM_TYPE_ULONG"
| "doop_type BK_LongLong = Inr NUM_TYPE_LONGLONG"
| "doop_type BK_ULongLong = Inr NUM_TYPE_ULONGLONG"
| "doop_type _ = Inl CantCast"

text \<open>
  The unchecked C casts to \<open>EmuNumGeneric*\<close> are undefined behaviour on other classes.
\<close>

fun num_parts :: "emu_val \<Rightarrow> (status_t \<times> num_type_t \<times> apint) res" where
  "num_parts (EmuNum s T v r) = Inr (s, T, v)"
| "num_parts _ = Inl (HostUB ''cast of a value to EmuNumGeneric'')"

definition num_doop :: "host \<Rightarrow> num_op \<Rightarrow> emu_val \<Rightarrow> emu_val \<Rightarrow> emu_val res" where
  "num_doop H op a b =
     res_bind (num_parts a) (\<lambda>(s1, T1, v1). res_bind (num_parts b) (\<lambda>(s2, T2, v2).
     res_bind (get_gen_kind (obj_type H a) (obj_type H b)) (\<lambda>k.
     res_bind (doop_type k) (\<lambda>T. Inr (num_method H op T s1 v1 s2 v2)))))"

definition generic_lnot :: "host \<Rightarrow> emu_val \<Rightarrow> emu_val res" where
  "generic_lnot H a = res_bind (num_parts a) (\<lambda>(s, T, v). Inr (num_lnot H T s v))"

definition generic_neg :: "host \<Rightarrow> emu_val \<Rightarrow> emu_val res" where
  "generic_neg H a = res_bind (num_parts a) (\<lambda>(s, T, v). Inr (num_neg H T s v))"

definition num_equals :: "host \<Rightarrow> emu_val \<Rightarrow> emu_val \<Rightarrow> bool res" where
  "num_equals H a b =
     res_bind (num_parts a) (\<lambda>(s1, T1, v1). res_bind (num_parts b) (\<lambda>(s2, T2, v2).
       Inr (ap_eq H v1 v2)))"

section \<open>Casts\<close>

definition num_cast_to :: "host \<Rightarrow> num_type_t \<Rightarrow> apint \<Rightarrow> qtype \<Rightarrow> emu_val res" where
  "num_cast_to H T v q =
     res_bind (getNumType q) (\<lambda>t.
       Inr (if is_num_type_signed T \<and> \<not> is_num_type_signed t
            then num_of_status H t STATUS_UNDEFINED
            else num_of_apint t
              (ap_new H (bits_in_num_type t) (ap_get_limited H v) (is_num_type_signed t))))"

definition ptr_cast_to :: "ptr_union \<Rightarrow> u64 \<Rightarrow> qtype \<Rightarrow> emu_val res" where
  [simp]: "ptr_cast_to u off q =
     (if isPointerType q \<or> isArrayType q then Inr (ptr_of_mem_ptr (union_block u) off q)
      else Inl CantCast)"

definition func_cast_to :: "u32 \<Rightarrow> qtype \<Rightarrow> emu_val res" where
  [simp]: "func_cast_to f q = (if isFunctionType q then Inr (func_of_id f q) else Inl CantCast)"

definition void_cast_to :: "qtype \<Rightarrow> emu_val res" where
  [simp]: "void_cast_to q = Inl (ErrExit ''Tried to cast void'')"

definition stackpos_cast_to :: "qtype \<Rightarrow> emu_val res" where
  [simp]: "stackpos_cast_to q = Inl CantCast"

text \<open>The call of the virtual method: the last class is \<open>EmuStruct\<close>, which casts its members.\<close>

fun emu_cast_to :: "host \<Rightarrow> emu_val \<Rightarrow> qtype \<Rightarrow> emu_val res"
  and cast_members :: "host \<Rightarrow> emu_val list \<Rightarrow> emu_val list res" where
  "emu_cast_to H (EmuNum s T v r) q = num_cast_to H T v q"
| "emu_cast_to H (EmuPtr s p u off) q = ptr_cast_to u off q"
| "emu_cast_to H (EmuFunc s p r f) q = func_cast_to f q"
| "emu_cast_to H EmuVoid q = void_cast_to q"
| "emu_cast_to H (EmuStackPos s r l n) q = stackpos_cast_to q"
| "emu_cast_to H (EmuStruct s p r ms) q =
     (if q \<noteq> p then Inl CantCast
      else res_bind (cast_members H ms) (\<lambda>ms'. Inr (struct_of s q ms')))"
| "cast_members H [] = Inr []"
| "cast_members H (m # ms) =
     res_bind (emu_cast_to H m (obj_type H m)) (\<lambda>m'.
       res_bind (cast_members H ms) (\<lambda>ms'. Inr (m' # ms')))"

text \<open>The function \<open>cast_to\<close> of \<open>cast.cpp\<close>, which checks the status first.\<close>

definition checked_cast_to :: "host \<Rightarrow> emu_val \<Rightarrow> qtype \<Rightarrow> emu_val res" where
  "checked_cast_to H v q =
     (if emu_status v \<noteq> STATUS_DEFINED then Inl (ErrExit ''Attempted to cast invalid value'')
      else emu_cast_to H v q)"

section \<open>Well-formed values\<close>

text \<open>
  What the evaluator keeps true of the values it computes: a number has the width of its
  type unless its contents are indeterminate, a pointer a pointer or array type, a function a
  function type, and a structure well-formed members. The class of a value can then be told from its type.
\<close>

fun val_wt :: "emu_val \<Rightarrow> bool" where
  "val_wt (EmuNum s T v r) \<longleftrightarrow>
     (s = STATUS_DEFINED \<longrightarrow> ap_wf v \<and> ap_width v = bits_in_num_type T)"
| "val_wt (EmuPtr s q u off) \<longleftrightarrow> (isPointerType q \<or> isArrayType q)"
| "val_wt (EmuFunc s q r f) \<longleftrightarrow> isFunctionType q \<or> q = RawType"
| "val_wt EmuVoid \<longleftrightarrow> True"
| "val_wt (EmuStackPos s r l n) \<longleftrightarrow> True"
| "val_wt (EmuStruct s q r ms) \<longleftrightarrow> \<not> isIntegerType q \<and> \<not> isPointerType q \<and> (\<forall>m \<in> set ms. val_wt m)"

lemma type_from_num_is_integer [simp]: "isIntegerType (type_from_num_type T)"
  by (cases T) simp_all

lemma getNumType_type_from [simp]: "getNumType (type_from_num_type T) = Inr T"
  by (cases T) simp_all

lemma bits_pos [simp]: "0 < bits_in_num_type T" "bits_in_num_type T \<le> 64"
  by (cases T; simp)+

lemma min_undef [simp]: "min STATUS_UNDEFINED s = STATUS_UNDEFINED" "min s STATUS_UNDEFINED = STATUS_UNDEFINED"
  by (cases s; simp add: min_def less_eq_status_t_def)+

lemma min_status_simps [simp]:
  "min STATUS_UNINITIALIZED STATUS_DEFINED = STATUS_UNINITIALIZED"
  "min STATUS_DEFINED STATUS_UNINITIALIZED = STATUS_UNINITIALIZED"
  by (simp_all add: min_def less_eq_status_t_def)

lemma status_num_strict:
  "emu_status (num_strict H T s1 s2 k) =
     (if min s1 s2 = STATUS_DEFINED then emu_status k else min s1 s2)"
  by (cases s1; cases s2) (simp_all add: num_strict_def num_of_status_def)

lemma num_strict_defined [simp]: "num_strict H T STATUS_DEFINED STATUS_DEFINED k = k"
  by (simp add: num_strict_def)

lemma emu_status_simps [simp]:
  "emu_status (num_of_status H T s) = s" "emu_status (num_of_apint T i) = STATUS_DEFINED"
  by (simp_all add: num_of_status_def num_of_apint_def)

lemma type_num_strict:
  assumes "\<exists>s v r. k = EmuNum s T v r"
  shows "\<exists>s v r. num_strict H T s1 s2 k = EmuNum s T v r"
  using assms by (auto simp: num_strict_def num_of_status_def)

section \<open>The numbers of a type\<close>

text \<open>The value of a word of a numeric type, and the value an integer wraps to.\<close>

definition num_value :: "num_type_t \<Rightarrow> apint \<Rightarrow> int" where
  "num_value T x = (if is_num_type_signed T then ap_sint x else int (ap_val x))"

definition num_wrap :: "num_type_t \<Rightarrow> int \<Rightarrow> int" where
  "num_wrap T i =
     (if is_num_type_signed T then signed_take_bit (bits_in_num_type T - 1) i
      else take_bit (bits_in_num_type T) i)"

definition ap_fits :: "num_type_t \<Rightarrow> apint \<Rightarrow> bool" where
  "ap_fits T x \<longleftrightarrow> ap_wf x \<and> ap_width x = bits_in_num_type T"

lemma ap_fits_of_int [simp]: "ap_fits T (ap_of_int (bits_in_num_type T) i)"
  by (simp add: ap_fits_def)

lemma num_wrap_cong:
  "take_bit (bits_in_num_type T) i = take_bit (bits_in_num_type T) j \<Longrightarrow> num_wrap T i = num_wrap T j"
  by (cases T) (simp_all add: num_wrap_def signed_take_bit_eq_iff_take_bit_eq)

lemma num_value_of_int [simp]: "num_value T (ap_of_int (bits_in_num_type T) i) = num_wrap T i"
  by (simp add: num_value_def num_wrap_def ap_sint_of_int take_bit_eq_mod)

lemma take_bit_val:
  assumes "ap_fits T x"
  shows "take_bit (bits_in_num_type T) (int (ap_val x)) = int (ap_val x)"
proof -
  have "int (ap_val x) < 2 ^ bits_in_num_type T"
    using assms by (auto simp: ap_fits_def ap_wf_def)
  then show ?thesis by (simp add: take_bit_int_eq_self)
qed

lemma take_bit_num_value:
  assumes "ap_fits T x"
  shows "take_bit (bits_in_num_type T) (num_value T x) = int (ap_val x)"
proof -
  obtain k where k: "bits_in_num_type T = Suc k" by (cases T) auto
  show ?thesis
    using take_bit_val [OF assms] assms
    by (simp add: num_value_def ap_sint_def ap_fits_def k take_bit_signed_take_bit)
qed

lemma num_value_eq: "ap_fits T x \<Longrightarrow> num_value T x = num_wrap T (int (ap_val x))"
  by (auto simp: num_value_def num_wrap_def ap_sint_def ap_fits_def take_bit_val [unfolded ap_fits_def])

lemma num_wrap_value [simp]: "ap_fits T x \<Longrightarrow> num_wrap T (num_value T x) = num_value T x"
  by (simp add: num_value_eq [of T x]) (rule num_wrap_cong, metis num_value_eq take_bit_num_value take_bit_val)

lemma num_value_zero: "ap_fits T x \<Longrightarrow> num_value T x = 0 \<longleftrightarrow> ap_val x = 0"
  using take_bit_num_value [of T x] num_value_eq [of T x]
  by (auto simp: num_wrap_def)

section \<open>What the operations compute\<close>

text \<open>The mathematical operation behind each ring operation and division.\<close>

fun int_op :: "num_op \<Rightarrow> int \<Rightarrow> int \<Rightarrow> int" where
  "int_op OpAdd a b = a + b"
| "int_op OpSub a b = a - b"
| "int_op OpMul a b = a * b"
| "int_op OpDiv a b = a sdiv b"
| "int_op OpOr a b = a OR b"
| "int_op OpAnd a b = a AND b"

lemma sdiv_nonneg: "0 \<le> (a::int) \<Longrightarrow> 0 \<le> b \<Longrightarrow> a sdiv b = a div b"
  by (cases "a = 0"; cases "b = 0") (auto simp: signed_divide_int_def sgn_if)

text \<open>The representative a ring or bit operation works on does not matter.\<close>

lemma num_wrap_op:
  assumes "op \<noteq> OpDiv" and "ap_fits T x" and "ap_fits T y"
  shows "num_wrap T (int_op op (int (ap_val x)) (int (ap_val y)))
      = num_wrap T (int_op op (num_value T x) (num_value T y))"
proof (rule num_wrap_cong)
  note xy = take_bit_num_value [OF assms(2), symmetric] take_bit_num_value [OF assms(3), symmetric]
  show "take_bit (bits_in_num_type T) (int_op op (int (ap_val x)) (int (ap_val y)))
      = take_bit (bits_in_num_type T) (int_op op (num_value T x) (num_value T y))"
    using assms(1) unfolding xy
    by (cases op) (simp_all add: take_bit_add take_bit_diff take_bit_mult)
qed

lemma num_result:
  "m = num_of_apint T (ap_of_int (bits_in_num_type T) i) \<Longrightarrow> num_wrap T i = j \<Longrightarrow>
   \<exists>z. m = num_of_apint T z \<and> ap_fits T z \<and> num_value T z = j"
  by (intro exI [of _ "ap_of_int (bits_in_num_type T) i"]) simp

context llvm_host begin

lemma method_value:
  assumes x: "ap_fits T x" and y: "ap_fits T y" and d: "op = OpDiv \<longrightarrow> num_value T y \<noteq> 0"
  shows "\<exists>z. num_method H op T STATUS_DEFINED x STATUS_DEFINED y = num_of_apint T z \<and>
      ap_fits T z \<and> num_value T z = num_wrap T (int_op op (num_value T x) (num_value T y))"
proof -
  have wf: "ap_wf x" "ap_wf y" "ap_width x = ap_width y" and w: "ap_width x = bits_in_num_type T"
    using x y by (auto simp: ap_fits_def)
  have bit: "APInt (ap_width x) (nat (int_op op (int (ap_val x)) (int (ap_val y))))
      = ap_of_int (bits_in_num_type T) (int_op op (int (ap_val x)) (int (ap_val y)))"
    if "op = OpOr \<or> op = OpAnd"
  proof -
    have "take_bit (bits_in_num_type T) (int_op op (int (ap_val x)) (int (ap_val y)))
        = int_op op (int (ap_val x)) (int (ap_val y))"
      using that take_bit_val [OF x] take_bit_val [OF y] by auto
    then show ?thesis by (simp add: ap_of_int_def w take_bit_eq_mod)
  qed
  show ?thesis
  proof (cases op)
    case OpDiv
    with d y have nz: "ap_val y \<noteq> 0" by (simp add: num_value_zero)
    have e: "ap_eq64 H y 0 = False" using nz by (simp add: eq64 [OF wf(2)])
    show ?thesis
      by (rule num_result [of _ _ "num_value T x sdiv num_value T y"])
        (simp_all add: OpDiv num_div_def e sdiv [OF wf nz] udiv [OF wf nz] sdiv_nonneg num_value_def w)
  next
    case OpOr
    have "ap_or H x y = ap_of_int (bits_in_num_type T) (int_op op (int (ap_val x)) (int (ap_val y)))"
      using bit bit_or [OF wf] by (simp add: OpOr of_nat_or_eq [symmetric])
    with num_wrap_op [OF _ x y, of op] show ?thesis
      by (intro num_result [of _ _ "int_op op (int (ap_val x)) (int (ap_val y))"]) (simp_all add: OpOr num_or_def)
  next
    case OpAnd
    have "ap_and H x y = ap_of_int (bits_in_num_type T) (int_op op (int (ap_val x)) (int (ap_val y)))"
      using bit bit_and [OF wf] by (simp add: OpAnd of_nat_and_eq [symmetric])
    with num_wrap_op [OF _ x y, of op] show ?thesis
      by (intro num_result [of _ _ "int_op op (int (ap_val x)) (int (ap_val y))"]) (simp_all add: OpAnd num_and_def)
  qed (use num_wrap_op [OF _ x y, of op] add [OF wf] sub [OF wf] mul [OF wf] in
      \<open>auto simp: num_add_def num_sub_def num_mul_def w intro!: num_result [of _ _ "int_op op (int (ap_val x)) (int (ap_val y))"]\<close>)
qed

lemma cast_value:
  assumes "ap_fits T x" and "getNumType q = Inr t" and "\<not> (is_num_type_signed T \<and> \<not> is_num_type_signed t)"
  shows "\<exists>z. num_cast_to H T x q = Inr (num_of_apint t z) \<and> ap_fits t z \<and>
      num_value t z = num_wrap t (int (ap_val x))"
proof -
  have wf: "ap_wf x" using assms(1) by (simp add: ap_fits_def)
  have "uint (of_nat (ap_val x) :: u64) = int (ap_val x)"
    using ap_val_lt_2_64 [OF wf] by (simp add: uint_nat unat_of_nat)
  then show ?thesis
    using assms(2,3)
    by (intro exI [of _ "ap_of_int (bits_in_num_type t) (int (ap_val x))"])
      (auto simp: num_cast_to_def res_bind_def get_limited [OF wf] new)
qed

end

lemma host_method_value:
  assumes "llvm_host H" and "ap_fits T x" and "ap_fits T y" and "op = OpDiv \<longrightarrow> num_value T y \<noteq> 0"
  obtains z where
    "num_method H op T STATUS_DEFINED x STATUS_DEFINED y = num_of_apint T z" and "ap_fits T z"
    and "num_value T z = num_wrap T (int_op op (num_value T x) (num_value T y))"
  using llvm_host.method_value [OF assms] by blast

lemma get_gen_kind_num:
  "res_bind (get_gen_kind (type_from_num_type T1) (type_from_num_type T2)) doop_type =
     (if T1 = T2 \<and> T1 \<noteq> NUM_TYPE_CHAR then Inr T1 else Inl CantCast)"
  by (cases T1; cases T2) (simp_all add: res_bind_def)

lemma num_doop_num:
  "num_doop H op (EmuNum s1 T1 x r1) (EmuNum s2 T2 y r2) =
     (if T1 = T2 \<and> T1 \<noteq> NUM_TYPE_CHAR then Inr (num_method H op T1 s1 x s2 y) else Inl CantCast)"
  using get_gen_kind_num [of T1 T2]
  by (auto simp: num_doop_def res_bind_def split: sum.splits if_splits)

lemma method_status:
  "emu_status (num_method H op T s1 x s2 y) =
     (if min s1 s2 = STATUS_DEFINED \<and> op = OpDiv \<and> ap_eq64 H y 0 then STATUS_UNDEFINED
      else min s1 s2)"
  "\<exists>s v r. num_method H op T s1 x s2 y = EmuNum s T v r"
  by (cases op; cases s1; cases s2;
      simp add: num_add_def num_sub_def num_mul_def num_div_def num_or_def num_and_def
        num_strict_def num_of_status_def num_of_apint_def)+

section \<open>Properties\<close>

text \<open>C9: The six binary operations on two defined numbers of one type compute the
  mathematical operation, wrapped to the type, the division towards zero. The operands are
  taken at their own types; plain \<open>char\<close> is rejected.\<close>

theorem doop_value:
  assumes "llvm_host H" and "ap_fits T x" and "ap_fits T y"
    and "op = OpDiv \<longrightarrow> num_value T y \<noteq> 0" and "T \<noteq> NUM_TYPE_CHAR"
  shows "\<exists>z. num_doop H op (num_of_apint T x) (num_of_apint T y) = Inr (num_of_apint T z) \<and>
      ap_fits T z \<and> num_value T z = num_wrap T (int_op op (num_value T x) (num_value T y))"
  using host_method_value [OF assms(1-4)] assms(5)
  by (metis num_of_apint_def num_doop_num)

theorem doop_value_witness:
  "\<exists>z. num_doop std_host OpAdd (num_of_apint NUM_TYPE_INT (APInt 32 2147483647))
      (num_of_apint NUM_TYPE_INT (APInt 32 1)) = Inr (num_of_apint NUM_TYPE_INT z)
     \<and> num_value NUM_TYPE_INT z = num_wrap NUM_TYPE_INT
         (num_value NUM_TYPE_INT (APInt 32 2147483647) + num_value NUM_TYPE_INT (APInt 32 1))"
  using doop_value [OF std.llvm_host_axioms, of NUM_TYPE_INT "APInt 32 2147483647" "APInt 32 1" OpAdd]
  by (auto simp: ap_fits_def ap_wf_def)

text \<open>C28: The status of the result of a binary operation is the lesser of the statuses of
  the operands, except that a division by zero of defined numbers is undefined; the type of
  the result is that of the operands, whatever their statuses.\<close>

theorem doop_status:
  assumes "num_doop H op (EmuNum s1 T x r1) (EmuNum s2 T y r2) = Inr v"
  shows "emu_status v =
      (if min s1 s2 = STATUS_DEFINED \<and> op = OpDiv \<and> ap_eq64 H y 0 then STATUS_UNDEFINED
       else min s1 s2)
    \<and> obj_type H v = type_from_num_type T"
proof -
  from assms have v: "v = num_method H op T s1 x s2 y"
    by (simp add: num_doop_num split: if_splits)
  with method_status(2) [of H op T s1 x s2 y] have "obj_type H v = type_from_num_type T" by auto
  then show ?thesis by (simp add: v method_status(1))
qed

theorem doop_status_witness:
  "emu_status (num_div std_host NUM_TYPE_INT STATUS_DEFINED (APInt 32 5) STATUS_DEFINED (APInt 32 0))
     = STATUS_UNDEFINED"
  using doop_status [where H = std_host and op = OpDiv and T = NUM_TYPE_INT and ?r1.0 = 0 and ?r2.0 = 0
      and ?s1.0 = STATUS_DEFINED and ?s2.0 = STATUS_DEFINED and x = "APInt 32 5" and y = "APInt 32 0"]
  by (simp add: num_doop_num std_host_def)

text \<open>C29: A binary operation on two numbers fails exactly when their types differ or are
  both plain \<open>char\<close>, and always with the error of an unknown cast: the unchecked casts to
  \<open>EmuNumGeneric\<close> are safe on numbers.\<close>

theorem doop_error:
  "num_doop H op (EmuNum s1 T1 x r1) (EmuNum s2 T2 y r2) = Inl e \<longleftrightarrow>
     e = CantCast \<and> (T1 \<noteq> T2 \<or> T1 = NUM_TYPE_CHAR)"
  by (auto simp: num_doop_num)

theorem doop_error_witness:
  "num_doop std_host OpAdd (num_of_apint NUM_TYPE_CHAR (APInt 8 1)) (num_of_apint NUM_TYPE_CHAR (APInt 8 2))
     = Inl CantCast"
  unfolding num_of_apint_def doop_error by simp

lemma num_wrap_small:
  "0 \<le> i \<Longrightarrow> i < 2 \<Longrightarrow> num_wrap T i = i"
  by (cases T) (simp_all add: num_wrap_def signed_take_bit_int_eq_self take_bit_int_eq_self)

lemma minus_of_nat_u64: "take_bit (bits_in_num_type T) (uint (- (of_nat n :: u64)))
    = take_bit (bits_in_num_type T) (- int n)"
proof -
  have "- (of_nat n :: u64) = word_of_int (- int n)" by simp
  then have "uint (- (of_nat n :: u64)) = take_bit 64 (- int n)"
    by (simp only: uint_word_of_int_eq) simp
  then show ?thesis by (cases T) simp_all
qed

lemma unary_result:
  assumes "llvm_host H" and "ap_fits T x"
  shows "(\<exists>z. num_neg H T STATUS_DEFINED x = num_of_apint T z \<and> ap_fits T z \<and>
        num_value T z = num_wrap T (- num_value T x))
    \<and> (\<exists>z. num_lnot H T STATUS_DEFINED x = num_of_apint T z \<and> ap_fits T z \<and>
        num_value T z = (if num_value T x = 0 then 1 else 0))
    \<and> (\<forall>s. emu_status (num_neg H T s x) = s \<and> emu_status (num_lnot H T s x) = s)"
proof (intro conjI)
  have wf: "ap_wf x" using assms(2) by (simp add: ap_fits_def)
  let ?n = "uint (- (of_nat (ap_val x) :: u64))"
  have "num_wrap T ?n = num_wrap T (- num_value T x)"
  proof (rule num_wrap_cong)
    have "take_bit (bits_in_num_type T) (- num_value T x)
        = take_bit (bits_in_num_type T) (- take_bit (bits_in_num_type T) (num_value T x))"
      by (simp add: take_bit_minus)
    then show "take_bit (bits_in_num_type T) ?n = take_bit (bits_in_num_type T) (- num_value T x)"
      by (simp add: minus_of_nat_u64 take_bit_num_value [OF assms(2)])
  qed
  then show "\<exists>z. num_neg H T STATUS_DEFINED x = num_of_apint T z \<and> ap_fits T z \<and>
        num_value T z = num_wrap T (- num_value T x)"
    using llvm_host.get_limited [OF assms(1) wf] llvm_host.new [OF assms(1)]
    by (intro num_result [of _ _ ?n]) (simp_all add: num_neg_def)
  show "\<exists>z. num_lnot H T STATUS_DEFINED x = num_of_apint T z \<and> ap_fits T z \<and>
        num_value T z = (if num_value T x = 0 then 1 else 0)"
    using llvm_host.is_zero [OF assms(1) wf] llvm_host.new [OF assms(1)]
    by (intro num_result [of _ _ "if num_value T x = 0 then 1 else 0"])
      (auto simp: num_lnot_def num_value_zero [OF assms(2)] num_wrap_small)
  show "\<forall>s. emu_status (num_neg H T s x) = s \<and> emu_status (num_lnot H T s x) = s"
  proof
    fix s show "emu_status (num_neg H T s x) = s \<and> emu_status (num_lnot H T s x) = s"
      by (cases s) (simp_all add: num_neg_def num_lnot_def)
  qed
qed

text \<open>C30: Logical negation and unary minus of a defined number compute what C says, wrapped
  to the type; an undefined or uninitialized operand keeps its status.\<close>

theorem unary_value:
  assumes "llvm_host H" and "ap_fits T x"
  shows "(\<exists>z. num_neg H T STATUS_DEFINED x = num_of_apint T z \<and> ap_fits T z \<and>
        num_value T z = num_wrap T (- num_value T x))
    \<and> (\<exists>z. num_lnot H T STATUS_DEFINED x = num_of_apint T z \<and> ap_fits T z \<and>
        num_value T z = (if num_value T x = 0 then 1 else 0))
    \<and> (\<forall>s. emu_status (num_neg H T s x) = s \<and> emu_status (num_lnot H T s x) = s)"
  by (rule unary_result [OF assms])

theorem unary_value_witness:
  "\<exists>z. num_neg std_host NUM_TYPE_CHAR STATUS_DEFINED (APInt 8 5) = num_of_apint NUM_TYPE_CHAR z \<and>
     num_value NUM_TYPE_CHAR z = num_wrap NUM_TYPE_CHAR (- num_value NUM_TYPE_CHAR (APInt 8 5))"
  using unary_value [OF std.llvm_host_axioms, of NUM_TYPE_CHAR "APInt 8 5"]
  by (auto simp: ap_fits_def ap_wf_def)

lemma cast_fits:
  assumes "llvm_host H" and "ap_fits T x" and "getNumType q = Inr t"
    and "is_num_type_signed T \<longrightarrow> is_num_type_signed t"
  obtains z where "num_cast_to H T x q = Inr (num_of_apint t z)" and "ap_fits t z"
    and "num_value t z = num_wrap t (int (ap_val x))"
  using llvm_host.cast_value [OF assms(1-3)] assms(4) by blast

lemma val_lt: "ap_fits T x \<Longrightarrow> int (ap_val x) < 2 ^ bits_in_num_type T"
  by (auto simp: ap_fits_def ap_wf_def)

lemma num_value_range:
  assumes "ap_fits T x"
  shows "- (2 ^ bits_in_num_type T) \<le> num_value T x" and "num_value T x < 2 ^ bits_in_num_type T"
proof -
  obtain k where k: "bits_in_num_type T = Suc k" by (cases T) auto
  have "- (2 ^ k) \<le> ap_sint x" "ap_sint x < 2 ^ k"
    using assms by (simp_all add: ap_sint_def ap_fits_def k
        signed_take_bit_int_greater_eq_minus_exp signed_take_bit_int_less_exp)
  moreover have "(2::int) ^ k > 0" by simp
  ultimately show "- (2 ^ bits_in_num_type T) \<le> num_value T x"
    and "num_value T x < 2 ^ bits_in_num_type T"
    using val_lt [OF assms] unfolding num_value_def k power_Suc by (auto split: if_splits)
qed

lemma num_value_val:
  assumes "ap_fits T x"
  shows "int (ap_val x) =
    (if num_value T x < 0 then num_value T x + 2 ^ bits_in_num_type T else num_value T x)"
proof -
  let ?m = "2 ^ bits_in_num_type T :: int"
  have "int (ap_val x) = num_value T x mod ?m"
    using take_bit_num_value [OF assms] by (simp add: take_bit_eq_mod)
  moreover have "num_value T x mod ?m = num_value T x + ?m" if "num_value T x < 0"
  proof -
    have "num_value T x mod ?m = (num_value T x + ?m) mod ?m" by simp
    also have "\<dots> = num_value T x + ?m"
      using num_value_range [OF assms] that by (intro mod_pos_pos_trivial) auto
    finally show ?thesis .
  qed
  moreover have "num_value T x mod ?m = num_value T x" if "\<not> num_value T x < 0"
    using num_value_range [OF assms] that by (intro mod_pos_pos_trivial) auto
  ultimately show ?thesis by simp
qed

lemma num_wrap_id:
  "is_num_type_signed t \<Longrightarrow> - (2 ^ (bits_in_num_type t - 1)) \<le> i \<Longrightarrow>
   i < 2 ^ (bits_in_num_type t - 1) \<Longrightarrow> num_wrap t i = i"
  by (simp add: num_wrap_def signed_take_bit_int_eq_self)

text \<open>The number an integral cast gives, for a target that can hold the negative ones.\<close>

lemma cast_value_cases:
  assumes "llvm_host H" and "ap_fits T x" and "getNumType q = Inr t"
    and "is_num_type_signed T \<longrightarrow> is_num_type_signed t"
  shows "\<exists>z. emu_cast_to H (EmuNum s T x r) q = Inr (num_of_apint t z) \<and> ap_fits t z \<and>
      num_value t z =
        (if num_value T x < 0 \<and> bits_in_num_type T < bits_in_num_type t
         then num_value T x + 2 ^ bits_in_num_type T else num_wrap t (num_value T x))"
proof -
  obtain z where c: "num_cast_to H T x q = Inr (num_of_apint t z)" and f: "ap_fits t z"
    and z: "num_value t z = num_wrap t (int (ap_val x))" by (rule cast_fits [OF assms])
  let ?v = "num_value T x" and ?w = "bits_in_num_type T" and ?u = "bits_in_num_type t"
  have "num_wrap t (int (ap_val x)) = (if ?v < 0 \<and> ?w < ?u then ?v + 2 ^ ?w else num_wrap t ?v)"
  proof (cases "?v < 0 \<and> ?w < ?u")
    case True
    then have s: "is_num_type_signed T" by (auto simp: num_value_def split: if_splits)
    have "int (ap_val x) = ?v + 2 ^ ?w" using num_value_val [OF assms(2)] True by simp
    moreover have "num_wrap t (int (ap_val x)) = int (ap_val x)"
    proof (rule num_wrap_id)
      have "(2::int) ^ ?w \<le> 2 ^ (?u - 1)" using True by (intro power_increasing) auto
      with val_lt [OF assms(2)] show "int (ap_val x) < 2 ^ (?u - 1)" by linarith
      have "- (2 ^ (?u - 1)) \<le> (0::int)" by simp
      then show "- (2 ^ (?u - 1)) \<le> int (ap_val x)" by linarith
    qed (use assms(4) s in simp)
    ultimately show ?thesis using True by simp
  next
    case False
    show ?thesis
    proof (cases "?v < 0")
      case True
      with False have "?u \<le> ?w" by simp
      then have "take_bit ?u (int (ap_val x)) = take_bit ?u ?v"
        using take_bit_num_value [OF assms(2)] take_bit_take_bit [of ?u ?w ?v]
        by (simp add: min_def)
      then have "num_wrap t (int (ap_val x)) = num_wrap t ?v" by (rule num_wrap_cong)
      with \<open>?u \<le> ?w\<close> show ?thesis by simp
    next
      case False
      then have "int (ap_val x) = ?v" using num_value_val [OF assms(2)] by simp
      with False show ?thesis by simp
    qed
  qed
  with c f z show ?thesis by auto
qed

text \<open>What C says (6.3.1.2, 6.3.1.3): a cast to \<open>_Bool\<close> compares with 0, others wrap.\<close>

definition c_cast :: "num_type_t \<Rightarrow> int \<Rightarrow> int" where
  "c_cast t v = (if t = NUM_TYPE_BOOL then (if v = 0 then 0 else 1) else num_wrap t v)"

lemma c_cast_agrees:
  assumes "ap_fits T x" and "is_num_type_signed T \<longrightarrow> is_num_type_signed t"
  shows "(if num_value T x < 0 \<and> bits_in_num_type T < bits_in_num_type t
      then num_value T x + 2 ^ bits_in_num_type T else num_wrap t (num_value T x)) = c_cast t (num_value T x)
    \<longleftrightarrow> \<not> (num_value T x < 0 \<and> bits_in_num_type T < bits_in_num_type t) \<and>
      \<not> (t = NUM_TYPE_BOOL \<and> num_value T x \<noteq> 0 \<and> even (num_value T x))"
proof (cases "num_value T x < 0 \<and> bits_in_num_type T < bits_in_num_type t")
  case True
  then have s: "is_num_type_signed t" using assms(2) by (auto simp: num_value_def split: if_splits)
  have "(2::int) ^ bits_in_num_type T \<le> 2 ^ (bits_in_num_type t - 1)"
    using True by (intro power_increasing) auto
  then have "- (2 ^ (bits_in_num_type t - 1)) \<le> num_value T x" "num_value T x < 2 ^ (bits_in_num_type t - 1)"
    using num_value_range [OF assms(1)] by linarith+
  then have "num_wrap t (num_value T x) = num_value T x" by (rule num_wrap_id [OF s])
  with True s show ?thesis by (auto simp: c_cast_def)
next
  case False
  have "num_wrap t v = c_cast t v \<longleftrightarrow> \<not> (t = NUM_TYPE_BOOL \<and> v \<noteq> 0 \<and> even v)" for v
    by (cases "t = NUM_TYPE_BOOL") (auto simp: c_cast_def num_wrap_def take_bit_Suc_0 odd_iff_mod_2_eq_one)
  with False show ?thesis unfolding if_not_P [OF False] by blast
qed

text \<open>C31: An integral cast of a number, of any status, that fits its type to a type of numbers. From a signed to an unsigned type the
  result is the undefined number of that type. In every other case it is a defined number of
  the target type: the source value wrapped to it, or, when the value is negative and the
  target wider, the value plus two to the width of the source type (the sign is not
  extended). This is the number C gives in exactly the cases in which the value is not
  negative or the target not wider, and the target is not \<open>_Bool\<close> with an even value other
  than 0, which C makes 1 and the cast makes 0.\<close>

theorem cast_number:
  assumes "llvm_host H" and "ap_fits T x" and "getNumType q = Inr t"
  shows "if is_num_type_signed T \<and> \<not> is_num_type_signed t
    then emu_cast_to H (EmuNum s T x r) q = Inr (num_of_status H t STATUS_UNDEFINED)
    else \<exists>z. emu_cast_to H (EmuNum s T x r) q = Inr (num_of_apint t z) \<and> ap_fits t z \<and>
      num_value t z =
        (if num_value T x < 0 \<and> bits_in_num_type T < bits_in_num_type t
         then num_value T x + 2 ^ bits_in_num_type T else num_wrap t (num_value T x)) \<and>
      (num_value t z = c_cast t (num_value T x) \<longleftrightarrow>
        \<not> (num_value T x < 0 \<and> bits_in_num_type T < bits_in_num_type t) \<and>
        \<not> (t = NUM_TYPE_BOOL \<and> num_value T x \<noteq> 0 \<and> even (num_value T x)))"
proof (cases "is_num_type_signed T \<and> \<not> is_num_type_signed t")
  case True
  with assms(3) show ?thesis by (simp add: num_cast_to_def res_bind_def)
next
  case False
  then have sg: "is_num_type_signed T \<longrightarrow> is_num_type_signed t" by blast
  from cast_value_cases [OF assms sg, of s r] obtain z
    where "emu_cast_to H (EmuNum s T x r) q = Inr (num_of_apint t z)" and "ap_fits t z"
      and z: "num_value t z = (if num_value T x < 0 \<and> bits_in_num_type T < bits_in_num_type t
        then num_value T x + 2 ^ bits_in_num_type T else num_wrap t (num_value T x))" by blast
  moreover note c_cast_agrees [OF assms(2) sg, folded z]
  ultimately show ?thesis unfolding if_not_P [OF False] by blast
qed

theorem cast_number_witness:
  "\<exists>z. emu_cast_to std_host (EmuNum STATUS_DEFINED NUM_TYPE_CHAR (APInt 8 255) 0) IntType
      = Inr (num_of_apint NUM_TYPE_INT z) \<and> num_value NUM_TYPE_INT z = 255"
  using cast_number [OF std.llvm_host_axioms, of NUM_TYPE_CHAR "APInt 8 255" IntType NUM_TYPE_INT
      STATUS_DEFINED 0]
  by (auto simp: ap_fits_def ap_wf_def num_value_def ap_sint_def
      signed_take_bit_eq_take_bit_shift take_bit_eq_mod)

text \<open>C33: The function \<open>cast_to\<close> of the casting subsystem rejects every value that is not
  defined, of every class, and otherwise is the method; on a structure it returns one with
  defined status, of the same type and number of members.\<close>

theorem checked_cast:
  "(emu_status v \<noteq> STATUS_DEFINED \<longrightarrow>
      checked_cast_to H v q = Inl (ErrExit ''Attempted to cast invalid value''))
   \<and> (checked_cast_to H v q = Inr w \<longrightarrow>
      emu_status v = STATUS_DEFINED \<and> emu_cast_to H v q = Inr w)
   \<and> (\<forall>s p r ms. v = EmuStruct s p r ms \<longrightarrow> checked_cast_to H v q = Inr w \<longrightarrow>
      (\<exists>ws. w = struct_of STATUS_DEFINED q ws \<and> length ws = length ms \<and> q = p))"
proof -
  have len: "length ws = length ms" if "cast_members H ms = Inr ws" for ms ws
    using that by (induction ms arbitrary: ws) (auto elim!: res_bind_InrE)
  have "\<exists>ws. w = struct_of STATUS_DEFINED q ws \<and> length ws = length ms \<and> q = p"
    if "checked_cast_to H (EmuStruct s p r ms) q = Inr w" for s p r ms
    using that by (auto simp: checked_cast_to_def elim!: res_bind_InrE split: if_splits dest: len)
  then show ?thesis by (auto simp: checked_cast_to_def split: if_splits)
qed

theorem checked_cast_witness:
  "checked_cast_to std_host (EmuNum STATUS_UNINITIALIZED NUM_TYPE_INT (APInt 32 9) 0) IntType
     = Inl (ErrExit ''Attempted to cast invalid value'')"
  using checked_cast [of "EmuNum STATUS_UNINITIALIZED NUM_TYPE_INT (APInt 32 9) 0" std_host IntType EmuVoid]
  by simp

end
