(* ===== verification/RbTree.thy ===== *)
theory RbTree
  imports Host
begin

text \<open>
  The red-black tree of \<open>rbtree.h\<close> and \<open>rbtree.cpp\<close>, as a program over an explicit store
  of nodes: an \<open>rbnode*\<close> is \<open>None\<close> (null) or the address of a cell, \<open>delete\<close> removes
  the cell, and every access through a null or dangling pointer is undefined behaviour of
  the host. The contents of a node's \<open>col\<close> before its first assignment come from the host
  parameter. Loops over child pointers carry fuel, the number of addresses ever allocated;
  \<open>RbTreeProps\<close> shows that this is enough on a tree-shaped store.
\<close>

section \<open>Nodes and the store\<close>

record 'v rbnode =
  nvalue :: 'v
  col :: bool
  child0 :: "nat option"
  child1 :: "nat option"
  parent :: "nat option"

record 'v rbtree =
  head :: "nat option"
  cells :: "nat \<Rightarrow> 'v rbnode option"
  next_addr :: nat

definition rbtree_empty :: "'v rbtree" where
  "rbtree_empty = \<lparr>head = None, cells = (\<lambda>_. None), next_addr = 0\<rparr>"

definition child :: "bool \<Rightarrow> 'v rbnode \<Rightarrow> nat option" where
  "child b nd = (if b then child1 nd else child0 nd)"

fun deref :: "nat option \<Rightarrow> ('v rbtree, 'v rbnode) sm" where
  "deref None = fail (HostUB ''null rbnode'')"
| "deref (Some a) = bindM (gets (\<lambda>t. cells t a))
     (\<lambda>c. case c of None \<Rightarrow> fail (HostUB ''dangling rbnode'') | Some nd \<Rightarrow> ret nd)"

definition upd_node :: "nat option \<Rightarrow> ('v rbnode \<Rightarrow> 'v rbnode) \<Rightarrow> ('v rbtree, unit) sm" where
  "upd_node p f = bindM (deref p) (\<lambda>nd. case p of
       None \<Rightarrow> ret ()
     | Some a \<Rightarrow> modifyM (\<lambda>t. t\<lparr>cells := (cells t)(a := Some (f nd))\<rparr>))"

definition set_col :: "nat option \<Rightarrow> bool \<Rightarrow> ('v rbtree, unit) sm" where
  "set_col p c = upd_node p (\<lambda>nd. nd\<lparr>col := c\<rparr>)"

definition set_child :: "nat option \<Rightarrow> bool \<Rightarrow> nat option \<Rightarrow> ('v rbtree, unit) sm" where
  "set_child p b q = upd_node p (\<lambda>nd. if b then nd\<lparr>child1 := q\<rparr> else nd\<lparr>child0 := q\<rparr>)"

definition set_head :: "nat option \<Rightarrow> ('v rbtree, unit) sm" where
  "set_head p = modifyM (\<lambda>t. t\<lparr>head := p\<rparr>)"

text \<open>\<open>q != nullptr && q->col\<close>\<close>

definition is_red :: "nat option \<Rightarrow> ('v rbtree, bool) sm" where
  "is_red q = (if q = None then ret False else bindM (deref q) (\<lambda>nd. ret (col nd)))"

text \<open>The constructor \<open>rbnode(T v)\<close>: children and parent null, \<open>col\<close> not set.\<close>

definition new_rbnode :: "host \<Rightarrow> 'v \<Rightarrow> ('v rbtree, nat option) sm" where
  "new_rbnode H v = bindM (gets next_addr) (\<lambda>a.
     bindM (modifyM (\<lambda>t. t\<lparr>next_addr := Suc a,
       cells := (cells t)(a := Some \<lparr>nvalue = v, col = fresh_col H a,
         child0 = None, child1 = None, parent = None\<rparr>)\<rparr>))
     (\<lambda>_. ret (Some a)))"

definition delete_rbnode :: "nat option \<Rightarrow> ('v rbtree, unit) sm" where
  "delete_rbnode p = (case p of None \<Rightarrow> ret ()
     | Some a \<Rightarrow> bindM (deref p) (\<lambda>_. modifyM (\<lambda>t. t\<lparr>cells := (cells t)(a := None)\<rparr>)))"

section \<open>rb_insert\<close>

text \<open>
  The \<open>do\<close> loop down the tree: the grandparent, the parent and the side of the new node.
\<close>

fun insert_walk :: "('v \<Rightarrow> nat) \<Rightarrow> nat \<Rightarrow> nat \<Rightarrow> nat option \<Rightarrow> nat option
    \<Rightarrow> ('v rbtree, nat option \<times> nat option \<times> bool) sm" where
  "insert_walk sv 0 k par cur = fail OutOfFuel"
| "insert_walk sv (Suc n) k par cur =
     bindM (deref cur) (\<lambda>c.
       let right = sv (nvalue c) < k; nxt = child right c in
       if nxt = None then ret (par, cur, right)
       else insert_walk sv n k cur nxt)"

text \<open>
  The recolouring loop. \<open>None\<close>: the function returns; \<open>Some\<close>: the loop is left with
  \<open>curr\<close>, \<open>parent\<close>, \<open>grandparent\<close> and \<open>parentright\<close>.
\<close>

fun recolour :: "nat \<Rightarrow> nat option \<Rightarrow> nat option \<Rightarrow> nat option
    \<Rightarrow> ('v rbtree, (nat option \<times> nat option \<times> nat option \<times> bool) option) sm" where
  "recolour 0 par uncle gp = fail OutOfFuel"
| "recolour (Suc n) par uncle gp =
     seqM (set_col par False) (seqM (set_col uncle False)
     (bindM (deref gp) (\<lambda>g.
       let cur = gp; par' = parent g in
       if par' = None then ret None
       else bindM (deref par') (\<lambda>p.
         if \<not> col p then seqM (set_col cur True) (ret None)
         else bindM (deref (parent p)) (\<lambda>g'.
           let parentright = (child1 g' = par');
               uncle' = child (\<not> parentright) g' in
           bindM (is_red uncle') (\<lambda>r.
             if r then recolour n par' uncle' (parent p)
             else ret (Some (cur, par', parent p, parentright))))))))"

text \<open>The rotation at the end of \<open>insert\<close>.\<close>

definition rotate :: "nat option \<Rightarrow> nat option \<Rightarrow> nat option \<Rightarrow> bool \<Rightarrow> ('v rbtree, unit) sm" where
  "rotate cur par gp parentright =
     bindM (deref par) (\<lambda>p. bindM (deref gp) (\<lambda>g.
     let right = (child1 p = cur); ggp = parent g in
     bindM (if ggp = None then ret False else bindM (deref ggp) (\<lambda>gg. ret (child1 gg = gp)))
     (\<lambda>gpright.
     bindM
       (if right \<noteq> parentright
        then bindM (deref cur) (\<lambda>c.
          seqM (set_child par right (child (\<not> right) c))
          (bindM (deref cur) (\<lambda>c.
          seqM (set_child gp parentright (child right c))
          (seqM (set_child cur parentright par)
          (seqM (set_child cur (\<not> parentright) gp)
          (seqM (set_col cur False) (ret cur)))))))
        else
          seqM (set_child gp parentright (child (\<not> right) p))
          (seqM (set_child par (\<not> right) gp)
          (seqM (set_col par False) (ret par))))
     (\<lambda>cur'.
     seqM (set_col gp True)
       (if ggp = None then set_head cur' else set_child ggp gpright cur')))))"

definition rb_insert :: "host \<Rightarrow> ('v \<Rightarrow> nat) \<Rightarrow> 'v \<Rightarrow> ('v rbtree, nat option) sm" where
  "rb_insert H sv obj =
     bindM (gets (\<lambda>t. (head t, next_addr t))) (\<lambda>(h, n).
     if h = None
     then bindM (new_rbnode H obj) (\<lambda>cur.
       seqM (set_col cur False) (seqM (set_head cur) (ret cur)))
     else
       bindM (insert_walk sv n (sv obj) None h) (\<lambda>(gp, par, right).
       bindM (new_rbnode H obj) (\<lambda>cur.
       seqM (set_child par right cur)
       (bindM (deref par) (\<lambda>p.
       if \<not> col p
       then seqM (set_col cur True) (seqM (set_child par right cur) (ret cur))
       else
         bindM (deref gp) (\<lambda>g.
         let parentright = (child1 g = par); uncle = child (\<not> parentright) g in
         bindM (is_red uncle) (\<lambda>r.
         bindM
           (if r then seqM (set_col cur True) (seqM (set_child par right cur)
                (recolour (Suc n) par uncle gp))
            else ret (Some (cur, par, gp, parentright)))
         (\<lambda>st. case st of
            None \<Rightarrow> ret cur
          | Some (c, pr, g', prr) \<Rightarrow> seqM (rotate c pr g' prr) (ret cur)))))))))"

section \<open>findBelow and findAbove\<close>

fun below_loop :: "('v \<Rightarrow> nat) \<Rightarrow> nat \<Rightarrow> int \<Rightarrow> nat option \<Rightarrow> nat option
    \<Rightarrow> ('v rbtree, nat option) sm" where
  "below_loop sv 0 v cur best = fail OutOfFuel"
| "below_loop sv (Suc n) v cur best =
     (if cur = None then ret best
      else bindM (deref cur) (\<lambda>c.
        let comp = size_to_int (sv (nvalue c)) in
        if v = comp then ret cur
        else if v > comp then below_loop sv n v (child1 c) cur
        else below_loop sv n v (child0 c) best))"

definition findBelow :: "('v \<Rightarrow> nat) \<Rightarrow> int \<Rightarrow> ('v rbtree, nat option) sm" where
  "findBelow sv v = bindM (gets (\<lambda>t. (head t, next_addr t)))
     (\<lambda>(h, n). below_loop sv (Suc n) v h None)"

fun above_loop :: "('v \<Rightarrow> nat) \<Rightarrow> nat \<Rightarrow> int \<Rightarrow> nat option \<Rightarrow> nat option
    \<Rightarrow> ('v rbtree, nat option) sm" where
  "above_loop sv 0 v cur best = fail OutOfFuel"
| "above_loop sv (Suc n) v cur best =
     (if cur = None then ret best
      else bindM (deref cur) (\<lambda>c.
        let comp = size_to_int (sv (nvalue c)) in
        if v = comp then ret cur
        else if v < comp then above_loop sv n v (child0 c) cur
        else above_loop sv n v (child1 c) best))"

definition findAbove :: "('v \<Rightarrow> nat) \<Rightarrow> int \<Rightarrow> ('v rbtree, nat option) sm" where
  "findAbove sv v = bindM (gets (\<lambda>t. (head t, next_addr t)))
     (\<lambda>(h, n). above_loop sv (Suc n) v h None)"

section \<open>remove\<close>

text \<open>Relinking the child of \<open>gp\<close> that was \<open>par\<close>, or the head.\<close>

definition relink :: "nat option \<Rightarrow> nat option \<Rightarrow> nat option \<Rightarrow> ('v rbtree, unit) sm" where
  "relink gp par q =
     (if gp = None then set_head q
      else bindM (deref gp) (\<lambda>g.
        if child0 g = par then set_child gp False q else set_child gp True q))"

text \<open>
  \<open>balance_blacks\<close>. The local variable \<open>parent\<close> becomes \<open>gp\<close> in the branch of a red
  sibling, as in the source.
\<close>

fun balance_blacks :: "nat \<Rightarrow> nat option \<Rightarrow> nat option \<Rightarrow> ('v rbtree, unit) sm" where
  "balance_blacks 0 node ch = fail OutOfFuel"
| "balance_blacks (Suc n) node ch =
     bindM (deref node) (\<lambda>nd.
     if col nd then ret ()
     else bindM (deref ch) (\<lambda>c.
     if col c then set_col ch False
     else
       let par0 = parent nd in
       if par0 = None then ret ()
       else bindM (deref par0) (\<lambda>p0.
       let sright = (child0 p0 = node);
           sib0 = (if sright then child1 p0 else child0 p0) in
       bindM (deref sib0) (\<lambda>s0.
       let b = col s0 in
       bindM
         (if b then
            seqM (set_col par0 True) (seqM (set_col sib0 False)
            (bindM (deref sib0) (\<lambda>s.
              let newsib = child (\<not> sright) s in
              seqM (set_child par0 sright newsib)
              (seqM (set_child sib0 (\<not> sright) par0)
              (bindM (deref par0) (\<lambda>p.
                let gp = parent p in
                seqM (relink gp par0 sib0) (ret (gp, newsib))))))))
          else ret (par0, sib0))
       (\<lambda>(par, sib).
       bindM (deref sib) (\<lambda>s.
       let sl = child (\<not> sright) s; sr = child sright s in
       bindM (deref par) (\<lambda>p.
       let pcol = col p in
       bindM (is_red sl) (\<lambda>lcol.
       bindM (is_red sr) (\<lambda>rcol.
       if \<not> b \<and> \<not> pcol \<and> \<not> lcol \<and> \<not> rcol
       then seqM (set_col sib True) (balance_blacks n par node)
       else if pcol \<and> \<not> lcol \<and> \<not> rcol
       then seqM (set_col sib True) (set_col par False)
       else
         bindM
           (if \<not> rcol then
              bindM (deref sl) (\<lambda>l.
                seqM (set_child sib (\<not> sright) (child sright l))
                (seqM (set_child par sright sl)
                (seqM (set_child sl sright sib)
                (seqM (set_col sib True)
                (seqM (set_col sl False)
                (bindM (deref sl) (\<lambda>l'. ret (sib, sl, child (\<not> sright) l'))))))))
            else ret (sr, sib, sl))
         (\<lambda>(sr', sib', sl').
           seqM (set_col sib' pcol) (seqM (set_col par False) (seqM (set_col sr' False)
           (seqM (set_child par sright sl')
           (bindM (deref par) (\<lambda>p'. relink (parent p') par sib')))))))))))))))"

text \<open>The leftmost node below \<open>ch2\<close>.\<close>

fun min_walk :: "nat \<Rightarrow> nat option \<Rightarrow> ('v rbtree, nat option) sm" where
  "min_walk 0 ch2 = fail OutOfFuel"
| "min_walk (Suc n) ch2 =
     bindM (deref ch2) (\<lambda>c. if child0 c = None then ret ch2 else min_walk n (child0 c))"

definition rb_remove :: "nat option \<Rightarrow> ('v rbtree, unit) sm" where
  "rb_remove node =
     bindM (gets next_addr) (\<lambda>n.
     bindM (deref node) (\<lambda>nd.
     bindM
       (if child0 nd \<noteq> None then
          (if child1 nd = None then fail (HostUB ''uninitialized pointer in remove'')
           else bindM (min_walk n (child1 nd)) (\<lambda>par.
             bindM (deref par) (\<lambda>p.
             seqM (upd_node node (\<lambda>x. x\<lparr>nvalue := nvalue p\<rparr>))
             (bindM (deref par) (\<lambda>p'. ret (par, child1 p'))))))
        else ret (node, child1 nd))
     (\<lambda>(node', ch).
       seqM (balance_blacks (Suc n) node' ch) (delete_rbnode node'))))"

end
