(* ===== verification/MemTags.thy ===== *)
theory MemTags
  imports Arith RbTree
begin

text \<open>
  The tags of a memory block (\<open>mem_tag\<close> in \<open>mem.h\<close>, \<open>deal_with_end\<close> and
  \<open>update_tag_write\<close> in \<open>mem.cpp\<close>): for every run of objects of one type the offset, the
  size and the number of objects, in a red-black tree ordered by offset and a doubly linked
  list through \<open>prev\<close> and \<open>next\<close>. The list's first element, the field \<open>firsttag\<close> of the
  block, is passed to and returned by \<open>update_tag_write\<close>.
\<close>

section \<open>Tags\<close>

record mem_tag =
  toffset :: nat
  ttype :: qtype
  tprev :: "nat option"
  tnext :: "nat option"
  typesize :: nat
  tcount :: nat

definition mem_tag_new :: "host \<Rightarrow> nat \<Rightarrow> nat \<Rightarrow> nat option \<Rightarrow> qtype \<Rightarrow> mem_tag" where
  "mem_tag_new H off s p t =
     (if t = RawType
      then \<lparr>toffset = off, ttype = t, tprev = p, tnext = fresh_next H, typesize = 1, tcount = s\<rparr>
      else \<lparr>toffset = off, ttype = t, tprev = p, tnext = fresh_next H, typesize = s, tcount = 1\<rparr>)"

definition sortval :: "mem_tag \<Rightarrow> nat" where
  "sortval t = toffset t"

type_synonym tag_tree = "mem_tag rbtree"

definition upd_tag :: "nat option \<Rightarrow> (mem_tag \<Rightarrow> mem_tag) \<Rightarrow> (tag_tree, unit) sm" where
  "upd_tag p f = upd_node p (\<lambda>nd. nd\<lparr>nvalue := f (nvalue nd)\<rparr>)"

definition get_tag :: "nat option \<Rightarrow> (tag_tree, mem_tag) sm" where
  "get_tag p = bindM (deref p) (\<lambda>nd. ret (nvalue nd))"

definition insert_tag :: "host \<Rightarrow> mem_tag \<Rightarrow> (tag_tree, nat option) sm" where
  "insert_tag H t = rb_insert H sortval t"

section \<open>deal\_with\_end\<close>

text \<open>The repair of a tag that the write cuts: what is left of it starts at \<open>endpos\<close>.\<close>

definition cut_tag :: "host \<Rightarrow> nat option \<Rightarrow> nat option \<Rightarrow> mem_tag \<Rightarrow> nat \<Rightarrow> (tag_tree, unit) sm" where
  "cut_tag H extended affected av endpos =
     (let offset = toffset av; ts = typesize av; count = tcount av in
      if ts = 0 then fail (HostUB ''division by zero'')
      else
        let firstvalid0 = sz (endpos - offset + ts - 1) div ts;
            firstvalid = (if firstvalid0 = 0 then SIZE_MAX div ts else firstvalid0);
            invalidbytes = sz (firstvalid * ts);
            alignbytes = sz_sub (offset + invalidbytes) endpos in
        seqM (upd_tag affected (\<lambda>t. t\<lparr>toffset := endpos\<rparr>))
        (if alignbytes = 0
         then upd_tag affected (\<lambda>t. t\<lparr>tcount := sz_sub count firstvalid\<rparr>)
         else
           let newcount = sz_sub count firstvalid in
           if newcount = 0
           then upd_tag affected
             (\<lambda>t. t\<lparr>ttype := RawType, typesize := 1, tcount := sz (newcount * ts)\<rparr>)
           else bindM (insert_tag H (mem_tag_new H (sz (offset + invalidbytes)) newcount affected RawType))
             (\<lambda>newtag. upd_tag affected
               (\<lambda>t. t\<lparr>ttype := RawType, tprev := extended, tnext := newtag,
                      typesize := 1, tcount := alignbytes\<rparr>))))"

text \<open>
  The loop. A tag that is merged or overwritten is removed from the tree, deleted, and then
  its \<open>next\<close> is read.
\<close>

definition drop_tag :: "nat option \<Rightarrow> (tag_tree, nat option) sm" where
  "drop_tag affected =
     seqM (rb_remove affected) (seqM (delete_rbnode affected)
       (bindM (get_tag affected) (\<lambda>t. ret (tnext t))))"

fun deal_loop :: "host \<Rightarrow> nat \<Rightarrow> nat option \<Rightarrow> nat option \<Rightarrow> nat \<Rightarrow> (tag_tree, nat option) sm" where
  "deal_loop H 0 extended affected endpos = fail OutOfFuel"
| "deal_loop H (Suc n) extended affected endpos =
     (if affected = None then ret None
      else bindM (get_tag affected) (\<lambda>av.
        if toffset av \<ge> endpos
        then bindM (get_tag extended) (\<lambda>ev.
          if toffset av = endpos \<and> ttype ev = ttype av
          then seqM (upd_tag extended (\<lambda>t. t\<lparr>tcount := sz (tcount t + tcount av)\<rparr>))
            (bindM (drop_tag affected) (\<lambda>nxt. deal_loop H n extended nxt endpos))
          else seqM (upd_tag affected (\<lambda>t. t\<lparr>tprev := extended\<rparr>)) (ret affected))
        else if sz (toffset av + typesize av * tcount av) > endpos
        then seqM (cut_tag H extended affected av endpos) (ret affected)
        else bindM (drop_tag affected) (\<lambda>nxt. deal_loop H n extended nxt endpos)))"

definition deal_with_end :: "host \<Rightarrow> nat option \<Rightarrow> nat option \<Rightarrow> nat \<Rightarrow> (tag_tree, unit) sm" where
  "deal_with_end H extended affected endpos =
     bindM (gets next_addr) (\<lambda>n.
     bindM (deal_loop H (Suc n) extended affected endpos) (\<lambda>aff.
       upd_tag extended (\<lambda>t. t\<lparr>tnext := aff\<rparr>)))"

section \<open>update\_tag\_write\<close>

text \<open>
  The part for a write that starts inside the run \<open>start\<close>, whose fields are given as they
  were on entry.
\<close>

definition tag_write_inside :: "host \<Rightarrow> qtype \<Rightarrow> nat \<Rightarrow> nat \<Rightarrow> nat option \<Rightarrow> mem_tag
    \<Rightarrow> (tag_tree, unit) sm" where
  "tag_write_inside H qt len offset start sv =
     (let start_typesize = typesize sv; start_offset = toffset sv;
          start_endpos = sz (start_offset + tcount sv * start_typesize) in
      if start_typesize = 0 then fail (HostUB ''division by zero'')
      else
      let start_lastvalid = sz_sub offset start_offset div start_typesize;
          start_validbytes = start_lastvalid * start_typesize;
          alignbytes = sz_sub offset (start_offset + start_validbytes) in
      if alignbytes = 0 \<and> qt = ttype sv then ret ()
      else if start_offset = offset
      then
        (if start_endpos \<le> sz (offset + len)
         then seqM (upd_tag start (\<lambda>t. t\<lparr>ttype := qt, typesize := len, tcount := 1\<rparr>))
           (bindM (get_tag start) (\<lambda>t. deal_with_end H start (tnext t) (sz (offset + len))))
         else
           bindM (insert_tag H (mem_tag_new H (sz (offset + len)) start_typesize start (ttype sv)))
           (\<lambda>newtag. bindM (get_tag start) (\<lambda>t.
             seqM (upd_tag newtag (\<lambda>u. u\<lparr>tnext := tnext t\<rparr>))
               (upd_tag start (\<lambda>u. u\<lparr>ttype := qt, tnext := newtag, typesize := len, tcount := 1\<rparr>)))))
      else
        seqM (upd_tag start (\<lambda>t. t\<lparr>tcount := start_lastvalid\<rparr>))
        (if alignbytes \<noteq> 0
         then
           bindM (insert_tag H (mem_tag_new H (sz (start_offset + start_validbytes)) alignbytes start RawType))
           (\<lambda>rawtag.
             seqM (upd_tag start (\<lambda>t. t\<lparr>tnext := rawtag\<rparr>))
             (bindM (get_tag start) (\<lambda>t.
              let start_next = tnext t in
              bindM (insert_tag H (mem_tag_new H offset len rawtag qt)) (\<lambda>newtag.
              seqM (upd_tag rawtag (\<lambda>u. u\<lparr>tnext := newtag\<rparr>))
              (seqM (upd_tag newtag (\<lambda>u. u\<lparr>tnext := start_next\<rparr>))
                (deal_with_end H newtag start_next (sz (offset + len))))))))
         else
           bindM (get_tag start) (\<lambda>t.
             let start_next = tnext t in
             bindM (insert_tag H (mem_tag_new H offset len start qt)) (\<lambda>newtag.
             seqM (upd_tag newtag (\<lambda>u. u\<lparr>tnext := start_next\<rparr>))
             (seqM (upd_tag start (\<lambda>u. u\<lparr>tnext := newtag\<rparr>))
               (deal_with_end H newtag start_next (sz (offset + len))))))))"

definition update_tag_write :: "host \<Rightarrow> qtype \<Rightarrow> nat \<Rightarrow> nat \<Rightarrow> nat option
    \<Rightarrow> (tag_tree, nat option) sm" where
  "update_tag_write H qt len offset firsttag =
     bindM (findBelow sortval (size_to_int offset)) (\<lambda>start.
     if start = None then
       bindM (insert_tag H (mem_tag_new H offset len None qt)) (\<lambda>newtag.
       seqM (deal_with_end H newtag firsttag (sz (offset + len))) (ret newtag))
     else bindM (get_tag start) (\<lambda>sv.
       let start_endpos = sz (toffset sv + tcount sv * typesize sv) in
       if offset = start_endpos \<and> qt = ttype sv then
         seqM (upd_tag start (\<lambda>t. t\<lparr>tcount := sz (tcount sv + 1)\<rparr>))
         (bindM (get_tag start) (\<lambda>t.
          seqM (deal_with_end H start (tnext t) (sz (start_endpos + typesize sv))) (ret firsttag)))
       else if offset \<ge> start_endpos then
         bindM (insert_tag H (mem_tag_new H offset len start qt)) (\<lambda>newtag.
         bindM (get_tag start) (\<lambda>t.
         seqM (deal_with_end H newtag (tnext t) (sz (offset + len)))
         (seqM (upd_tag start (\<lambda>u. u\<lparr>tnext := newtag\<rparr>)) (ret firsttag))))
       else seqM (tag_write_inside H qt len offset start sv) (ret firsttag)))"

end
