(* ===== verification/Memory.thy ===== *)
theory Memory
  imports MemTags
begin

text \<open>
  The memory subsystem (\<open>mem.h\<close>, \<open>mem.cpp\<close>): the global state of the interpreter, memory
  blocks with their ids, contents and tags, and the two indexes of the variables on the
  stack. A block is found through \<open>active_mem\<close>, in which the constructor of \<open>mem_block\<close>
  enters it and from which the destructor erases it: a pointer to a block that is not there
  is dangling, and following it is undefined behaviour of the host.
\<close>

section \<open>The state\<close>

record mem_block =
  bid :: u32
  bsize :: nat
  memtype :: mem_type_t
  bdata :: "byte list option"
  firsttag :: "nat option"
  tags :: tag_tree

record lvalue =
  lblock :: blkptr
  loffset :: nat
  ltype :: qtype

definition lvalue_of :: "blkptr \<Rightarrow> qtype \<Rightarrow> nat \<Rightarrow> lvalue" where
  "lvalue_of b t off = \<lparr>lblock = b, loffset = off, ltype = t\<rparr>"

record emu_state =
  id_counter :: u32
  fid_counter :: u32
  active_mem :: "u32 \<Rightarrow> mem_block option"
  stack_var_map :: "string \<Rightarrow> (nat \<times> nat) list option"
  stack_vars :: "(string \<times> lvalue) list list"
  local_vars :: "nat \<Rightarrow> string \<Rightarrow> lvalue option"
  global_vars :: "string \<Rightarrow> nat option"
  global_functions :: "u32 \<Rightarrow> (nat \<times> function_decl) option"
  main_source :: "nat option"
  curr_source :: nat
  static_init :: bool

type_synonym 'a emu = "(emu_state, 'a) sm"

text \<open>The static initializers; \<open>main_source\<close> is \<open>-1\<close>.\<close>

definition NUM_EXTERNAL_FUNCTIONS :: u32 where
  "NUM_EXTERNAL_FUNCTIONS = 3"

definition init_state :: emu_state where
  "init_state = \<lparr>id_counter = BLOCK_ID_START, fid_counter = NUM_EXTERNAL_FUNCTIONS,
     active_mem = (\<lambda>_. None), stack_var_map = (\<lambda>_. None), stack_vars = [],
     local_vars = (\<lambda>_ _. None), global_vars = (\<lambda>_. None), global_functions = (\<lambda>_. None),
     main_source = None, curr_source = 0, static_init = False\<rparr>"

section \<open>Counters\<close>

definition new_block_id :: "u32 emu" where
  "new_block_id = bindM (gets id_counter) (\<lambda>ans.
     if ans = 0 then fail (ErrExit ''Too many allocations'')
     else seqM (modifyM (\<lambda>s. s\<lparr>id_counter := ans + 1\<rparr>)) (ret ans))"

definition new_fid :: "u32 emu" where
  "new_fid = bindM (gets fid_counter) (\<lambda>ans.
     if ans = 0 then fail (ErrExit ''Too many functions'')
     else seqM (modifyM (\<lambda>s. s\<lparr>fid_counter := ans + 1\<rparr>)) (ret ans))"

section \<open>Blocks\<close>

fun get_block :: "blkptr \<Rightarrow> mem_block emu" where
  "get_block NullBlk = fail (HostUB ''null block'')"
| "get_block WildBlk = fail (HostUB ''wild block pointer'')"
| "get_block (BlkPtr i) = bindM (gets (\<lambda>s. active_mem s i))
     (\<lambda>b. case b of None \<Rightarrow> fail (HostUB ''dangling block'') | Some blk \<Rightarrow> ret blk)"

definition put_block :: "mem_block \<Rightarrow> unit emu" where
  "put_block b = modifyM (\<lambda>s. s\<lparr>active_mem := (active_mem s)(bid b := Some b)\<rparr>)"

text \<open>The bytes of a block; gone once \<open>free\<close> has deleted them.\<close>

definition block_data :: "mem_block \<Rightarrow> byte list emu" where
  "block_data b = (case bdata b of None \<Rightarrow> fail (HostUB ''use of deleted block data'')
     | Some d \<Rightarrow> ret d)"

text \<open>
  \<open>new char[s]\<close> throws for a size above the largest \<open>ptrdiff_t\<close> of the host; below that the
  host is taken to have the memory it is asked for.
\<close>

definition PTRDIFF_MAX :: nat where
  "PTRDIFF_MAX = 2 ^ 63 - 1"

definition block_of_size :: "host \<Rightarrow> mem_type_t \<Rightarrow> nat \<Rightarrow> blkptr emu" where
  "block_of_size H t s = bindM new_block_id (\<lambda>i.
     if s > PTRDIFF_MAX then fail BadAlloc
     else seqM (put_block \<lparr>bid = i, bsize = s, memtype = t,
       bdata = Some (map (fresh_byte H i) [0..<s]), firsttag = None, tags = rbtree_empty\<rparr>)
     (ret (BlkPtr i)))"

text \<open>A store of raw bytes into a block's data, past whose end lies the host heap.\<close>

definition store_bytes :: "mem_block \<Rightarrow> nat \<Rightarrow> byte list \<Rightarrow> unit emu" where
  "store_bytes b off bs = bindM (block_data b) (\<lambda>d.
     if off + length bs > length d then fail host_overrun
     else put_block (b\<lparr>bdata := Some (store_at d off bs)\<rparr>))"

definition run_tags :: "(tag_tree, 'a) sm \<Rightarrow> tag_tree \<Rightarrow> ('a \<times> tag_tree) emu" where
  "run_tags m t = lift (m t)"

definition block_write :: "host \<Rightarrow> blkptr \<Rightarrow> emu_val \<Rightarrow> nat \<Rightarrow> unit emu" where
  "block_write H p obj offset = bindM (get_block p) (\<lambda>b.
     let s = bsize b in
     if offset > s then fail BadMemWrite
     else bindM (lift (emu_size obj)) (\<lambda>ts.
       if s - offset < ts then fail BadMemWrite
       else bindM (lift (dump_repr H obj)) (\<lambda>bs.
         seqM (store_bytes b offset bs)
         (bindM (get_block p) (\<lambda>b'.
          bindM (run_tags (update_tag_write H (obj_type H obj) ts offset (firsttag b')) (tags b'))
          (\<lambda>(ft, t'). put_block (b'\<lparr>firsttag := ft, tags := t'\<rparr>)))))))"

definition block_of_value :: "host \<Rightarrow> mem_type_t \<Rightarrow> emu_val \<Rightarrow> blkptr emu" where
  "block_of_value H t obj = bindM (lift (emu_size obj)) (\<lambda>n.
     bindM (block_of_size H t n) (\<lambda>p. seqM (block_write H p obj 0) (ret p)))"

text \<open>
  \<open>free\<close> uses \<open>delete\<close> on an array that \<open>new[]\<close> made, which is undefined behaviour too; it is
  taken to release the bytes, as the allocators of common hosts do.
\<close>

definition block_free :: "blkptr \<Rightarrow> unit emu" where
  "block_free p = bindM (get_block p) (\<lambda>b. bindM (block_data b) (\<lambda>d.
     put_block (b\<lparr>memtype := MEM_TYPE_FREED, bdata := None\<rparr>)))"

text \<open>\<open>delete block\<close>: the destructor; deleting null does nothing.\<close>

definition block_delete :: "blkptr \<Rightarrow> unit emu" where
  "block_delete p = (if p = NullBlk then ret ()
     else bindM (get_block p) (\<lambda>b. bindM (block_data b) (\<lambda>d.
       modifyM (\<lambda>s. s\<lparr>active_mem := (active_mem s)(bid b := None)\<rparr>))))"

section \<open>The stack\<close>

definition add_stack_var :: "string \<Rightarrow> lvalue \<Rightarrow> unit emu" where
  "add_stack_var name loc = bindM (gets stack_vars) (\<lambda>fs.
     if fs = [] then fail (HostUB ''no stack frame'')
     else
       let n = length fs - 1; i = length (last fs) in
       seqM (modifyM (\<lambda>s. s\<lparr>stack_vars := butlast fs @ [last fs @ [(name, loc)]]\<rparr>))
       (modifyM (\<lambda>s. s\<lparr>stack_var_map := (stack_var_map s)(name :=
          (case stack_var_map s name of None \<Rightarrow> Some [(n, i)] | Some l \<Rightarrow> Some (l @ [(n, i)])))\<rparr>)))"

definition add_stack_frame :: "unit emu" where
  "add_stack_frame = modifyM (\<lambda>s. s\<lparr>stack_vars := stack_vars s @ [[]]\<rparr>)"

definition pop_stack_var :: "string \<times> lvalue \<Rightarrow> unit emu" where
  "pop_stack_var it = bindM (gets (\<lambda>s. stack_var_map s (fst it))) (\<lambda>l.
     case l of
       None \<Rightarrow> fail (HostUB ''popped variable is not in stack_var_map'')
     | Some xs \<Rightarrow>
         if xs = [] then fail (HostUB ''pop_back of an empty deque'')
         else seqM (modifyM (\<lambda>s. s\<lparr>stack_var_map := (stack_var_map s)(fst it :=
                (if length xs = 1 then None else Some (butlast xs)))\<rparr>))
           (block_free (lblock (snd it))))"

definition pop_stack_frame :: "unit emu" where
  "pop_stack_frame = bindM (gets stack_vars) (\<lambda>fs.
     if fs = [] then fail (HostUB ''no stack frame'')
     else seqM (modifyM (\<lambda>s. s\<lparr>stack_vars := butlast fs\<rparr>)) (forM (last fs) pop_stack_var))"

text \<open>The frame of a compound statement, a loop, a \<open>switch\<close> or a call: opened, used, popped.\<close>

definition in_frame :: "'a emu \<Rightarrow> 'a emu" where
  "in_frame m = seqM add_stack_frame (bindM m (\<lambda>r. seqM pop_stack_frame (ret r)))"

end
