(* ===== verification/Casts.thy ===== *)
theory Casts
  imports Memory
begin

text \<open>
  The casting subsystem (\<open>cast.cpp\<close>) with the constructor of \<open>EmuStruct\<close> from an lvalue
  (\<open>types.cpp\<close>): sizes of types, zero values, new arrays, and \<open>from_lvalue\<close>, which
  loads a value from memory or, for a null block, makes an uninitialized one. A pointer to
  an \<open>EmuVal\<close> can also be null or the \<open>BREAK_POINTER\<close> of \<open>eval.cpp\<close>; the evaluation of
  the size expression of a variable-length array is the argument \<open>ev\<close>.
\<close>

section \<open>Pointers to values\<close>

datatype evptr = NullVal | BreakPtr | Val emu_val

fun deref_val :: "evptr \<Rightarrow> emu_val emu" where
  "deref_val (Val v) = ret v"
| "deref_val NullVal = fail (HostUB ''null EmuVal'')"
| "deref_val BreakPtr = fail (HostUB ''BREAK_POINTER dereferenced'')"

section \<open>Sizes of types\<close>

fun getSizeOf :: "qtype \<Rightarrow> nat res"
  and struct_size :: "members \<Rightarrow> nat \<Rightarrow> nat res"
  and union_size :: "members \<Rightarrow> nat \<Rightarrow> nat res" where
  "getSizeOf (QBuiltin k) =
     (if builtin_is_integer k
      then res_bind (getNumType (QBuiltin k)) (\<lambda>t. Inr (4 + bytes_in_num_type t))
      else Inl CantCast)"
| "getSizeOf (QPointer t) = Inr EMU_SIZE_PTR"
| "getSizeOf (QConstantArray t n) =
     res_bind (getSizeOf t) (\<lambda>sub. Inr (sz (n * sub + 4)))"
| "getSizeOf (QStruct s m) = struct_size m 4"
| "getSizeOf (QUndefStruct s) = Inr 4"
| "getSizeOf (QUnion s m) = union_size m 0"
| "getSizeOf (QVariableArray t e) = Inl CantCast"
| "getSizeOf (QFunction s) = Inl CantCast"
| "getSizeOf (QUnsupported s) = Inl CantCast"
| "struct_size MNil ans = Inr ans"
| "struct_size (MField t m) ans = res_bind (getSizeOf t) (\<lambda>k. struct_size m (sz (ans + k)))"
| "struct_size (MNonValue m) ans = Inl (HostUB ''cast of a declaration to ValueDecl'')"
| "union_size MNil ans = Inr ans"
| "union_size (MField t m) ans =
     res_bind (getSizeOf t) (\<lambda>temp. union_size m (if temp > ans then temp else ans))"
| "union_size (MNonValue m) ans = Inl (HostUB ''cast of a declaration to ValueDecl'')"

section \<open>Zero values\<close>

text \<open>The record of an \<open>EmuStruct\<close> whose tag is then set to 0.\<close>

definition zero_struct :: "qtype \<Rightarrow> emu_val list \<Rightarrow> emu_val" where
  "zero_struct q ms = EmuStruct STATUS_DEFINED q 0 ms"

fun zero_init :: "host \<Rightarrow> qtype \<Rightarrow> emu_val res"
  and zero_members :: "host \<Rightarrow> members \<Rightarrow> emu_val list res" where
  "zero_init H (QBuiltin k) =
     (if builtin_is_integer k
      then res_bind (getNumType (QBuiltin k)) (\<lambda>t.
        Inr (num_of_apint t (ap_new H (bits_in_num_type t) 0 (is_num_type_signed t))))
      else Inl CantCast)"
| "zero_init H (QPointer t) = Inr (ptr_of_mem_ptr NullBlk 0 (QPointer t))"
| "zero_init H (QConstantArray t n) =
     (if n mod 2 ^ 32 = 0 then Inr (zero_struct (QConstantArray t n) [])
      else res_bind (zero_init H t) (\<lambda>z.
        Inr (zero_struct (QConstantArray t n) (replicate (n mod 2 ^ 32) z))))"
| "zero_init H (QStruct s m) =
     res_bind (zero_members H m) (\<lambda>ms. Inr (zero_struct (QStruct s m) ms))"
| "zero_init H (QUndefStruct s) = Inr (zero_struct (QUndefStruct s) [])"
| "zero_init H (QUnion s m) =
     (case m of
        MField t m' \<Rightarrow> zero_init H t
      | _ \<Rightarrow> Inl (HostUB ''first member of a union''))"
| "zero_init H (QVariableArray t e) = Inl CantCast"
| "zero_init H (QFunction s) = Inl CantCast"
| "zero_init H (QUnsupported s) = Inl CantCast"
| "zero_members H MNil = Inr []"
| "zero_members H (MField t m) =
     res_bind (zero_init H t) (\<lambda>z. res_bind (zero_members H m) (\<lambda>zs. Inr (z # zs)))"
| "zero_members H (MNonValue m) = Inl (HostUB ''cast of a declaration to ValueDecl'')"

section \<open>Arrays\<close>

text \<open>
  \<open>newarr\<close> from the element value on: \<open>num\<close> copies of \<open>sub\<close> in a new block. The loop
  counter runs over the multiples of the element size below the size of the block.
\<close>

definition newarr_fill :: "host \<Rightarrow> qtype \<Rightarrow> emu_val \<Rightarrow> nat \<Rightarrow> emu_val emu" where
  "newarr_fill H arrtype sub num =
     bindM (lift (emu_size sub)) (\<lambda>s.
     if s = 0 then fail (ErrExit ''Tried to create array of zero-size objects'')
     else if num > SIZE_MAX div s then fail (ErrExit ''Array size overflow'')
     else
       bindM (gets static_init) (\<lambda>si.
       bindM (block_of_size H (if si then MEM_TYPE_GLOBAL else MEM_TYPE_STACK) (s * num)) (\<lambda>block.
       seqM (forM (map (\<lambda>i. i * s) [0..<num]) (\<lambda>i. block_write H block sub i))
         (ret (ptr_of_mem_ptr block 0 arrtype)))))"

section \<open>from\_lvalue\<close>

text \<open>The statuses of the members, folded into the one of the structure.\<close>

definition struct_status :: "status_t \<Rightarrow> status_t \<Rightarrow> status_t" where
  "struct_status temp s =
     (if s \<noteq> temp
      then if s = STATUS_UNDEFINED then s
           else if temp \<noteq> STATUS_UNDEFINED \<and> s \<noteq> STATUS_DEFINED then s
           else temp
      else temp)"

definition struct_tag_status :: "u32 \<Rightarrow> status_t" where
  "struct_tag_status t =
     (if t = or EMU_TYPE_STRUCT_ID EMU_TYPE_UNINIT_MASK then STATUS_UNINITIALIZED
      else if t = EMU_TYPE_STRUCT_ID then STATUS_DEFINED
      else STATUS_UNDEFINED)"

text \<open>
  The first part of \<open>from_lvalue\<close>: the host bytes from the address on, or nothing for a
  null block, and the space the block has left there.
\<close>

definition load_loc :: "lvalue \<Rightarrow> (byte list \<times> nat) option emu" where
  "load_loc l = (if lblock l = NullBlk then ret None
     else bindM (get_block (lblock l)) (\<lambda>b.
       if memtype b = MEM_TYPE_FREED then fail (ErrExit (line ''Tried to load from freed memory''))
       else if loffset l > bsize b then fail (ErrExit (line ''Tried to read from invalid location''))
       else bindM (block_data b) (\<lambda>d.
         ret (Some (drop (loffset l) d, bsize b - loffset l)))))"

text \<open>The status and the tag with which \<open>EmuStruct(lvalue)\<close> starts.\<close>

definition struct_start :: "lvalue \<Rightarrow> (status_t \<times> u32) emu" where
  "struct_start l = (if lblock l = NullBlk
     then ret (STATUS_UNINITIALIZED, or EMU_TYPE_STRUCT_ID EMU_TYPE_UNINIT_MASK)
     else bindM (get_block (lblock l)) (\<lambda>b.
       if sz_sub (bsize b) (loffset l) < 4 then fail (ErrExit ''Tried to read undefined memory'')
       else bindM (block_data b) (\<lambda>d.
         if length d < 4 then fail host_overrun
         else let t = u32_of_bytes d in ret (struct_tag_status t, t))))"

fun count_members :: "members \<Rightarrow> nat" where
  "count_members MNil = 0"
| "count_members (MField t m) = Suc (count_members m)"
| "count_members (MNonValue m) = Suc (count_members m)"

text \<open>
  \<open>known\<close> and \<open>active\<close>, for the constructors of pointers and functions from memory.
\<close>

definition is_active :: "emu_state \<Rightarrow> u32 \<Rightarrow> bool" where
  "is_active s i \<longleftrightarrow> active_mem s i \<noteq> None"

definition is_function :: "emu_state \<Rightarrow> u32 \<Rightarrow> bool" where
  "is_function s i \<longleftrightarrow> global_functions s i \<noteq> None"

definition load_num :: "host \<Rightarrow> num_type_t \<Rightarrow> (byte list \<times> nat) option \<Rightarrow> emu_val emu" where
  "load_num H t loc = (case loc of
     None \<Rightarrow> ret (num_of_status H t STATUS_UNINITIALIZED)
   | Some (bs, space) \<Rightarrow>
       if space < bytes_in_num_type t then fail BadMemRead else lift (num_from_mem H t bs))"

definition load_ptr :: "qtype \<Rightarrow> byte list \<Rightarrow> nat \<Rightarrow> emu_val emu" where
  "load_ptr q bs space =
     (if space < EMU_SIZE_PTR then fail BadMemRead
      else bindM (gets is_active) (\<lambda>act. lift (ptr_from_mem act bs q)))"

definition load_func :: "qtype \<Rightarrow> byte list \<Rightarrow> nat \<Rightarrow> emu_val emu" where
  "load_func q bs space =
     (if space < EMU_SIZE_FUNC then fail BadMemRead
      else bindM (gets is_function) (\<lambda>known. lift (func_from_mem known bs q)))"

text \<open>
  The checks on the size of a variable-length array. The source deletes the value before it
  reads the size out of it for \<open>newarr\<close>.
\<close>

definition vla_size :: "host \<Rightarrow> evptr \<Rightarrow> nat emu" where
  "vla_size H temp = bindM (deref_val temp) (\<lambda>v.
     if obj_type H v \<noteq> IntType then fail CantHandle
     else bindM (lift (num_parts v)) (\<lambda>(s, T, n).
       if ap_is_negative H n then fail (ErrExit (line ''Tried to create negative length array''))
       else if ap_ugt64 H n (- 1) then fail (ErrExit (line ''Requested array size too big''))
       else fail (HostUB ''size of an array read from a deleted value'')))"

text \<open>
  The constructor of a structure reads the declaration the iterator starts at for every
  member, at the offset just after the tag: neither advances in the loop.
\<close>

fun from_lvalue :: "host \<Rightarrow> (expr \<Rightarrow> evptr emu) \<Rightarrow> blkptr \<Rightarrow> nat \<Rightarrow> qtype \<Rightarrow> emu_val emu"
  and struct_from :: "host \<Rightarrow> (expr \<Rightarrow> evptr emu) \<Rightarrow> blkptr \<Rightarrow> nat \<Rightarrow> members \<Rightarrow> emu_val list emu" where
  "from_lvalue H ev b off (QBuiltin k) =
     bindM (load_loc (lvalue_of b (QBuiltin k) off)) (\<lambda>loc.
       if builtin_is_integer k
       then bindM (lift (getNumType (QBuiltin k))) (\<lambda>t. load_num H t loc)
       else fail CantHandle)"
| "from_lvalue H ev b off (QPointer t) =
     bindM (load_loc (lvalue_of b (QPointer t) off)) (\<lambda>loc. case loc of
       None \<Rightarrow> ret (ptr_of_status STATUS_UNINITIALIZED (QPointer t))
     | Some (bs, space) \<Rightarrow> load_ptr (QPointer t) bs space)"
| "from_lvalue H ev b off (QConstantArray t n) =
     bindM (load_loc (lvalue_of b (QConstantArray t n) off)) (\<lambda>loc. case loc of
       None \<Rightarrow> bindM (from_lvalue H ev NullBlk 0 t)
                 (\<lambda>sub. newarr_fill H (QConstantArray t n) sub n)
     | Some (bs, space) \<Rightarrow> load_ptr (QConstantArray t n) bs space)"
| "from_lvalue H ev b off (QVariableArray t e) =
     bindM (load_loc (lvalue_of b (QVariableArray t e) off)) (\<lambda>loc. case loc of
       None \<Rightarrow> bindM (ev e) (\<lambda>temp. bindM (vla_size H temp) (\<lambda>n.
                 bindM (from_lvalue H ev NullBlk 0 t)
                   (\<lambda>sub. newarr_fill H (QVariableArray t e) sub n)))
     | Some (bs, space) \<Rightarrow> load_ptr (QVariableArray t e) bs space)"
| "from_lvalue H ev b off (QFunction s) =
     bindM (load_loc (lvalue_of b (QFunction s) off)) (\<lambda>loc. case loc of
       None \<Rightarrow> ret (func_of_status STATUS_UNINITIALIZED (QFunction s))
     | Some (bs, space) \<Rightarrow> load_func (QFunction s) bs space)"
| "from_lvalue H ev b off (QStruct s m) =
     seqM (load_loc (lvalue_of b (QStruct s m) off))
     (bindM (struct_start (lvalue_of b (QStruct s m) off)) (\<lambda>(st, tag).
      bindM (struct_from H ev b off m) (\<lambda>ms.
        let st' = fold (\<lambda>v t. struct_status t (emu_status v)) ms st in
        ret (EmuStruct st' (QStruct s m) tag ms))))"
| "from_lvalue H ev b off (QUnion s m) =
     seqM (load_loc (lvalue_of b (QUnion s m) off))
     (bindM (struct_start (lvalue_of b (QUnion s m) off)) (\<lambda>(st, tag).
      bindM (struct_from H ev b off m) (\<lambda>ms.
        let st' = fold (\<lambda>v t. struct_status t (emu_status v)) ms st in
        ret (EmuStruct st' (QUnion s m) tag ms))))"
| "from_lvalue H ev b off (QUndefStruct s) =
     seqM (load_loc (lvalue_of b (QUndefStruct s) off))
     (bindM (struct_start (lvalue_of b (QUndefStruct s) off)) (\<lambda>_.
        fail (ErrExit ''Dealing with undefined record'')))"
| "from_lvalue H ev b off (QUnsupported s) =
     seqM (load_loc (lvalue_of b (QUnsupported s) off)) (fail CantHandle)"
| "struct_from H ev b off MNil = ret []"
| "struct_from H ev b off (MNonValue m) = fail (ErrExit ''Error with record member'')"
| "struct_from H ev b off (MField t m) =
     mapM (\<lambda>_. from_lvalue H ev b (sz (off + 4)) t) [0..<Suc (count_members m)]"

definition load :: "host \<Rightarrow> (expr \<Rightarrow> evptr emu) \<Rightarrow> lvalue \<Rightarrow> emu_val emu" where
  "load H ev l = from_lvalue H ev (lblock l) (loffset l) (ltype l)"

definition is_scalar_zero :: "host \<Rightarrow> emu_val \<Rightarrow> bool emu" where
  "is_scalar_zero H v =
     (if obj_type H v = IntType
      then bindM (lift (num_parts v)) (\<lambda>(s, T, n). ret (ap_eq64 H n 0))
      else fail CantHandle)"

end
