(* ===== verification/External.thy ===== *)
theory External
  imports Casts
begin

text \<open>
  The functions the interpreter implements itself (\<open>external.h\<close>, \<open>external.cpp\<close>): their
  table, and \<open>malloc\<close>, \<open>free\<close> and \<open>va_start\<close>, which take their arguments from the
  topmost stack frame.
\<close>

section \<open>The table\<close>

datatype external_func = EmuMalloc | EmuFree | EmuVaStart

definition impl_ids :: "string \<Rightarrow> u32 option" where
  "impl_ids s = map_of [(''malloc'', 0), (''free'', 1), (''__builtin_va_start'', 2)] s"

definition impl_list :: "(external_func \<times> bool) list" where
  "impl_list = [(EmuMalloc, False), (EmuFree, False), (EmuVaStart, True)]"

definition get_external_func :: "string \<Rightarrow> qtype \<Rightarrow> emu_val res" where
  "get_external_func s q = (case impl_ids s of
     None \<Rightarrow> Inl (ErrExit ''External function not implemented'')
   | Some i \<Rightarrow> Inr (func_of_id i q))"

text \<open>Indexing \<open>impl_list\<close> past its end is undefined behaviour.\<close>

definition impl_entry :: "u32 \<Rightarrow> (external_func \<times> bool) res" where
  "impl_entry i = (if unat i < length impl_list then Inr (impl_list ! unat i)
     else Inl (HostUB ''impl_list index''))"

definition is_lvalue_based_macro :: "u32 \<Rightarrow> bool res" where
  "is_lvalue_based_macro i = res_bind (impl_entry i) (\<lambda>(f, b). Inr b)"

section \<open>The functions\<close>

text \<open>The variables of the topmost frame; \<open>back()\<close> of an empty vector is undefined.\<close>

definition top_vars :: "(string \<times> lvalue) list emu" where
  "top_vars = bindM (gets stack_vars) (\<lambda>fs.
     if fs = [] then fail (HostUB ''no stack frame'') else ret (last fs))"

definition emu_malloc :: "host \<Rightarrow> (expr \<Rightarrow> evptr emu) \<Rightarrow> evptr emu" where
  "emu_malloc H ev = bindM top_vars (\<lambda>vars. case vars of
     [] \<Rightarrow> fail (ErrExit ''Malloc requires an argument'')
   | (nm, l) # _ \<Rightarrow> bindM (load H ev l) (\<lambda>arg.
       if obj_type H arg \<noteq> ULongType then fail (ErrExit (line ''Malloc requires an unsigned long''))
       else if emu_status arg \<noteq> STATUS_DEFINED then fail ErrUndef
       else bindM (lift (num_parts arg)) (\<lambda>(s, T, v).
         bindM (block_of_size H MEM_TYPE_HEAP (unat (ap_get_limited H v))) (\<lambda>p.
           ret (Val (ptr_of_mem_ptr p 0 VoidPtrType))))))"

text \<open>The C cast of the argument to \<open>EmuPtr*\<close>.\<close>

fun ptr_parts :: "emu_val \<Rightarrow> (status_t \<times> ptr_union \<times> u64) res" where
  "ptr_parts (EmuPtr s q u off) = Inr (s, u, off)"
| "ptr_parts _ = Inl (HostUB ''cast of a value to EmuPtr'')"

definition emu_free :: "host \<Rightarrow> (expr \<Rightarrow> evptr emu) \<Rightarrow> evptr emu" where
  "emu_free H ev = bindM top_vars (\<lambda>vars. case vars of
     [] \<Rightarrow> fail (ErrExit ''Free requires an argument'')
   | (nm, l) # _ \<Rightarrow> bindM (load H ev l) (\<lambda>arg.
       if \<not> isPointerType (obj_type H arg) then fail (ErrExit ''Free requires a pointer'')
       else if emu_status arg \<noteq> STATUS_DEFINED then fail ErrUndef
       else bindM (lift (ptr_parts arg)) (\<lambda>(s, u, off).
         seqM (block_delete (union_block u)) (ret (Val EmuVoid)))))"

text \<open>The bytes of a block from an offset on, read without a check.\<close>

definition raw_bytes :: "lvalue \<Rightarrow> byte list emu" where
  "raw_bytes l = bindM (get_block (lblock l)) (\<lambda>b. bindM (block_data b) (\<lambda>d.
     ret (drop (loffset l) d)))"

definition stack_entry :: "nat \<Rightarrow> nat \<Rightarrow> (string \<times> lvalue) emu" where
  "stack_entry n i = bindM (gets stack_vars) (\<lambda>fs.
     if n < length fs \<and> i < length (fs ! n) then ret (fs ! n ! i)
     else fail (HostUB ''stack_vars index''))"

definition emu_va_start :: "host \<Rightarrow> evptr emu" where
  "emu_va_start H = bindM top_vars (\<lambda>vars. case vars of
     (n1, l1) # (n2, l2) # _ \<Rightarrow>
       bindM (raw_bytes l1) (\<lambda>b1. bindM (lift (stackpos_from_mem b1)) (\<lambda>to.
       bindM (raw_bytes l2) (\<lambda>b2. bindM (lift (stackpos_from_mem b2)) (\<lambda>from.
       case to of
         EmuStackPos s r lev num \<Rightarrow>
           bindM (stack_entry (unat lev) (unat num)) (\<lambda>(nm, ts).
           bindM (get_block (lblock ts)) (\<lambda>b.
             if bsize b < sz (loffset ts + EMU_SIZE_STACKPOS)
             then fail (ErrExit ''Not enough size for va_list storage'')
             else bindM (lift (dump_repr H from)) (\<lambda>bs.
               seqM (store_bytes b (loffset ts) bs) (ret (Val EmuVoid)))))
       | _ \<Rightarrow> fail (HostUB ''cast of a value to EmuStackPos'')))))
   | _ \<Rightarrow> fail (ErrExit ''va_start requires 2 arguments''))"

definition call_external :: "host \<Rightarrow> (expr \<Rightarrow> evptr emu) \<Rightarrow> u32 \<Rightarrow> evptr emu" where
  "call_external H ev i = bindM (lift (impl_entry i)) (\<lambda>(f, b). case f of
     EmuMalloc \<Rightarrow> emu_malloc H ev
   | EmuFree \<Rightarrow> emu_free H ev
   | EmuVaStart \<Rightarrow> emu_va_start H)"

end
