(* ===== verification/Interp.thy ===== *)
theory Interp
  imports External
begin

text \<open>
  The execution subsystem (\<open>eval.h\<close>, \<open>eval.cpp\<close>): \<open>eval_lexpr\<close>, \<open>eval_rexpr\<close> and
  \<open>exec_stmt\<close>. The three functions call each other; each is written here once, over a record
  \<open>ev\<close> of the three functions to call, one definition per node class. \<open>interp n\<close> then
  ties the knot with recursion depth \<open>n\<close>: at depth 0 every call runs out of fuel. The
  field \<open>fuel\<close> also bounds the iterations of a loop.
\<close>

record interp_fns =
  fuel :: nat
  rexpr :: "expr \<Rightarrow> evptr emu"
  lexpr :: "expr \<Rightarrow> lvalue emu"
  run_stmt :: "stmt \<Rightarrow> evptr emu"

text \<open>A subexpression whose value is used at once.\<close>

definition rvalue :: "interp_fns \<Rightarrow> expr \<Rightarrow> emu_val emu" where
  "rvalue ev e = bindM (rexpr ev e) deref_val"

definition load_at :: "host \<Rightarrow> interp_fns \<Rightarrow> lvalue \<Rightarrow> emu_val emu" where
  "load_at H ev l = load H (rexpr ev) l"

section \<open>Lvalues\<close>

definition get_nonstack_var :: "string \<Rightarrow> lvalue emu" where
  "get_nonstack_var name = bindM (gets (\<lambda>s. s)) (\<lambda>s.
     case local_vars s (curr_source s) name of
       Some l \<Rightarrow> ret l
     | None \<Rightarrow> (case global_vars s name of
         Some src \<Rightarrow> (case local_vars s src name of
             Some l \<Rightarrow> ret l
           | None \<Rightarrow> fail (HostUB ''global_vars entry without a variable''))
       | None \<Rightarrow> ret (lvalue_of NullBlk RawType 0)))"

definition eval_declref :: "string \<Rightarrow> lvalue emu" where
  "eval_declref name = bindM (gets (\<lambda>s. stack_var_map s name)) (\<lambda>r. case r of
     None \<Rightarrow> get_nonstack_var name
   | Some l \<Rightarrow>
       if l = [] then fail (HostUB ''back of an empty deque'')
       else bindM (stack_entry (fst (last l)) (snd (last l))) (\<lambda>(nm, lv). ret lv))"

fun pointee :: "qtype \<Rightarrow> qtype" where
  "pointee (QPointer t) = t"
| "pointee t = t"

text \<open>\<open>(int64_t)getSizeOf(subtype) * idx_val.getSExtValue() + p.offset\<close>, in 64 bits.\<close>

definition eval_subscript :: "host \<Rightarrow> interp_fns \<Rightarrow> expr \<Rightarrow> expr \<Rightarrow> lvalue emu" where
  "eval_subscript H ev base_e idx_e =
     bindM (rvalue ev base_e) (\<lambda>base. bindM (rvalue ev idx_e) (\<lambda>idx.
     if \<not> isPointerType (obj_type H base) then fail CantHandle
     else if \<not> isIntegerType (obj_type H idx) then fail CantHandle
     else bindM (lift (ptr_parts base)) (\<lambda>(s, u, poff).
       let subtype = pointee (obj_type H base) in
       bindM (lift (num_parts idx)) (\<lambda>(si, T, iv).
       bindM (lift (getSizeOf subtype)) (\<lambda>k.
         let offset = of_nat k * ap_get_sext H iv + poff in
         if sint offset < 0 then fail (ErrExit ''Got pointer to invalid location'')
         else ret (lvalue_of (union_block u) subtype (unat offset)))))))"

definition eval_string :: "host \<Rightarrow> string_kind \<Rightarrow> byte list \<Rightarrow> qtype \<Rightarrow> lvalue emu" where
  "eval_string H k bs q =
     (if k \<noteq> SK_Ascii then fail (ErrExit ''Can't handle non-ascii strings'')
      else bindM (block_of_size H MEM_TYPE_STATIC (length bs + 1)) (\<lambda>p.
        bindM (get_block p) (\<lambda>b.
        seqM (store_bytes b 0 (bs @ [0])) (ret (lvalue_of p q 0)))))"

definition eval_lexpr :: "host \<Rightarrow> interp_fns \<Rightarrow> expr \<Rightarrow> lvalue emu" where
  "eval_lexpr H ev e = (case e of
     DeclRefExpr name q \<Rightarrow> eval_declref name
   | ArraySubscriptExpr b i \<Rightarrow> eval_subscript H ev b i
   | StringLiteral k bs q \<Rightarrow> eval_string H k bs q
   | ParenExpr sub \<Rightarrow> lexpr ev sub
   | _ \<Rightarrow> fail CantHandle)"

section \<open>Literals and unary operators\<close>

definition EMU_MAX_INT :: "host \<Rightarrow> apint" where "EMU_MAX_INT H = ap_new H 32 0x7FFFFFFF False"
definition EMU_MIN_INT :: "host \<Rightarrow> apint" where "EMU_MIN_INT H = ap_new H 32 (- 0x80000000) True"

definition eval_integer_literal :: "host \<Rightarrow> apint \<Rightarrow> evptr emu" where
  "eval_integer_literal H i =
     (if ap_slt H i (EMU_MIN_INT H) \<or> ap_sgt H i (EMU_MAX_INT H) then fail CantHandle
      else ret (Val (num_of_apint NUM_TYPE_INT i)))"

text \<open>
  \<open>new EmuNum<NUM_TYPE_CHAR>(new APInt(8, i, true))\<close>: the argument is a pointer to an
  \<open>APInt\<close>, so the constructor that reads a representation from memory is the one called.
\<close>

definition eval_char_literal :: "host \<Rightarrow> u32 \<Rightarrow> evptr emu" where
  "eval_char_literal H i =
     (if i > 127 then fail CantHandle
      else bindM (lift (num_from_mem H NUM_TYPE_CHAR (apint_object H (ap_new H 8 (ucast i) True))))
        (\<lambda>v. ret (Val v)))"

definition eval_unary :: "host \<Rightarrow> interp_fns \<Rightarrow> unary_op \<Rightarrow> expr \<Rightarrow> qtype \<Rightarrow> evptr emu" where
  "eval_unary H ev op sub q = (case op of
     UO_AddrOf \<Rightarrow> bindM (lexpr ev sub) (\<lambda>arg.
       ret (Val (ptr_of_mem_ptr (lblock arg) (of_nat (loffset arg)) q)))
   | UO_LNot \<Rightarrow> bindM (rvalue ev sub) (\<lambda>arg.
       if \<not> isIntegerType (obj_type H arg) then fail CantCast
       else bindM (lift (generic_lnot H arg)) (\<lambda>v. ret (Val v)))
   | UO_Minus \<Rightarrow> bindM (rvalue ev sub) (\<lambda>arg.
       if \<not> isIntegerType (obj_type H arg) then fail CantCast
       else bindM (lift (generic_neg H arg)) (\<lambda>v. ret (Val v)))
   | UO_Unsupported s \<Rightarrow> fail CantHandle)"

section \<open>Binary operators\<close>

text \<open>The right operand has been evaluated already in each of these.\<close>

definition eval_assign :: "host \<Rightarrow> interp_fns \<Rightarrow> expr \<Rightarrow> evptr \<Rightarrow> evptr emu" where
  "eval_assign H ev lhs right =
     bindM (lexpr ev lhs) (\<lambda>left.
     bindM (deref_val right) (\<lambda>r.
     bindM (lift (emu_cast_to H r (ltype left))) (\<lambda>ans.
     seqM (block_write H (lblock left) ans (loffset left)) (ret (Val ans)))))"

fun compare_signed :: "host \<Rightarrow> binary_op \<Rightarrow> apint \<Rightarrow> apint \<Rightarrow> bool" where
  "compare_signed H BO_LT x y = ap_slt H x y"
| "compare_signed H BO_GT x y = ap_sgt H x y"
| "compare_signed H BO_LE x y = ap_sle H x y"
| "compare_signed H BO_GE x y = ap_sge H x y"
| "compare_signed H BO_EQ x y = ap_eq H x y"
| "compare_signed H BO_NE x y = ap_ne H x y"
| "compare_signed H _ x y = False"

fun compare_mixed :: "binary_op \<Rightarrow> bool" where
  "compare_mixed BO_LT = False"
| "compare_mixed BO_GT = True"
| "compare_mixed BO_LE = False"
| "compare_mixed BO_GE = True"
| "compare_mixed BO_EQ = False"
| "compare_mixed BO_NE = True"
| "compare_mixed _ = False"

fun compare_unsigned :: "host \<Rightarrow> binary_op \<Rightarrow> apint \<Rightarrow> apint \<Rightarrow> bool" where
  "compare_unsigned H BO_LT x y = ap_ult H x y"
| "compare_unsigned H BO_GT x y = ap_ugt H x y"
| "compare_unsigned H BO_LE x y = ap_ule H x y"
| "compare_unsigned H BO_GE x y = ap_uge H x y"
| "compare_unsigned H BO_EQ x y = ap_eq H x y"
| "compare_unsigned H BO_NE x y = ap_ne H x y"
| "compare_unsigned H _ x y = False"

definition num_compare :: "host \<Rightarrow> binary_op \<Rightarrow> apint \<Rightarrow> apint \<Rightarrow> bool" where
  "num_compare H op lval rval =
     (if ap_is_negative H lval then compare_signed H op lval rval
      else if ap_is_negative H rval then compare_mixed op
      else compare_unsigned H op lval rval)"

definition eval_compare :: "host \<Rightarrow> interp_fns \<Rightarrow> binary_op \<Rightarrow> expr \<Rightarrow> evptr \<Rightarrow> evptr emu" where
  "eval_compare H ev op lhs right =
     bindM (rvalue ev lhs) (\<lambda>left.
     bindM (deref_val right) (\<lambda>r.
     if obj_type H left \<noteq> IntType \<or> obj_type H r \<noteq> IntType then fail CantHandle
     else
       bindM (lift (num_parts left)) (\<lambda>(s1, T1, lval).
       bindM (lift (num_parts r)) (\<lambda>(s2, T2, rval).
       let ans = (if num_compare H op lval rval then 1 else 0) in
       ret (Val (num_of_apint NUM_TYPE_INT (ap_new H 32 ans True)))))))"

definition eval_compound_assign :: "host \<Rightarrow> interp_fns \<Rightarrow> num_op \<Rightarrow> expr \<Rightarrow> evptr \<Rightarrow> evptr emu" where
  "eval_compound_assign H ev op lhs right =
     bindM (lexpr ev lhs) (\<lambda>left.
     bindM (deref_val right) (\<lambda>r.
     if ltype left \<noteq> IntType \<or> obj_type H r \<noteq> IntType then fail CantHandle
     else
       bindM (get_block (lblock left)) (\<lambda>b.
       if bsize b < 4 \<or> bsize b - 4 < loffset left then fail BadMemRead
       else
         bindM (block_data b) (\<lambda>d.
         bindM (lift (num_from_mem H NUM_TYPE_INT (drop (loffset left) d))) (\<lambda>lv.
         bindM (lift (num_parts lv)) (\<lambda>(s1, T1, v1).
         bindM (lift (num_parts r)) (\<lambda>(s2, T2, v2).
         let result = num_method H op NUM_TYPE_INT s1 v1 s2 v2 in
         seqM (block_write H (lblock left) result (loffset left)) (ret (Val result)))))))))"

text \<open>\<open>int n\<close> and \<open>int s\<close>: 32-bit conversions, whose product is added to a \<open>size_t\<close>.\<close>

definition pointer_add :: "u64 \<Rightarrow> u32 \<Rightarrow> nat \<Rightarrow> u64" where
  "pointer_add off n k = off + scast (n * of_nat k)"

definition eval_arith :: "host \<Rightarrow> interp_fns \<Rightarrow> num_op \<Rightarrow> expr \<Rightarrow> evptr \<Rightarrow> evptr emu" where
  "eval_arith H ev op lhs right =
     bindM (rvalue ev lhs) (\<lambda>left.
     bindM (deref_val right) (\<lambda>r.
     if \<not> isIntegerType (obj_type H r) then fail CantCast
     else
       let tl = obj_type H left in
       if isPointerType tl then
         bindM (lift (num_parts r)) (\<lambda>(s2, T2, v2).
         if op \<noteq> OpAdd \<and> op \<noteq> OpSub then fail (ErrExit ''Undefined op on pointer'')
         else
           let n = (if op = OpAdd then ucast (ap_get_sext H v2) else ucast (- ap_get_sext H v2)) in
           bindM (lift (getSizeOf (pointee tl))) (\<lambda>k.
           bindM (lift (ptr_parts left)) (\<lambda>(s1, u, off).
           ret (Val (ptr_of_mem_ptr (union_block u) (pointer_add off n k) tl)))))
       else if isIntegerType tl then
         bindM (lift (num_doop H op left r)) (\<lambda>v. ret (Val v))
       else fail CantCast))"

definition eval_binary :: "host \<Rightarrow> interp_fns \<Rightarrow> binary_op \<Rightarrow> expr \<Rightarrow> expr \<Rightarrow> evptr emu" where
  "eval_binary H ev op lhs rhs =
     bindM (rexpr ev rhs) (\<lambda>right. case op of
       BO_Assign \<Rightarrow> eval_assign H ev lhs right
     | BO_LT \<Rightarrow> eval_compare H ev op lhs right
     | BO_GT \<Rightarrow> eval_compare H ev op lhs right
     | BO_LE \<Rightarrow> eval_compare H ev op lhs right
     | BO_GE \<Rightarrow> eval_compare H ev op lhs right
     | BO_EQ \<Rightarrow> eval_compare H ev op lhs right
     | BO_NE \<Rightarrow> eval_compare H ev op lhs right
     | BO_AddAssign \<Rightarrow> eval_compound_assign H ev OpAdd lhs right
     | BO_SubAssign \<Rightarrow> eval_compound_assign H ev OpSub lhs right
     | BO_Add \<Rightarrow> eval_arith H ev OpAdd lhs right
     | BO_Sub \<Rightarrow> eval_arith H ev OpSub lhs right
     | BO_Mul \<Rightarrow> eval_arith H ev OpMul lhs right
     | BO_Div \<Rightarrow> eval_arith H ev OpDiv lhs right
     | BO_And \<Rightarrow> eval_arith H ev OpAnd lhs right
     | BO_Or \<Rightarrow> eval_arith H ev OpOr lhs right
     | BO_Unsupported s \<Rightarrow> fail CantHandle)"

section \<open>Casts\<close>

fun builtin_is_signed :: "builtin_kind \<Rightarrow> bool" where
  "builtin_is_signed BK_Char_S = True"
| "builtin_is_signed BK_SChar = True"
| "builtin_is_signed BK_Short = True"
| "builtin_is_signed BK_Int = True"
| "builtin_is_signed BK_Long = True"
| "builtin_is_signed BK_LongLong = True"
| "builtin_is_signed _ = False"

definition eval_builtin_fn :: "host \<Rightarrow> expr \<Rightarrow> qtype \<Rightarrow> evptr emu" where
  "eval_builtin_fn H sub q = (case sub of
     DeclRefExpr name sq \<Rightarrow>
       bindM (lift (get_external_func name sq)) (\<lambda>f.
       bindM (block_of_value H MEM_TYPE_STATIC f) (\<lambda>p.
       ret (Val (ptr_of_mem_ptr p 0 q))))
   | _ \<Rightarrow> fail (ErrExit ''Don't know how to convert builtin function''))"

text \<open>The block id that an integer made from a pointer carries in its upper half.\<close>

definition ptr_segment :: "blkptr \<Rightarrow> u32 emu" where
  "ptr_segment p = (if p = NullBlk then ret 0 else bindM (get_block p) (\<lambda>b. ret (bid b)))"

definition eval_ptr_to_int :: "host \<Rightarrow> interp_fns \<Rightarrow> expr \<Rightarrow> qtype \<Rightarrow> evptr emu" where
  "eval_ptr_to_int H ev sub q =
     bindM (rvalue ev sub) (\<lambda>ptr.
     if \<not> isPointerType (obj_type H ptr) then fail (ErrExit ''Expected pointer'')
     else bindM (lift (ptr_parts ptr)) (\<lambda>(s, u, off).
       if s \<noteq> STATUS_DEFINED then fail CantHandle
       else bindM (ptr_segment (union_block u)) (\<lambda>seg.
         let v = push_bit 32 (ucast seg) + off in
         (case q of
            QBuiltin k \<Rightarrow>
              if builtin_is_signed k
              then ret (Val (num_of_apint NUM_TYPE_LONGLONG (ap_new H 64 v True)))
              else ret (Val (num_of_apint NUM_TYPE_ULONGLONG (ap_new H 64 v False)))
          | _ \<Rightarrow> fail (HostUB ''getAs of another type'')))))"

definition eval_cast :: "host \<Rightarrow> interp_fns \<Rightarrow> cast_kind \<Rightarrow> expr \<Rightarrow> qtype \<Rightarrow> qtype \<Rightarrow> evptr emu" where
  "eval_cast H ev k sub q written = (case k of
     CK_LValueToRValue \<Rightarrow> bindM (lexpr ev sub) (\<lambda>l. bindM (load_at H ev l) (\<lambda>v. ret (Val v)))
   | CK_NoOp \<Rightarrow> rexpr ev sub
   | CK_BitCast \<Rightarrow> bindM (rvalue ev sub) (\<lambda>v.
       bindM (lift (emu_cast_to H v written)) (\<lambda>w. ret (Val w)))
   | CK_IntegralCast \<Rightarrow> bindM (rvalue ev sub) (\<lambda>v.
       bindM (lift (emu_cast_to H v q)) (\<lambda>w. ret (Val w)))
   | CK_FunctionToPointerDecay \<Rightarrow> bindM (lexpr ev sub) (\<lambda>l.
       if \<not> isFunctionType (ltype l) then fail CantCast
       else ret (Val (ptr_of_mem_ptr (lblock l) (of_nat (loffset l)) (QPointer (ltype l)))))
   | CK_ArrayToPointerDecay \<Rightarrow> bindM (lexpr ev sub) (\<lambda>l.
       ret (Val (ptr_of_mem_ptr (lblock l) (of_nat (loffset l)) q)))
   | CK_BuiltinFnToFnPtr \<Rightarrow> eval_builtin_fn H sub q
   | CK_NullToPointer \<Rightarrow> ret (Val (ptr_of_mem_ptr NullBlk 0 q))
   | CK_PointerToIntegral \<Rightarrow> eval_ptr_to_int H ev sub q
   | CK_Unsupported s \<Rightarrow> fail CantCast)"

section \<open>Calls\<close>

definition push_arg :: "host \<Rightarrow> string \<Rightarrow> emu_val \<Rightarrow> unit emu" where
  "push_arg H name v = bindM (block_of_value H MEM_TYPE_STACK v) (\<lambda>p.
     add_stack_var name (lvalue_of p (obj_type H v) 0))"

fun strip_implicit :: "expr \<Rightarrow> expr" where
  "strip_implicit (ImplicitCastExpr k sub q) = strip_implicit sub"
| "strip_implicit e = e"

definition macro_arg :: "host \<Rightarrow> expr \<Rightarrow> unit emu" where
  "macro_arg H arg = (case strip_implicit arg of
     DeclRefExpr name q \<Rightarrow>
       bindM (gets (\<lambda>s. stack_var_map s name)) (\<lambda>r. case r of
         None \<Rightarrow> fail (ErrExit ''Can't find appropriate lvalue for macro'')
       | Some l \<Rightarrow>
           if l = [] then fail (HostUB ''back of an empty deque'')
           else push_arg H [] (stackpos_of (of_nat (fst (last l))) (of_nat (snd (last l)))))
   | _ \<Rightarrow> fail (ErrExit ''Passed non-variable as lvalue to builtin macro''))"

definition value_arg :: "host \<Rightarrow> interp_fns \<Rightarrow> string \<times> expr \<Rightarrow> unit emu" where
  "value_arg H ev a = bindM (rvalue ev (snd a)) (\<lambda>v. push_arg H (fst a) v)"

text \<open>The names of the stack variables for the arguments: empty past the last parameter.\<close>

definition arg_names :: "function_decl \<Rightarrow> expr list \<Rightarrow> (string \<times> expr) list" where
  "arg_names d args =
     map (\<lambda>i. (if i \<ge> length (fd_params d) then [] else fst (fd_params d ! i), args ! i)) [0..<length args]"

text \<open>\<open>curr_source\<close> set for a computation and restored after it.\<close>

definition in_source :: "nat \<Rightarrow> 'a emu \<Rightarrow> 'a emu" where
  "in_source src m = bindM (gets curr_source) (\<lambda>save.
     seqM (modifyM (\<lambda>s. s\<lparr>curr_source := src\<rparr>))
     (bindM m (\<lambda>r. seqM (modifyM (\<lambda>s. s\<lparr>curr_source := save\<rparr>)) (ret r))))"

definition call_body :: "host \<Rightarrow> interp_fns \<Rightarrow> u32 \<Rightarrow> expr list \<Rightarrow> evptr emu" where
  "call_body H ev fid args =
     (if fid < NUM_EXTERNAL_FUNCTIONS then
        bindM (lift (is_lvalue_based_macro fid)) (\<lambda>m.
        seqM (if m then forM args (macro_arg H) else forM (map (Pair []) args) (value_arg H ev))
          (call_external H (rexpr ev) fid))
      else
        bindM (gets (\<lambda>s. global_functions s fid)) (\<lambda>it. case it of
          None \<Rightarrow> fail (HostUB ''global_functions end iterator'')
        | Some (src, defn) \<Rightarrow>
            seqM (forM (arg_names defn args) (value_arg H ev))
            (in_source src (case fd_body defn of
                None \<Rightarrow> fail (HostUB ''null function body'')
              | Some body \<Rightarrow> run_stmt ev body))))"

fun func_id_of :: "emu_val \<Rightarrow> u32 res" where
  "func_id_of (EmuFunc s q r f) = Inr f"
| "func_id_of _ = Inl (HostUB ''cast of a value to EmuFunc'')"

definition eval_call :: "host \<Rightarrow> interp_fns \<Rightarrow> expr \<Rightarrow> expr list \<Rightarrow> evptr emu" where
  "eval_call H ev callee args =
     bindM (rvalue ev callee) (\<lambda>f.
     if emu_status f \<noteq> STATUS_DEFINED \<or> \<not> isFunctionPointerType (obj_type H f)
     then fail (ErrExit ''Calling an invalid function'')
     else
       bindM (lift (ptr_parts f)) (\<lambda>(s, u, off).
       bindM (get_block (union_block u)) (\<lambda>b.
       if memtype b = MEM_TYPE_EXTERN then fail (ErrExit ''Tried to call an unimplemented function'')
       else
         bindM (load_at H ev (lvalue_of (union_block u) (pointee (obj_type H f)) (unat off))) (\<lambda>func.
         bindM (lift (func_id_of func)) (\<lambda>fid.
         in_frame (call_body H ev fid args))))))"

section \<open>sizeof, initializers\<close>

definition eval_trait :: "host \<Rightarrow> interp_fns \<Rightarrow> trait_kind \<Rightarrow> qtype option \<Rightarrow> evptr emu" where
  "eval_trait H ev k arg = (case k of
     UETT_SizeOf \<Rightarrow> (case arg of
         None \<Rightarrow> fail (HostUB ''getArgumentType of an expression argument'')
       | Some q \<Rightarrow> bindM (load_at H ev (lvalue_of NullBlk q 0)) (\<lambda>fake.
           bindM (lift (emu_size fake)) (\<lambda>n.
             ret (Val (num_of_apint NUM_TYPE_ULONG (ap_new H 32 (of_nat n) False))))))
   | UETT_Unsupported s \<Rightarrow> fail CantHandle)"

fun init_elements :: "host \<Rightarrow> interp_fns \<Rightarrow> blkptr \<Rightarrow> expr list \<Rightarrow> nat \<Rightarrow> unit emu" where
  "init_elements H ev p [] loc = ret ()"
| "init_elements H ev p (e # es) loc =
     bindM (rvalue ev e) (\<lambda>cv.
     seqM (block_write H p cv loc)
     (bindM (lift (emu_size cv)) (\<lambda>n. init_elements H ev p es (sz (loc + n)))))"

definition eval_init_list :: "host \<Rightarrow> interp_fns \<Rightarrow> expr list \<Rightarrow> qtype \<Rightarrow> evptr emu" where
  "eval_init_list H ev inits q =
     (if isArrayType q then
        bindM (load_at H ev (lvalue_of NullBlk q 0)) (\<lambda>array.
        if emu_status array \<noteq> STATUS_DEFINED then fail CantHandle
        else bindM (lift (ptr_parts array)) (\<lambda>(s, u, off).
          seqM (init_elements H ev (union_block u) inits 0) (ret (Val array))))
      else if isStructureType q then
        bindM (mapM (rvalue ev) inits) (\<lambda>ms. ret (Val (struct_of STATUS_DEFINED q ms)))
      else fail CantHandle)"

section \<open>eval\_rexpr\<close>

definition eval_rexpr :: "host \<Rightarrow> interp_fns \<Rightarrow> expr \<Rightarrow> evptr emu" where
  "eval_rexpr H ev e = (case e of
     IntegerLiteral i \<Rightarrow> eval_integer_literal H i
   | CharacterLiteral i \<Rightarrow> eval_char_literal H i
   | UnaryOperator op sub q \<Rightarrow> eval_unary H ev op sub q
   | BinaryOperator op l r \<Rightarrow> eval_binary H ev op l r
   | ImplicitCastExpr k sub q \<Rightarrow> eval_cast H ev k sub q q
   | ExplicitCastExpr k sub q written \<Rightarrow> eval_cast H ev k sub q written
   | CallExpr callee args \<Rightarrow> eval_call H ev callee args
   | UnaryExprOrTypeTraitExpr k arg \<Rightarrow> eval_trait H ev k arg
   | InitListExpr inits q \<Rightarrow> eval_init_list H ev inits q
   | ImplicitValueInitExpr q \<Rightarrow> bindM (lift (zero_init H q)) (\<lambda>v. ret (Val v))
   | ParenExpr sub \<Rightarrow> rexpr ev sub
   | _ \<Rightarrow> fail CantHandle)"

section \<open>Statements\<close>

text \<open>The initializer is evaluated twice: the first value is deleted, the second is used.\<close>

definition delete_value :: "evptr \<Rightarrow> unit emu" where
  "delete_value v = (if v = BreakPtr then fail (HostUB ''BREAK_POINTER deleted'') else ret ())"

definition exec_decl :: "host \<Rightarrow> interp_fns \<Rightarrow> decl \<Rightarrow> unit emu" where
  "exec_decl H ev d = (case d of
     NonVarDecl \<Rightarrow> ret ()
   | VarDecl v \<Rightarrow>
       bindM (case vd_init v of
           None \<Rightarrow> load_at H ev (lvalue_of NullBlk (vd_type v) 0)
         | Some init \<Rightarrow>
             bindM (rexpr ev init) (\<lambda>temp.
             bindM (rvalue ev init) (\<lambda>w.
             bindM (lift (emu_cast_to H w (vd_type v))) (\<lambda>val.
             seqM (delete_value temp) (ret val)))))
         (\<lambda>val.
         bindM (block_of_value H MEM_TYPE_STACK val) (\<lambda>storage.
           add_stack_var (vd_name v) (lvalue_of storage (obj_type H val) 0))))"

text \<open>The statements of a compound one, up to the first that returns a pointer that is not null.\<close>

fun exec_stmts :: "interp_fns \<Rightarrow> stmt list \<Rightarrow> evptr emu" where
  "exec_stmts ev [] = ret NullVal"
| "exec_stmts ev (s # ss) = bindM (run_stmt ev s) (\<lambda>r.
     if r \<noteq> NullVal then ret r else exec_stmts ev ss)"

fun for_loop :: "host \<Rightarrow> interp_fns \<Rightarrow> nat \<Rightarrow> expr option \<Rightarrow> expr option \<Rightarrow> stmt \<Rightarrow> evptr emu" where
  "for_loop H ev 0 cond inc body = fail OutOfFuel"
| "for_loop H ev (Suc n) cond inc body = (case cond of
     None \<Rightarrow> fail (HostUB ''null condition of a for'')
   | Some c \<Rightarrow>
       bindM (rvalue ev c) (\<lambda>temp.
       bindM (is_scalar_zero H temp) (\<lambda>z.
       if z then ret NullVal
       else bindM (run_stmt ev body) (\<lambda>r.
         if r \<noteq> NullVal then ret r
         else (case inc of
             None \<Rightarrow> fail (HostUB ''null increment of a for'')
           | Some i \<Rightarrow> seqM (rexpr ev i) (for_loop H ev n cond inc body))))))"

definition exec_for :: "host \<Rightarrow> interp_fns \<Rightarrow> stmt option \<Rightarrow> expr option \<Rightarrow> expr option \<Rightarrow> stmt \<Rightarrow> evptr emu" where
  "exec_for H ev init cond inc body = in_frame (case init of
     None \<Rightarrow> fail (HostUB ''null initializer of a for'')
   | Some i \<Rightarrow> bindM (run_stmt ev i) (\<lambda>r.
       if r = NullVal then for_loop H ev (fuel ev) cond inc body else ret r))"

text \<open>The statements of a \<open>switch\<close> body from the first matching \<open>case\<close> on, if there is one.\<close>

fun find_case :: "host \<Rightarrow> interp_fns \<Rightarrow> emu_val \<Rightarrow> stmt list \<Rightarrow> stmt list emu" where
  "find_case H ev v [] = ret []"
| "find_case H ev v (s # ss) = (case s of
     CaseStmt e sub \<Rightarrow>
       bindM (rvalue ev e) (\<lambda>comp.
       if \<not> isIntegerType (obj_type H comp) then fail CantCast
       else bindM (lift (num_equals H v comp)) (\<lambda>eq.
         if eq then ret (s # ss) else find_case H ev v ss))
   | _ \<Rightarrow> find_case H ev v ss)"

fun is_default :: "stmt \<Rightarrow> bool" where
  "is_default (DefaultStmt s) = True"
| "is_default _ = False"

definition switch_body :: "host \<Rightarrow> interp_fns \<Rightarrow> expr \<Rightarrow> stmt \<Rightarrow> evptr emu" where
  "switch_body H ev cond body =
     bindM (rvalue ev cond) (\<lambda>v.
      if \<not> isIntegerType (obj_type H v) then fail CantCast
      else (case body of
        CompoundStmt ss \<Rightarrow>
          bindM (find_case H ev v ss) (\<lambda>found.
          let from = (if found = [] then dropWhile (\<lambda>s. \<not> is_default s) ss else found) in
          bindM (exec_stmts ev from) (\<lambda>r. ret (if r = BreakPtr then NullVal else r)))
      | _ \<Rightarrow> fail CantHandle))"

definition exec_switch :: "host \<Rightarrow> interp_fns \<Rightarrow> expr \<Rightarrow> stmt \<Rightarrow> evptr emu" where
  "exec_switch H ev cond body = in_frame (switch_body H ev cond body)"

definition exec_if :: "host \<Rightarrow> interp_fns \<Rightarrow> expr \<Rightarrow> stmt \<Rightarrow> stmt option \<Rightarrow> evptr emu" where
  "exec_if H ev cond th el =
     bindM (rvalue ev cond) (\<lambda>v. bindM (is_scalar_zero H v) (\<lambda>z.
       if z then (case el of None \<Rightarrow> ret NullVal | Some s \<Rightarrow> run_stmt ev s)
       else run_stmt ev th))"

definition exec_stmt :: "host \<Rightarrow> interp_fns \<Rightarrow> stmt \<Rightarrow> evptr emu" where
  "exec_stmt H ev s = (case s of
     CompoundStmt ss \<Rightarrow> in_frame (exec_stmts ev ss)
   | DeclStmt ds \<Rightarrow> seqM (forM ds (exec_decl H ev)) (ret NullVal)
   | ExprStmt e \<Rightarrow> seqM (rexpr ev e) (ret NullVal)
   | ReturnStmt r \<Rightarrow> (case r of
       None \<Rightarrow> fail (HostUB ''null return value'')
     | Some e \<Rightarrow> rexpr ev e)
   | IfStmt c th el \<Rightarrow> exec_if H ev c th el
   | ForStmt i c n b \<Rightarrow> exec_for H ev i c n b
   | NullStmt \<Rightarrow> ret NullVal
   | SwitchStmt c b \<Rightarrow> exec_switch H ev c b
   | CaseStmt e sub \<Rightarrow> run_stmt ev sub
   | DefaultStmt sub \<Rightarrow> run_stmt ev sub
   | BreakStmt \<Rightarrow> ret BreakPtr
   | UnsupportedStmt nm \<Rightarrow> fail CantHandle)"

section \<open>The interpreter with bounded recursion\<close>

definition interp_step :: "host \<Rightarrow> interp_fns \<Rightarrow> interp_fns" where
  "interp_step H ev = \<lparr>fuel = Suc (fuel ev), rexpr = eval_rexpr H ev,
     lexpr = eval_lexpr H ev, run_stmt = exec_stmt H ev\<rparr>"

primrec interp :: "host \<Rightarrow> nat \<Rightarrow> interp_fns" where
  "interp H 0 = \<lparr>fuel = 0, rexpr = (\<lambda>_. fail OutOfFuel), lexpr = (\<lambda>_. fail OutOfFuel),
     run_stmt = (\<lambda>_. fail OutOfFuel)\<rparr>"
| "interp H (Suc n) = interp_step H (interp H n)"

end
