(* ===== verification/Startup.thy ===== *)
theory Startup
  imports Interp
begin

text \<open>
  From the parsed sources to the exit of the process (\<open>eval.cpp\<close> from \<open>StoreFuncImpl\<close> on,
  and the part of \<open>main.cpp\<close> after the files are loaded): storing the functions, setting up
  and initializing the global variables, running \<open>main\<close>. The sources are a list of lists
  of declarations, one per file; \<open>ev\<close> is the interpreter used for initializers and bodies.
\<close>

section \<open>Functions\<close>

text \<open>\<open>insert\<close> of an unordered map: an entry that is there stays.\<close>

definition map_insert :: "('k \<Rightarrow> 'v option) \<Rightarrow> 'k \<Rightarrow> 'v \<Rightarrow> ('k \<Rightarrow> 'v option)" where
  "map_insert m k v = (case m k of None \<Rightarrow> m(k := Some v) | Some _ \<Rightarrow> m)"

definition add_local :: "nat \<Rightarrow> string \<Rightarrow> lvalue \<Rightarrow> unit emu" where
  "add_local src name l = modifyM (\<lambda>s. s\<lparr>local_vars :=
     (local_vars s)(src := map_insert (local_vars s src) name l)\<rparr>)"

definition add_global :: "string \<Rightarrow> nat \<Rightarrow> unit emu" where
  "add_global name src = modifyM (\<lambda>s. s\<lparr>global_vars := map_insert (global_vars s) name src\<rparr>)"

definition StoreFuncImpl :: "host \<Rightarrow> function_decl \<Rightarrow> nat \<Rightarrow> unit emu" where
  "StoreFuncImpl H obj source =
     bindM (gets (\<lambda>s. local_vars s source (fd_name obj))) (\<lambda>it.
     if it \<noteq> None then ret ()
     else if \<not> fd_is_definition obj then ret ()
     else
       bindM new_fid (\<lambda>fid.
       bindM (block_of_value H MEM_TYPE_INVALID (func_of_id fid (fd_type obj))) (\<lambda>storage.
       seqM (modifyM (\<lambda>s. s\<lparr>global_functions := map_insert (global_functions s) fid (source, obj)\<rparr>))
       (seqM (add_local source (fd_name obj) (lvalue_of storage (fd_type obj) 0))
       (if fd_external_linkage obj
        then seqM (add_global (fd_name obj) source)
          (if fd_name obj = ''main''
           then modifyM (\<lambda>s. s\<lparr>main_source := Some source\<rparr>) else ret ())
        else ret ())))))"

fun StoreFuncImpls :: "host \<Rightarrow> nat \<Rightarrow> top_decl list \<Rightarrow> unit emu" where
  "StoreFuncImpls H source [] = ret ()"
| "StoreFuncImpls H source (d # ds) =
     seqM (case d of TopFunction f \<Rightarrow> StoreFuncImpl H f source | _ \<Rightarrow> ret ())
       (StoreFuncImpls H source ds)"

section \<open>Variables\<close>

definition setup_function :: "host \<Rightarrow> function_decl \<Rightarrow> nat \<Rightarrow> unit emu" where
  "setup_function H obj source =
     bindM (get_nonstack_var (fd_name obj)) (\<lambda>l.
     if lblock l \<noteq> NullBlk then
       bindM (get_block (lblock l)) (\<lambda>b.
       bindM (block_data b) (\<lambda>d.
       bindM (gets is_function) (\<lambda>known.
       bindM (lift (func_from_mem known d (fd_type obj))) (\<lambda>f.
         if emu_status f = STATUS_DEFINED
         then put_block (b\<lparr>memtype := MEM_TYPE_STATIC\<rparr>) else ret ()))))
     else
       bindM (block_of_size H MEM_TYPE_EXTERN 0) (\<lambda>storage.
         add_local source (fd_name obj) (lvalue_of storage (fd_type obj) 0)))"

definition setup_var :: "host \<Rightarrow> var_decl \<Rightarrow> nat \<Rightarrow> unit emu" where
  "setup_var H v source =
     (if vd_extern_storage v then ret ()
      else
        bindM (lift (getSizeOf (vd_type v))) (\<lambda>n.
        bindM (block_of_size H MEM_TYPE_GLOBAL n) (\<lambda>storage.
        seqM (add_local source (vd_name v) (lvalue_of storage (vd_type v) 0))
          (if vd_external_linkage v then add_global (vd_name v) source else ret ()))))"

definition SetupVar :: "host \<Rightarrow> top_decl \<Rightarrow> nat \<Rightarrow> unit emu" where
  "SetupVar H d source = (case d of
     TopFunction f \<Rightarrow> setup_function H f source
   | TopVar v \<Rightarrow> setup_var H v source
   | TopOtherValue s \<Rightarrow> ret ()
   | TopOther s \<Rightarrow> ret ())"

text \<open>The initial value is stored into the variable's block without a check of its size.\<close>

definition InitializeVar :: "host \<Rightarrow> interp_fns \<Rightarrow> var_decl \<Rightarrow> nat \<Rightarrow> unit emu" where
  "InitializeVar H ev v source =
     (if vd_extern_storage v then ret ()
      else (case vd_init v of
        None \<Rightarrow> ret ()
      | Some init \<Rightarrow>
          bindM (rvalue ev init) (\<lambda>temp.
          bindM (lift (emu_cast_to H temp (vd_type v))) (\<lambda>val.
          bindM (gets (\<lambda>s. local_vars s source (vd_name v))) (\<lambda>it. case it of
            None \<Rightarrow> fail (HostUB ''local_vars end iterator'')
          | Some loc \<Rightarrow>
              bindM (get_block (lblock loc)) (\<lambda>b.
              bindM (lift (dump_repr H val)) (\<lambda>bs. store_bytes b (loffset loc) bs)))))))"

definition init_decl :: "host \<Rightarrow> interp_fns \<Rightarrow> nat \<Rightarrow> top_decl \<Rightarrow> unit emu" where
  "init_decl H ev source d = (case d of TopVar v \<Rightarrow> InitializeVar H ev v source | _ \<Rightarrow> ret ())"

definition InitializeVars :: "host \<Rightarrow> interp_fns \<Rightarrow> nat \<Rightarrow> top_decl list \<Rightarrow> unit emu" where
  "InitializeVars H ev source file =
     seqM (modifyM (\<lambda>s. s\<lparr>curr_source := source\<rparr>))
     (seqM (forM file (\<lambda>d. SetupVar H d source))
       (forM file (init_decl H ev source)))"

section \<open>Running main\<close>

text \<open>\<open>do_exit\<close> prints the value and exits with status 0.\<close>

definition do_exit :: "emu_val \<Rightarrow> 'a emu" where
  "do_exit v = bindM (lift (num_parts v)) (\<lambda>(s, T, n). fail (ExitClean (ap_width n) (ap_val n)))"

text \<open>
  The checks on the parameters of \<open>main\<close>. The test of the second one is the wrong way
  round, and then calls methods of \<open>PointerType\<close> on another type; every outcome but no
  parameters ends the process.
\<close>

definition check_main_params :: "(string \<times> qtype) list \<Rightarrow> unit emu" where
  "check_main_params ps = (case ps of
     [] \<Rightarrow> ret ()
   | [(n1, t1), (n2, t2)] \<Rightarrow>
       if t1 \<noteq> IntType then fail (ErrExit ''Wrong type on first arg of main (should be int)'')
       else if isPointerType t2 then fail (ErrExit ''Wrong type on second arg of main (should be char*)'')
       else fail (HostUB ''cast of another type to PointerType'')
   | _ \<Rightarrow> fail (ErrExit ''Wrong number of arguments for main''))"

definition find_main :: "(nat \<times> function_decl) emu" where
  "find_main = bindM (gets main_source) (\<lambda>ms. case ms of
     None \<Rightarrow> fail (ErrExit ''No main method declared'')
   | Some m \<Rightarrow> bindM (gets (\<lambda>s. local_vars s m ''main'')) (\<lambda>it. case it of
       None \<Rightarrow> fail (HostUB ''local_vars end iterator'')
     | Some l \<Rightarrow>
         bindM (get_block (lblock l)) (\<lambda>b. bindM (block_data b) (\<lambda>d.
         bindM (gets is_function) (\<lambda>known.
         bindM (lift (func_from_mem known d (ltype l))) (\<lambda>f.
         bindM (lift (func_id_of f)) (\<lambda>fid.
         bindM (gets (\<lambda>s. global_functions s fid)) (\<lambda>it2. case it2 of
           None \<Rightarrow> fail (ErrExit (line ''No main method defined''))
         | Some (src, func) \<Rightarrow> ret (m, func)))))))))"

definition RunProgram :: "host \<Rightarrow> interp_fns \<Rightarrow> unit emu" where
  "RunProgram H ev = bindM find_main (\<lambda>(ms, func).
     seqM (modifyM (\<lambda>s. s\<lparr>curr_source := ms\<rparr>))
     (if fd_return func \<noteq> IntType then fail (ErrExit ''Return type for main must be an int'')
      else
        seqM add_stack_frame
        (seqM (check_main_params (fd_params func))
        (case fd_body func of
           None \<Rightarrow> fail (HostUB ''null function body'')
         | Some body \<Rightarrow>
             bindM (run_stmt ev body) (\<lambda>retval.
             bindM (deref_val retval) (\<lambda>v.
             bindM (lift (emu_cast_to H v (fd_return func))) do_exit))))))"

fun store_all :: "host \<Rightarrow> nat \<Rightarrow> top_decl list list \<Rightarrow> unit emu" where
  "store_all H i [] = ret ()"
| "store_all H i (f # fs) = seqM (StoreFuncImpls H i f) (store_all H (Suc i) fs)"

fun initialize_all :: "host \<Rightarrow> interp_fns \<Rightarrow> nat \<Rightarrow> top_decl list list \<Rightarrow> unit emu" where
  "initialize_all H ev i [] = ret ()"
| "initialize_all H ev i (f # fs) =
     seqM (InitializeVars H ev i f) (initialize_all H ev (Suc i) fs)"

text \<open>\<open>main\<close>, once the sources are there; a normal end is the return of status 0.\<close>

definition cinterp_main :: "host \<Rightarrow> interp_fns \<Rightarrow> top_decl list list \<Rightarrow> unit emu" where
  "cinterp_main H ev sources =
     seqM (store_all H 0 sources)
     (bindM (gets main_source) (\<lambda>ms.
      if ms = None then ret ()
      else
        seqM (modifyM (\<lambda>s. s\<lparr>static_init := True\<rparr>))
        (seqM (initialize_all H ev 0 sources)
        (seqM (modifyM (\<lambda>s. s\<lparr>static_init := False\<rparr>))
          (RunProgram H ev)))))"

end
