(* ===== verification/RbTreeProps.thy ===== *)
theory RbTreeProps
  imports RbTree "HOL-Library.Tree"
begin

text \<open>
  Correctness of the red-black tree on stores that are shaped like a tree. The shape is a
  tree of addresses (\<open>HOL-Library.Tree\<close>); \<open>ordered\<close> is the search-tree order of the keys
  in it. The lookups are correct on ordered stores. Insertion is correct while it neither
  recolours nor rotates; it never sets a parent pointer, so a rotation below the root makes
  the rotated part the whole tree.
\<close>

section \<open>Stores shaped like a tree\<close>

fun tree_at :: "(nat \<Rightarrow> 'v rbnode option) \<Rightarrow> nat option \<Rightarrow> nat tree \<Rightarrow> bool" where
  "tree_at c p Leaf = (p = None)"
| "tree_at c p (Node l a r) = (p = Some a \<and> (case c a of None \<Rightarrow> False
     | Some nd \<Rightarrow> tree_at c (child0 nd) l \<and> tree_at c (child1 nd) r))"

definition key_at :: "('v \<Rightarrow> nat) \<Rightarrow> (nat \<Rightarrow> 'v rbnode option) \<Rightarrow> nat \<Rightarrow> nat" where
  "key_at sv c a = (case c a of None \<Rightarrow> 0 | Some nd \<Rightarrow> sv (nvalue nd))"

text \<open>
  The whole tree: the nodes below the head, at distinct allocated addresses, with keys that
  fit an \<open>int\<close> and increase from left to right.
\<close>

definition rb_tree :: "'v rbtree \<Rightarrow> nat tree \<Rightarrow> bool" where
  "rb_tree t T \<longleftrightarrow> tree_at (cells t) (head t) T \<and> distinct (inorder T) \<and>
     (\<forall>a \<in> set_tree T. a < next_addr t)"

definition ordered :: "('v \<Rightarrow> nat) \<Rightarrow> 'v rbtree \<Rightarrow> nat tree \<Rightarrow> bool" where
  "ordered sv t T \<longleftrightarrow> sorted_wrt (<) (map (key_at sv (cells t)) (inorder T)) \<and>
     (\<forall>a \<in> set_tree T. key_at sv (cells t) a < 2 ^ 31)"

lemma tree_at_None [simp]: "tree_at c None T \<longleftrightarrow> T = Leaf"
  by (cases T) auto

lemma tree_at_SomeE:
  assumes "tree_at c (Some a) T"
  obtains l r nd where "T = Node l a r" and "c a = Some nd"
    and "tree_at c (child0 nd) l" and "tree_at c (child1 nd) r"
  using assms by (cases T) (auto split: option.splits)

lemma size_le_next:
  assumes "rb_tree t T"
  shows "size T \<le> next_addr t"
proof -
  have "set_tree T \<subseteq> {..<next_addr t}" using assms by (auto simp: rb_tree_def)
  then have "card (set_tree T) \<le> next_addr t"
    by (metis card_lessThan card_mono finite_lessThan)
  moreover have "card (set_tree T) = size T"
    using assms distinct_card [of "inorder T"] by (simp add: rb_tree_def)
  ultimately show ?thesis by simp
qed

lemma height_fuel: "rb_tree t T \<Longrightarrow> height T \<le> next_addr t"
  using size_le_next height_le_size_tree le_trans by blast

section \<open>Lookups\<close>

text \<open>The node with the greatest key at most \<open>v\<close> among the nodes of \<open>T\<close>, or \<open>best\<close>.\<close>

definition greatest_below :: "(nat \<Rightarrow> nat) \<Rightarrow> int \<Rightarrow> nat set \<Rightarrow> nat option \<Rightarrow> nat option \<Rightarrow> bool" where
  "greatest_below k v S best p \<longleftrightarrow>
     (if \<exists>a \<in> S. int (k a) \<le> v
      then (\<exists>a \<in> S. p = Some a \<and> int (k a) \<le> v \<and> (\<forall>b \<in> S. int (k b) \<le> v \<longrightarrow> k b \<le> k a))
      else p = best)"

definition least_above :: "(nat \<Rightarrow> nat) \<Rightarrow> int \<Rightarrow> nat set \<Rightarrow> nat option \<Rightarrow> nat option \<Rightarrow> bool" where
  "least_above k v S best p \<longleftrightarrow>
     (if \<exists>a \<in> S. v \<le> int (k a)
      then (\<exists>a \<in> S. p = Some a \<and> v \<le> int (k a) \<and> (\<forall>b \<in> S. v \<le> int (k b) \<longrightarrow> k a \<le> k b))
      else p = best)"

lemma ordered_NodeD:
  assumes "sorted_wrt (<) (map k (inorder (Node l a r)))"
  shows "sorted_wrt (<) (map k (inorder l))" "sorted_wrt (<) (map k (inorder r))"
    "\<And>b. b \<in> set_tree l \<Longrightarrow> k b < k a" "\<And>b. b \<in> set_tree r \<Longrightarrow> k a < k b"
  using assms by (auto simp: sorted_wrt_append)

lemma greatest_below_alt:
  "greatest_below k v S best p \<longleftrightarrow>
     (let C = {b \<in> S. int (k b) \<le> v} in
      if C = {} then p = best else (\<exists>a \<in> C. p = Some a \<and> (\<forall>b \<in> C. k b \<le> k a)))"
  by (auto simp: greatest_below_def Let_def)

lemma least_above_alt:
  "least_above k v S best p \<longleftrightarrow>
     (let C = {b \<in> S. v \<le> int (k b)} in
      if C = {} then p = best else (\<exists>a \<in> C. p = Some a \<and> (\<forall>b \<in> C. k a \<le> k b)))"
  by (auto simp: least_above_def Let_def)

text \<open>Going right below a key that is small enough; going left otherwise.\<close>

lemma greatest_below_right:
  assumes "greatest_below k v R (Some a) q" and "int (k a) \<le> v"
    and "\<And>b. b \<in> L \<Longrightarrow> k b < k a" and "\<And>b. b \<in> R \<Longrightarrow> k a < k b"
  shows "greatest_below k v (insert a (L \<union> R)) best q"
proof (cases "\<exists>b \<in> R. int (k b) \<le> v")
  case True
  with assms(1) obtain b where b: "b \<in> R" "q = Some b" "int (k b) \<le> v"
    and m: "\<forall>c \<in> R. int (k c) \<le> v \<longrightarrow> k c \<le> k b" by (auto simp: greatest_below_def)
  have "\<forall>c \<in> insert a (L \<union> R). int (k c) \<le> v \<longrightarrow> k c \<le> k b"
    using m assms(3) assms(4) [OF b(1)] less_imp_le less_trans by blast
  with b show ?thesis unfolding greatest_below_def by auto
next
  case False
  with assms(1) have q: "q = Some a" by (simp add: greatest_below_def)
  have "\<forall>c \<in> insert a (L \<union> R). int (k c) \<le> v \<longrightarrow> k c \<le> k a"
    using False assms(3) less_imp_le by blast
  with q assms(2) show ?thesis unfolding greatest_below_def by auto
qed

lemma greatest_below_left:
  assumes "greatest_below k v L best q" and "v < int (k a)"
    and "\<And>b. b \<in> R \<Longrightarrow> k a < k b"
  shows "greatest_below k v (insert a (L \<union> R)) best q"
proof -
  have "int (k c) \<le> v \<Longrightarrow> c \<in> insert a (L \<union> R) \<Longrightarrow> c \<in> L" for c
    using assms(2) assms(3) [of c] by auto
  then have "{b \<in> insert a (L \<union> R). int (k b) \<le> v} = {b \<in> L. int (k b) \<le> v}" by auto
  then show ?thesis using assms(1) unfolding greatest_below_alt by simp
qed

lemma least_above_left:
  assumes "least_above k v L (Some a) q" and "v \<le> int (k a)"
    and "\<And>b. b \<in> L \<Longrightarrow> k b < k a" and "\<And>b. b \<in> R \<Longrightarrow> k a < k b"
  shows "least_above k v (insert a (L \<union> R)) best q"
proof (cases "\<exists>b \<in> L. v \<le> int (k b)")
  case True
  with assms(1) obtain b where b: "b \<in> L" "q = Some b" "v \<le> int (k b)"
    and m: "\<forall>c \<in> L. v \<le> int (k c) \<longrightarrow> k b \<le> k c" by (auto simp: least_above_def)
  have "\<forall>c \<in> insert a (L \<union> R). v \<le> int (k c) \<longrightarrow> k b \<le> k c"
    using m assms(4) assms(3) [OF b(1)] less_imp_le less_trans by blast
  with b show ?thesis unfolding least_above_def by auto
next
  case False
  with assms(1) have q: "q = Some a" by (simp add: least_above_def)
  have "\<forall>c \<in> insert a (L \<union> R). v \<le> int (k c) \<longrightarrow> k a \<le> k c"
    using False assms(4) less_imp_le by blast
  with q assms(2) show ?thesis unfolding least_above_def by auto
qed

lemma least_above_right:
  assumes "least_above k v R best q" and "int (k a) < v"
    and "\<And>b. b \<in> L \<Longrightarrow> k b < k a"
  shows "least_above k v (insert a (L \<union> R)) best q"
proof -
  have "v \<le> int (k c) \<Longrightarrow> c \<in> insert a (L \<union> R) \<Longrightarrow> c \<in> R" for c
    using assms(2) assms(3) [of c] by auto
  then have "{b \<in> insert a (L \<union> R). v \<le> int (k b)} = {b \<in> R. v \<le> int (k b)}" by auto
  then show ?thesis using assms(1) unfolding least_above_alt by simp
qed

lemma below_loop_correct:
  assumes "tree_at (cells t) p T" and "height T < n"
    and "sorted_wrt (<) (map (key_at sv (cells t)) (inorder T))"
    and "\<And>a. a \<in> set_tree T \<Longrightarrow> key_at sv (cells t) a < 2 ^ 31"
  shows "\<exists>q. below_loop sv n v p best t = Inr (q, t) \<and>
    greatest_below (key_at sv (cells t)) v (set_tree T) best q"
  using assms
proof (induction T arbitrary: n p best)
  case Leaf
  then show ?case by (cases n) (auto simp: run_simps greatest_below_def)
next
  case (Node l a r)
  let ?k = "key_at sv (cells t)"
  from Node.prems(1) obtain nd where p: "p = Some a" and nd: "cells t a = Some nd"
    and l: "tree_at (cells t) (child0 nd) l" and r: "tree_at (cells t) (child1 nd) r"
    by (auto split: option.splits)
  from Node.prems(2) obtain m where n: "n = Suc m" and hl: "height l < m" and hr: "height r < m"
    by (cases n) auto
  note ord = ordered_NodeD [OF Node.prems(3)]
  have k: "?k a = sv (nvalue nd)" by (simp add: key_at_def nd)
  have c: "size_to_int (sv (nvalue nd)) = int (?k a)"
    using Node.prems(4) [of a] by (simp add: k)
  have dr: "deref p t = Inr (nd, t)" by (simp add: p nd run_simps)
  consider "v = int (?k a)" | "v > int (?k a)" | "v < int (?k a)" by linarith
  then show ?case
  proof cases
    case 1
    have "below_loop sv n v p best t = Inr (Some a, t)"
      using dr by (simp add: n run_simps c 1 p Let_def)
    moreover have "greatest_below ?k v (set_tree (Node l a r)) best (Some a)"
      using ord(3,4) by (force simp: greatest_below_def 1)
    ultimately show ?thesis by blast
  next
    case 2
    have e: "below_loop sv n v p best t = below_loop sv m v (child1 nd) p t"
      using dr 2 by (simp add: n run_simps c p Let_def)
    from Node.IH(2) [OF r hr ord(2) Node.prems(4), of p] obtain q where
      "below_loop sv m v (child1 nd) p t = Inr (q, t)" "greatest_below ?k v (set_tree r) p q" by auto
    moreover have "greatest_below ?k v (set_tree (Node l a r)) best q"
      using greatest_below_right [of ?k v "set_tree r" a q "set_tree l" best] 2 ord(3,4)
        \<open>greatest_below ?k v (set_tree r) p q\<close> by (simp add: p)
    ultimately show ?thesis by (simp add: e)
  next
    case 3
    have e: "below_loop sv n v p best t = below_loop sv m v (child0 nd) best t"
      using dr 3 by (simp add: n run_simps c p Let_def)
    from Node.IH(1) [OF l hl ord(1) Node.prems(4), of best] obtain q where
      "below_loop sv m v (child0 nd) best t = Inr (q, t)" "greatest_below ?k v (set_tree l) best q" by auto
    moreover have "greatest_below ?k v (set_tree (Node l a r)) best q"
      using greatest_below_left [of ?k v "set_tree l" best q a "set_tree r"] 3 ord(4)
        \<open>greatest_below ?k v (set_tree l) best q\<close> by simp
    ultimately show ?thesis by (simp add: e)
  qed
qed

lemma above_loop_correct:
  assumes "tree_at (cells t) p T" and "height T < n"
    and "sorted_wrt (<) (map (key_at sv (cells t)) (inorder T))"
    and "\<And>a. a \<in> set_tree T \<Longrightarrow> key_at sv (cells t) a < 2 ^ 31"
  shows "\<exists>q. above_loop sv n v p best t = Inr (q, t) \<and>
    least_above (key_at sv (cells t)) v (set_tree T) best q"
  using assms
proof (induction T arbitrary: n p best)
  case Leaf
  then show ?case by (cases n) (auto simp: run_simps least_above_def)
next
  case (Node l a r)
  let ?k = "key_at sv (cells t)"
  from Node.prems(1) obtain nd where p: "p = Some a" and nd: "cells t a = Some nd"
    and l: "tree_at (cells t) (child0 nd) l" and r: "tree_at (cells t) (child1 nd) r"
    by (auto split: option.splits)
  from Node.prems(2) obtain m where n: "n = Suc m" and hl: "height l < m" and hr: "height r < m"
    by (cases n) auto
  note ord = ordered_NodeD [OF Node.prems(3)]
  have k: "?k a = sv (nvalue nd)" by (simp add: key_at_def nd)
  have c: "size_to_int (sv (nvalue nd)) = int (?k a)"
    using Node.prems(4) [of a] by (simp add: k)
  have dr: "deref p t = Inr (nd, t)" by (simp add: p nd run_simps)
  consider "v = int (?k a)" | "v < int (?k a)" | "v > int (?k a)" by linarith
  then show ?case
  proof cases
    case 1
    have "above_loop sv n v p best t = Inr (Some a, t)"
      using dr by (simp add: n run_simps c 1 p Let_def)
    moreover have "least_above ?k v (set_tree (Node l a r)) best (Some a)"
      using ord(3,4) by (force simp: least_above_def 1)
    ultimately show ?thesis by blast
  next
    case 2
    have e: "above_loop sv n v p best t = above_loop sv m v (child0 nd) p t"
      using dr 2 by (simp add: n run_simps c p Let_def)
    from Node.IH(1) [OF l hl ord(1) Node.prems(4), of p] obtain q where
      "above_loop sv m v (child0 nd) p t = Inr (q, t)" "least_above ?k v (set_tree l) p q" by auto
    moreover have "least_above ?k v (set_tree (Node l a r)) best q"
      using least_above_left [of ?k v "set_tree l" a q "set_tree r" best] 2 ord(3,4)
        \<open>least_above ?k v (set_tree l) p q\<close> by (simp add: p)
    ultimately show ?thesis by (simp add: e)
  next
    case 3
    have e: "above_loop sv n v p best t = above_loop sv m v (child1 nd) best t"
      using dr 3 by (simp add: n run_simps c p Let_def)
    from Node.IH(2) [OF r hr ord(2) Node.prems(4), of best] obtain q where
      "above_loop sv m v (child1 nd) best t = Inr (q, t)" "least_above ?k v (set_tree r) best q" by auto
    moreover have "least_above ?k v (set_tree (Node l a r)) best q"
      using least_above_right [of ?k v "set_tree r" best q a "set_tree l"] 3 ord(3)
        \<open>least_above ?k v (set_tree r) best q\<close> by simp
    ultimately show ?thesis by (simp add: e)
  qed
qed

lemma findBelow_run:
  assumes "rb_tree t T" and "ordered sv t T"
  shows "\<exists>q. findBelow sv v t = Inr (q, t) \<and>
    greatest_below (key_at sv (cells t)) v (set_tree T) None q"
  using below_loop_correct [of t "head t" T "Suc (next_addr t)" sv v None] assms height_fuel [OF assms(1)]
  by (simp add: findBelow_def run_simps rb_tree_def ordered_def)

section \<open>Parent pointers\<close>

text \<open>
  \<open>no_parents\<close>: no node of the store has a parent. Every operation of the tree keeps it:
  the relation is a preorder, so the composition rules of \<open>state_preorder\<close> apply.
\<close>

definition no_parents :: "'v rbtree \<Rightarrow> bool" where
  "no_parents t \<longleftrightarrow> (\<forall>a nd. cells t a = Some nd \<longrightarrow> parent nd = None)"

definition keeps_np :: "'v rbtree \<Rightarrow> 'v rbtree \<Rightarrow> bool" where
  "keeps_np s t \<longleftrightarrow> (no_parents s \<longrightarrow> no_parents t)"

interpretation np: state_preorder "keeps_np :: 'v rbtree \<Rightarrow> 'v rbtree \<Rightarrow> bool"
  by unfold_locales (auto simp: keeps_np_def)

named_theorems np_intros

lemmas [np_intros] = np.pres_ret np.pres_fail np.pres_gets np.pres_lift np.pres_bind np.pres_seq np.pres_if

lemma np_modify [np_intros]:
  "(\<And>t. no_parents t \<Longrightarrow> no_parents (f t)) \<Longrightarrow> preserves keeps_np (modifyM f)"
  by (rule np.pres_modify) (simp add: keeps_np_def)

lemma np_deref [np_intros]: "preserves keeps_np (deref p)"
  by (cases p) (auto intro!: np_intros split: option.splits)

lemma np_upd_node:
  assumes "\<And>nd. parent (f nd) = parent nd"
  shows "preserves keeps_np (upd_node p f)"
proof (rule preservesI)
  fix s x t assume "upd_node p f s = Inr (x, t)"
  with assms show "keeps_np s t"
    by (cases p) (auto simp: upd_node_def run_simps keeps_np_def no_parents_def split: option.splits if_splits)
qed

lemma np_updates [np_intros]:
  "preserves keeps_np (set_col p c)" "preserves keeps_np (set_child p b q)"
  "preserves keeps_np (set_head p)" "preserves keeps_np (upd_node p (\<lambda>x. x\<lparr>nvalue := g x\<rparr>))"
  unfolding set_col_def set_child_def set_head_def
  by (intro np_upd_node np_intros; simp add: no_parents_def)+

lemma np_is_red [np_intros]: "preserves keeps_np (is_red q)"
  unfolding is_red_def by (intro np_intros)

lemma np_new [np_intros]: "preserves keeps_np (new_rbnode H v)"
  unfolding new_rbnode_def by (intro np_intros) (auto simp: no_parents_def)

lemma np_delete [np_intros]: "preserves keeps_np (delete_rbnode p)"
  unfolding delete_rbnode_def
  by (auto intro!: np_intros simp: no_parents_def split: option.splits)

lemma np_case_option [np_intros]:
  "preserves keeps_np m \<Longrightarrow> (\<And>x. preserves keeps_np (f x)) \<Longrightarrow>
   preserves keeps_np (case r of None \<Rightarrow> m | Some x \<Rightarrow> f x)"
  by (cases r) auto

lemma np_case_prod [np_intros]:
  "(\<And>a b. preserves keeps_np (f a b)) \<Longrightarrow> preserves keeps_np (case r of (a, b) \<Rightarrow> f a b)"
  by (cases r) auto

lemma np_let [np_intros]: "(\<And>x. preserves keeps_np (f x)) \<Longrightarrow> preserves keeps_np (Let v f)"
  by simp

lemma np_insert_walk [np_intros]: "preserves keeps_np (insert_walk sv n k par cur)"
  by (induction n arbitrary: par cur) (auto intro!: np_intros simp del: bindM_ret_left)

lemma np_recolour [np_intros]: "preserves keeps_np (recolour n par uncle gp)"
  by (induction n arbitrary: par uncle gp) (auto intro!: np_intros)

lemma np_rotate [np_intros]: "preserves keeps_np (rotate cur par gp pr)"
  unfolding rotate_def by (intro np_intros)

lemma np_insert: "preserves keeps_np (rb_insert H sv obj)"
  unfolding rb_insert_def by (intro np_intros)

lemma np_relink [np_intros]: "preserves keeps_np (relink gp par q)"
  unfolding relink_def by (intro np_intros)

lemma np_balance [np_intros]: "preserves keeps_np (balance_blacks n node ch)"
  by (induction n arbitrary: node ch) (simp only: balance_blacks.simps, intro np_intros | assumption)+

lemma np_min_walk [np_intros]: "preserves keeps_np (min_walk n c)"
  by (induction n arbitrary: c) (auto intro!: np_intros)

lemma np_remove: "preserves keeps_np (rb_remove p)"
  unfolding rb_remove_def by (intro np_intros)

section \<open>Insertion as a leaf\<close>

text \<open>The search for the place of a key, and the tree with a new leaf there.\<close>

fun walk_tree :: "(nat \<Rightarrow> nat) \<Rightarrow> nat \<Rightarrow> nat option \<Rightarrow> nat tree \<Rightarrow> nat option \<times> nat \<times> bool" where
  "walk_tree key k gp Leaf = (gp, 0, False)"
| "walk_tree key k gp (Node l a r) =
     (if key a < k then (if r = Leaf then (gp, a, True) else walk_tree key k (Some a) r)
      else (if l = Leaf then (gp, a, False) else walk_tree key k (Some a) l))"

fun ins_leaf :: "(nat \<Rightarrow> nat) \<Rightarrow> nat \<Rightarrow> nat \<Rightarrow> nat tree \<Rightarrow> nat tree" where
  "ins_leaf key k new Leaf = Node Leaf new Leaf"
| "ins_leaf key k new (Node l a r) =
     (if key a < k then Node l a (ins_leaf key k new r) else Node (ins_leaf key k new l) a r)"

lemma set_ins_leaf [simp]: "set_tree (ins_leaf key k new T) = insert new (set_tree T)"
  by (induction T) auto

lemma inorder_ins_leaf:
  assumes "sorted_wrt (<) (map key (inorder T))"
  shows "\<exists>xs ys. inorder T = xs @ ys \<and> inorder (ins_leaf key k new T) = xs @ new # ys \<and>
    (\<forall>x \<in> set xs. key x < k) \<and> (\<forall>y \<in> set ys. k \<le> key y)"
  using assms
proof (induction T)
  case Leaf
  then show ?case by simp
next
  case (Node l a r)
  note ord = ordered_NodeD [OF Node.prems]
  show ?case
  proof (cases "key a < k")
    case True
    from Node.IH(2) [OF ord(2)] obtain xs ys where
      "inorder r = xs @ ys" "inorder (ins_leaf key k new r) = xs @ new # ys"
      "\<forall>x \<in> set xs. key x < k" "\<forall>y \<in> set ys. k \<le> key y" by blast
    moreover have "\<forall>x \<in> set (inorder l). key x < k" using ord(3) True less_trans by fastforce
    ultimately show ?thesis using True by (intro exI [of _ "inorder l @ a # xs"] exI [of _ ys]) auto
  next
    case False
    from Node.IH(1) [OF ord(1)] obtain xs ys where
      "inorder l = xs @ ys" "inorder (ins_leaf key k new l) = xs @ new # ys"
      "\<forall>x \<in> set xs. key x < k" "\<forall>y \<in> set ys. k \<le> key y" by blast
    moreover have "\<forall>y \<in> set (inorder r). k \<le> key y" using ord(4) False by fastforce
    ultimately show ?thesis using False by (intro exI [of _ xs] exI [of _ "ys @ a # inorder r"]) auto
  qed
qed

lemma tree_at_cong:
  "(\<And>a. a \<in> set_tree T \<Longrightarrow> map_option (\<lambda>nd. (child0 nd, child1 nd)) (c a)
      = map_option (\<lambda>nd. (child0 nd, child1 nd)) (c' a)) \<Longrightarrow>
   tree_at c p T = tree_at c' p T"
proof (induction T arbitrary: p)
  case Leaf
  then show ?case by simp
next
  case (Node l a r)
  have "map_option (\<lambda>nd. (child0 nd, child1 nd)) (c a)
      = map_option (\<lambda>nd. (child0 nd, child1 nd)) (c' a)" using Node.prems by simp
  moreover have "tree_at c q l = tree_at c' q l" "tree_at c q r = tree_at c' q r" for q
    using Node by simp_all
  ultimately show ?case by (auto split: option.splits)
qed

lemma walk_tree_in: "T \<noteq> Leaf \<Longrightarrow> walk_tree key k gp T = (g, a, b) \<Longrightarrow> a \<in> set_tree T"
  by (induction T arbitrary: gp) (auto split: if_splits)

lemma walk_tree_gp: "T \<noteq> Leaf \<Longrightarrow> walk_tree key k gp T = (Some g, a, b) \<Longrightarrow>
   gp = Some g \<or> g \<in> set_tree T"
  by (induction T arbitrary: gp) (auto split: if_splits)

definition link :: "bool \<Rightarrow> nat \<Rightarrow> 'v rbnode \<Rightarrow> 'v rbnode" where
  "link b new nd = (if b then nd\<lparr>child1 := Some new\<rparr> else nd\<lparr>child0 := Some new\<rparr>)"

lemma tree_at_ins:
  assumes "tree_at c p T" and "T \<noteq> Leaf" and "distinct (inorder T)" and "new \<notin> set_tree T"
    and "walk_tree key k gp T = (g, a, b)" and "c a = Some nd"
    and "c' = c(new := Some lf, a := Some (link b new nd))"
    and "child0 lf = None" and "child1 lf = None"
  shows "tree_at c' p (ins_leaf key k new T)"
  using assms(1-6)
proof (induction T arbitrary: p gp)
  case Leaf
  then show ?case by simp
next
  case (Node l x r)
  from Node.prems(1) obtain xn where p: "p = Some x" and xn: "c x = Some xn"
    and l: "tree_at c (child0 xn) l" and r: "tree_at c (child1 xn) r"
    by (auto split: option.splits)
  have new: "new \<noteq> x" "new \<notin> set_tree l" "new \<notin> set_tree r" using Node.prems(4) by auto
  have d: "x \<notin> set_tree l" "x \<notin> set_tree r" "distinct (inorder l)" "distinct (inorder r)"
    "set_tree l \<inter> set_tree r = {}" using Node.prems(3) by auto
  have leaf: "tree_at c' (Some new) (Node Leaf new Leaf)" if "a \<noteq> new"
    using that assms(7-9) by simp
  have keep: "tree_at c' q S = tree_at c q S" if "a \<notin> set_tree S" "new \<notin> set_tree S" for q S
    using that assms(7) by (intro tree_at_cong) auto
  show ?case
  proof (cases "a = x")
    case True
    have "b \<Longrightarrow> r = Leaf \<and> key x < k" "\<not> b \<Longrightarrow> l = Leaf \<and> \<not> key x < k"
      using Node.prems(5) True d(1,2) walk_tree_in [of r key k "Some x" g a b]
        walk_tree_in [of l key k "Some x" g a b] by (auto split: if_splits)
    moreover have "c' x = Some (link b new xn)" using True Node.prems(6) xn assms(7) by simp
    moreover have "tree_at c' (child0 xn) l" "tree_at c' (child1 xn) r"
      using keep l r True d(1,2) new by simp_all
    ultimately show ?thesis using leaf True new p by (cases b) (auto simp: link_def)
  next
    case False
    have x': "c' x = Some xn" using False new(1) xn assms(7) by simp
    show ?thesis
    proof (cases "key x < k")
      case True
      with False Node.prems(5) have ne: "r \<noteq> Leaf" and w: "walk_tree key k (Some x) r = (g, a, b)"
        by (auto split: if_splits)
      have "a \<in> set_tree r" by (rule walk_tree_in [OF ne w])
      then have "tree_at c' (child0 xn) l" using keep l d(5) new by auto
      with Node.IH(2) [OF r ne d(4) new(3) w Node.prems(6)] True x' p show ?thesis by simp
    next
      case f: False
      with False Node.prems(5) have ne: "l \<noteq> Leaf" and w: "walk_tree key k (Some x) l = (g, a, b)"
        by (auto split: if_splits)
      have "a \<in> set_tree l" by (rule walk_tree_in [OF ne w])
      then have "tree_at c' (child1 xn) r" using keep r d(5) new by auto
      with Node.IH(1) [OF l ne d(3) new(2) w Node.prems(6)] f x' p show ?thesis by simp
    qed
  qed
qed

lemma insert_walk_run:
  assumes "tree_at (cells t) p T" and "T \<noteq> Leaf" and "height T \<le> n"
    and "walk_tree (key_at sv (cells t)) k gp T = (g, a, b)"
  shows "insert_walk sv n k gp p t = Inr ((g, Some a, b), t)"
  using assms
proof (induction T arbitrary: p n gp)
  case Leaf
  then show ?case by simp
next
  case (Node l x r)
  from Node.prems(1) obtain xn where p: "p = Some x" and xn: "cells t x = Some xn"
    and l: "tree_at (cells t) (child0 xn) l" and r: "tree_at (cells t) (child1 xn) r"
    by (auto split: option.splits)
  from Node.prems(3) obtain m where n: "n = Suc m" and hl: "height l \<le> m" and hr: "height r \<le> m"
    by (cases n) auto
  have k: "key_at sv (cells t) x = sv (nvalue xn)" by (simp add: key_at_def xn)
  have c0: "child0 xn = None \<longleftrightarrow> l = Leaf" using l by (cases l) auto
  have c1: "child1 xn = None \<longleftrightarrow> r = Leaf" using r by (cases r) auto
  show ?case
    using Node.prems(4) Node.IH(1) [OF l _ hl, of p] Node.IH(2) [OF r _ hr, of p] c0 c1
    by (auto simp: n p xn run_simps k child_def Let_def split: if_splits)
qed

lemma walk_tree_gp_in:
  "T \<noteq> Leaf \<Longrightarrow> distinct (inorder T) \<Longrightarrow> walk_tree key k gp T = (Some i, a, b) \<Longrightarrow>
   gp \<noteq> Some i \<Longrightarrow> i \<in> set_tree T \<and> i \<noteq> a"
proof (induction T arbitrary: gp)
  case Leaf
  then show ?case by simp
next
  case (Node l x r)
  have "x = i \<Longrightarrow> S \<noteq> Leaf \<Longrightarrow> walk_tree key k (Some x) S = (Some i, a, b) \<Longrightarrow> a \<in> set_tree S" for S
    using walk_tree_in [of S key k "Some x" "Some i" a b] by simp
  with Node show ?case by (cases "x = i") (auto split: if_splits)
qed

lemma walk_tree_root:
  "T \<noteq> Leaf \<Longrightarrow> distinct (inorder T) \<Longrightarrow> walk_tree key k gp T = (gp, a, b) \<Longrightarrow>
   (\<And>i. gp = Some i \<Longrightarrow> i \<notin> set_tree T) \<Longrightarrow> gp \<noteq> None \<Longrightarrow> \<exists>l r. T = Node l a r"
  by (cases T; cases gp)
    (auto split: if_splits dest: walk_tree_gp [of _ key k "Some _"] simp del: walk_tree.simps
      simp: walk_tree.simps(2))

lemma walk_tree_brother:
  assumes "tree_at c p T" and "T \<noteq> Leaf" and "distinct (inorder T)"
    and "walk_tree key k gp T = (Some i, a, b)" and "gp \<noteq> Some i" and "c i = Some gn"
    and "child (child1 gn \<noteq> Some a) gn = Some u" and "\<And>j. gp = Some j \<Longrightarrow> j \<notin> set_tree T"
  shows "u \<in> set_tree T \<and> u \<noteq> a \<and> u \<noteq> i \<and> i \<in> set_tree T \<and> i \<noteq> a"
  using assms
proof (induction T arbitrary: p gp)
  case Leaf
  then show ?case by simp
next
  case (Node l x r)
  from Node.prems(1) obtain xn where p: "p = Some x" and xn: "c x = Some xn"
    and l: "tree_at c (child0 xn) l" and r: "tree_at c (child1 xn) r"
    by (auto split: option.splits)
  have d: "x \<notin> set_tree l" "x \<notin> set_tree r" "distinct (inorder l)" "distinct (inorder r)"
    "set_tree l \<inter> set_tree r = {}" using Node.prems(3) by auto
  have rooted: "q = Some j \<Longrightarrow> tree_at c q S \<Longrightarrow> j \<in> set_tree S" for q j S by (cases S) auto
  show ?case
  proof (cases "key x < k")
    case True
    with Node.prems(4,5) have ne: "r \<noteq> Leaf" and w: "walk_tree key k (Some x) r = (Some i, a, b)"
      by (auto split: if_splits)
    note a = walk_tree_in [OF ne w]
    show ?thesis
    proof (cases "x = i")
      case xi: True
      with walk_tree_root [OF ne d(4), of key k "Some x" a b] w d(2) obtain l' r' where "r = Node l' a r'"
        by auto
      with r xi Node.prems(6,7) xn have "child0 xn = Some u" by (auto simp: child_def)
      from rooted [OF this l] a d xi show ?thesis by auto
    next
      case False
      with Node.IH(2) [OF r ne d(4) w _ Node.prems(6,7)] d(2) show ?thesis by auto
    qed
  next
    case f: False
    with Node.prems(4,5) have ne: "l \<noteq> Leaf" and w: "walk_tree key k (Some x) l = (Some i, a, b)"
      by (auto split: if_splits)
    note a = walk_tree_in [OF ne w]
    show ?thesis
    proof (cases "x = i")
      case xi: True
      with walk_tree_root [OF ne d(3), of key k "Some x" a b] w d(1) obtain l' r' where "l = Node l' a r'"
        by auto
      then have "child0 xn = Some a" using l by auto
      moreover have "child1 xn \<noteq> Some a" using rooted [OF _ r, of a] a d(5) by auto
      ultimately have "child1 xn = Some u" using xi Node.prems(6,7) xn by (auto simp: child_def)
      from rooted [OF this r] a d xi show ?thesis by auto
    next
      case False
      with Node.IH(1) [OF l ne d(3) w _ Node.prems(6,7)] d(1) show ?thesis by auto
    qed
  qed
qed

text \<open>
  The parent at which the search ends is black, or it has a red brother: then no rotation
  follows, and with no parent pointers the recolouring stops at the grandparent.
\<close>

definition no_rotation :: "'v rbtree \<Rightarrow> nat option \<Rightarrow> nat \<Rightarrow> bool" where
  "no_rotation t g a \<longleftrightarrow> (\<exists>nd. cells t a = Some nd \<and> (\<not> col nd \<or>
     (\<exists>i gn u un. g = Some i \<and> cells t i = Some gn \<and> child (child1 gn \<noteq> Some a) gn = Some u \<and>
        cells t u = Some un \<and> col un)))"

definition same_shape :: "'v rbtree \<Rightarrow> (nat \<Rightarrow> 'v rbnode option) \<Rightarrow> 'v rbtree \<Rightarrow> bool" where
  "same_shape t c t' \<longleftrightarrow> head t' = head t \<and> next_addr t' = Suc (next_addr t) \<and>
     (\<forall>a. map_option (\<lambda>nd. (nvalue nd, child0 nd, child1 nd)) (cells t' a)
        = map_option (\<lambda>nd. (nvalue nd, child0 nd, child1 nd)) (c a))"

lemma rb_insert_no_rotation:
  assumes "tree_at (cells t) (head t) T" and "T \<noteq> Leaf" and "height T \<le> next_addr t"
    and "walk_tree (key_at sv (cells t)) (sv obj) None T = (g, a, b)" and "no_rotation t g a"
    and "cells t a = Some nd" and "a < next_addr t" and "\<And>i. g = Some i \<Longrightarrow> i < next_addr t \<and> i \<noteq> a"
    and "\<And>i gn u. g = Some i \<Longrightarrow> cells t i = Some gn \<Longrightarrow>
      child (child1 gn \<noteq> Some a) gn = Some u \<Longrightarrow> u \<noteq> a \<and> u \<noteq> i \<and> u < next_addr t"
    and "no_parents t"
  shows "\<exists>t'. rb_insert H sv obj t = Inr (Some (next_addr t), t') \<and>
    same_shape t ((cells t)(next_addr t := Some \<lparr>nvalue = obj, col = True, child0 = None,
      child1 = None, parent = None\<rparr>, a := Some (link b (next_addr t) nd))) t'"
proof -
  obtain h where h: "head t = Some h" using assms(1,2) by (cases T) auto
  note walk = insert_walk_run [OF assms(1-4)]
  show ?thesis
  proof (cases "col nd")
    case False
    then show ?thesis using h walk assms(6,7)
      by (simp add: rb_insert_def run_simps new_rbnode_def set_child_def set_col_def upd_node_def
          same_shape_def link_def)
  next
    case True
    with assms(5,6) obtain i gn u un where g: "g = Some i" "cells t i = Some gn"
      and u: "child (child1 gn \<noteq> Some a) gn = Some u" "cells t u = Some un" "col un"
      by (auto simp: no_rotation_def)
    have gp: "parent gn = None" using assms(10) g(2) by (auto simp: no_parents_def)
    show ?thesis
      using h walk assms(6,7) assms(8) [OF g(1)] assms(9) [OF g u(1)] True g u gp
      by (cases b) (simp_all add: rb_insert_def run_simps new_rbnode_def set_child_def set_col_def
          upd_node_def same_shape_def link_def is_red_def)
  qed
qed

lemma same_shape_tree:
  assumes "same_shape t c t'"
  shows "tree_at (cells t') p T = tree_at c p T" and "key_at sv (cells t') = key_at sv c"
proof -
  have e: "map_option (\<lambda>nd. (nvalue nd, child0 nd, child1 nd)) (cells t' a)
      = map_option (\<lambda>nd. (nvalue nd, child0 nd, child1 nd)) (c a)" for a
    using assms by (simp add: same_shape_def)
  show "tree_at (cells t') p T = tree_at c p T"
  proof (rule tree_at_cong)
    fix a show "map_option (\<lambda>nd. (child0 nd, child1 nd)) (cells t' a)
      = map_option (\<lambda>nd. (child0 nd, child1 nd)) (c a)"
      using e [of a] by (cases "cells t' a"; cases "c a") auto
  qed
  show "key_at sv (cells t') = key_at sv c"
  proof
    fix a show "key_at sv (cells t') a = key_at sv c a"
      using e [of a] by (cases "cells t' a"; cases "c a") (auto simp: key_at_def)
  qed
qed

section \<open>Properties\<close>

text \<open>C12: On a search tree with keys below two to the 31, \<open>findBelow\<close> terminates, changes
  nothing, and returns the node with the greatest key at most the value searched for, or
  null when every key is greater.\<close>

theorem findBelow_correct:
  assumes "rb_tree t T" and "ordered sv t T"
  shows "\<exists>q. findBelow sv v t = Inr (q, t) \<and>
    (case q of
       None \<Rightarrow> \<forall>a \<in> set_tree T. v < int (key_at sv (cells t) a)
     | Some a \<Rightarrow> a \<in> set_tree T \<and> int (key_at sv (cells t) a) \<le> v \<and>
         (\<forall>b \<in> set_tree T. int (key_at sv (cells t) b) \<le> v \<longrightarrow>
            key_at sv (cells t) b \<le> key_at sv (cells t) a))"
proof -
  from findBelow_run [OF assms, of v] obtain q where q: "findBelow sv v t = Inr (q, t)"
    and g: "greatest_below (key_at sv (cells t)) v (set_tree T) None q" by blast
  show ?thesis by (rule exI [of _ q], insert q g)
    (cases q; auto simp: greatest_below_def not_le split: if_splits)
qed

text \<open>C13: Likewise \<open>findAbove\<close> returns the node with the least key at least the value, or
  null when every key is smaller.\<close>

theorem findAbove_correct:
  assumes "rb_tree t T" and "ordered sv t T"
  shows "\<exists>q. findAbove sv v t = Inr (q, t) \<and>
    (case q of
       None \<Rightarrow> \<forall>a \<in> set_tree T. int (key_at sv (cells t) a) < v
     | Some a \<Rightarrow> a \<in> set_tree T \<and> v \<le> int (key_at sv (cells t) a) \<and>
         (\<forall>b \<in> set_tree T. v \<le> int (key_at sv (cells t) b) \<longrightarrow>
            key_at sv (cells t) a \<le> key_at sv (cells t) b))"
proof -
  obtain q where q: "findAbove sv v t = Inr (q, t)"
    and g: "least_above (key_at sv (cells t)) v (set_tree T) None q"
    using above_loop_correct [of t "head t" T "Suc (next_addr t)" sv v None] assms height_fuel [OF assms(1)]
    by (auto simp: findAbove_def run_simps rb_tree_def ordered_def)
  show ?thesis by (rule exI [of _ q], insert q g)
    (cases q; auto simp: least_above_def not_le split: if_splits)
qed

text \<open>A search tree of two nodes, the keys themselves the values.\<close>

definition two_nodes :: "nat rbtree" where
  "two_nodes = \<lparr>head = Some 0,
     cells = [0 \<mapsto> \<lparr>nvalue = 4, col = False, child0 = None, child1 = Some 1, parent = None\<rparr>,
              1 \<mapsto> \<lparr>nvalue = 9, col = True, child0 = None, child1 = None, parent = None\<rparr>],
     next_addr = 2\<rparr>"

lemma two_nodes_tree:
  "rb_tree two_nodes (Node Leaf 0 (Node Leaf 1 Leaf))"
  "ordered id two_nodes (Node Leaf 0 (Node Leaf 1 Leaf))"
  by (simp_all add: rb_tree_def ordered_def two_nodes_def key_at_def)

lemma two_nodes_keys [simp]:
  "key_at id (cells two_nodes) 0 = 4" "key_at id (cells two_nodes) (Suc 0) = 9"
  by (simp_all add: key_at_def two_nodes_def)

theorem findBelow_correct_witness:
  "\<exists>q. findBelow id 6 two_nodes = Inr (q, two_nodes) \<and> q = Some 0"
proof -
  from findBelow_correct [OF two_nodes_tree, of 6] obtain q where q: "findBelow id 6 two_nodes = Inr (q, two_nodes)"
    and c: "case q of None \<Rightarrow> False | Some a \<Rightarrow> a \<in> {0, 1} \<and> int (key_at id (cells two_nodes) a) \<le> 6"
    by (fastforce split: option.splits)
  then have "q = Some 0" by (cases q) auto
  with q show ?thesis by simp
qed

theorem findAbove_correct_witness:
  "\<exists>q. findAbove id 6 two_nodes = Inr (q, two_nodes) \<and> q = Some 1"
proof -
  from findAbove_correct [OF two_nodes_tree, of 6] obtain q where q: "findAbove id 6 two_nodes = Inr (q, two_nodes)"
    and c: "case q of None \<Rightarrow> False | Some a \<Rightarrow> a \<in> {0, 1} \<and> 6 \<le> int (key_at id (cells two_nodes) a)"
    by (fastforce split: option.splits)
  then have "q = Some 1" by (cases q) auto
  with q show ?thesis by simp
qed

text \<open>A new key, inserted as a leaf, keeps the order of the keys.\<close>

lemma ordered_ins_leaf:
  assumes "sorted_wrt (<) (map k (inorder T))" and "distinct (inorder T)" and new: "n \<notin> set_tree T"
    and ne: "\<forall>a \<in> set_tree T. k a \<noteq> v"
  shows "distinct (inorder (ins_leaf k v n T))"
    and "sorted_wrt (<) (map (k(n := v)) (inorder (ins_leaf k v n T)))"
proof -
  from inorder_ins_leaf [of k T v n] assms(1) obtain xs ys where
    io: "inorder T = xs @ ys" "inorder (ins_leaf k v n T) = xs @ n # ys"
    and lo: "\<forall>x \<in> set xs. k x < v" and hi: "\<forall>y \<in> set ys. v \<le> k y"
    by auto
  have st: "set_tree T = set xs \<union> set ys"
    using arg_cong [OF io(1), of set] by (simp only: set_inorder set_append)
  have n: "n \<notin> set xs" "n \<notin> set ys" using new st by auto
  have hi': "v < k y" if "y \<in> set ys" for y using hi ne that unfolding st by (auto simp: order_less_le)
  have ks: "map (k(n := v)) zs = map k zs" if "n \<notin> set zs" for zs
    using that by (induction zs) auto
  show "distinct (inorder (ins_leaf k v n T))" using assms(2) io n by auto
  show "sorted_wrt (<) (map (k(n := v)) (inorder (ins_leaf k v n T)))"
    using assms(1) lo hi' io n by (auto simp: ks sorted_wrt_append)
qed

text \<open>What the insertion without a rotation leaves is the tree with the new leaf.\<close>

lemma insert_leaf_shape:
  assumes "rb_tree t T" and "T \<noteq> Leaf" and "no_parents t"
    and w: "walk_tree (key_at sv (cells t)) (sv obj) None T = (g, a, b)" and nr: "no_rotation t g a"
  obtains t' where "rb_insert H sv obj t = Inr (Some (next_addr t), t')"
    and "tree_at (cells t') (head t') (ins_leaf (key_at sv (cells t)) (sv obj) (next_addr t) T)"
    and "next_addr t' = Suc (next_addr t)"
    and "key_at sv (cells t') = (key_at sv (cells t))(next_addr t := sv obj)"
proof -
  let ?new = "next_addr t" and ?k = "key_at sv (cells t)"
  have ta: "tree_at (cells t) (head t) T" and di: "distinct (inorder T)"
    and lt: "\<And>x. x \<in> set_tree T \<Longrightarrow> x < ?new" using assms(1) by (auto simp: rb_tree_def)
  have new: "?new \<notin> set_tree T" using lt by blast
  have a: "a \<in> set_tree T" by (rule walk_tree_in [OF assms(2) w])
  obtain nd where nd: "cells t a = Some nd" using nr by (auto simp: no_rotation_def)
  let ?lf = "\<lparr>nvalue = obj, col = True, child0 = None, child1 = None, parent = None\<rparr>"
  let ?c = "(cells t)(?new := Some ?lf, a := Some (link b ?new nd))"
  have gp: "i < ?new \<and> i \<noteq> a" if "g = Some i" for i
    using walk_tree_gp_in [OF assms(2) di] w that lt by blast
  have br: "u \<noteq> a \<and> u \<noteq> i \<and> u < ?new"
    if "g = Some i" "cells t i = Some gn" "child (child1 gn \<noteq> Some a) gn = Some u" for i gn u
  proof -
    from w that(1) have w': "walk_tree ?k (sv obj) None T = (Some i, a, b)" by simp
    from walk_tree_brother [OF ta assms(2) di w' _ that(2,3)] lt show ?thesis by simp
  qed
  have "\<exists>t'. rb_insert H sv obj t = Inr (Some ?new, t') \<and> same_shape t ?c t'"
    by (rule rb_insert_no_rotation [OF ta assms(2) height_fuel [OF assms(1)] w nr nd lt [OF a] _ _ assms(3)])
      (fact gp, fact br)
  then obtain t' where t': "rb_insert H sv obj t = Inr (Some ?new, t')" and s: "same_shape t ?c t'"
    by blast
  have h: "head t' = head t" "next_addr t' = Suc ?new" using s by (simp_all add: same_shape_def)
  have "a \<noteq> ?new" using a new by blast
  then have "key_at sv (cells t') = ?k(?new := sv obj)"
    unfolding same_shape_tree(2) [OF s] using nd by (auto simp: key_at_def link_def)
  moreover have "tree_at (cells t') (head t') (ins_leaf ?k (sv obj) ?new T)"
    unfolding same_shape_tree(1) [OF s] h
    by (rule tree_at_ins [OF ta assms(2) di new w nd refl]) simp_all
  ultimately show thesis using that t' h(2) by blast
qed

text \<open>C14: Insertion of a new key where the parent at the end of the search is black or has a
  red brother: it succeeds and returns the new node, and the tree is the search tree with
  the new key as a leaf; no other node is lost or moved.\<close>

theorem insert_leaf_correct:
  assumes "rb_tree t T" and "ordered sv t T" and "T \<noteq> Leaf" and "no_parents t"
    and "sv obj < 2 ^ 31" and "\<forall>a \<in> set_tree T. key_at sv (cells t) a \<noteq> sv obj"
    and "walk_tree (key_at sv (cells t)) (sv obj) None T = (g, a, b)" and "no_rotation t g a"
  shows "\<exists>t' T'. rb_insert H sv obj t = Inr (Some (next_addr t), t') \<and> rb_tree t' T' \<and>
    ordered sv t' T' \<and> T' = ins_leaf (key_at sv (cells t)) (sv obj) (next_addr t) T \<and>
    key_at sv (cells t') = (key_at sv (cells t))(next_addr t := sv obj)"
proof -
  let ?T = "ins_leaf (key_at sv (cells t)) (sv obj) (next_addr t) T"
  from insert_leaf_shape [OF assms(1,3,4,7,8)] obtain t' where
    t': "rb_insert H sv obj t = Inr (Some (next_addr t), t')" and ta: "tree_at (cells t') (head t') ?T"
    and n: "next_addr t' = Suc (next_addr t)"
    and k: "key_at sv (cells t') = (key_at sv (cells t))(next_addr t := sv obj)" .
  have new: "next_addr t \<notin> set_tree T" and di: "distinct (inorder T)" and lt: "\<forall>x \<in> set_tree T. x < next_addr t"
    using assms(1) by (auto simp: rb_tree_def)
  note o = ordered_ins_leaf [OF _ di new assms(6)]
  have "rb_tree t' ?T" using ta lt n o(1) assms(2) by (auto simp: rb_tree_def ordered_def less_Suc_eq)
  moreover have "ordered sv t' ?T" using assms(2,5) o(2) by (auto simp: ordered_def k)
  ultimately show ?thesis using t' k by (intro exI [of _ t'] exI [of _ ?T] conjI refl)
qed

theorem insert_leaf_correct_witness:
  "\<exists>t' T'. rb_insert std_host id 2 two_nodes = Inr (Some 2, t') \<and> rb_tree t' T' \<and>
     T' = Node (Node Leaf 2 Leaf) 0 (Node Leaf 1 Leaf)"
proof -
  have w: "walk_tree (key_at id (cells two_nodes)) (id 2) None (Node Leaf 0 (Node Leaf 1 Leaf))
      = (None, 0, False)" by simp
  have n: "next_addr two_nodes = 2" by (simp add: two_nodes_def)
  have "no_parents two_nodes" "no_rotation two_nodes None 0"
    by (simp_all add: no_parents_def no_rotation_def two_nodes_def)
  from insert_leaf_correct [OF two_nodes_tree _ this(1) _ _ w this(2), of std_host]
  show ?thesis by (fastforce simp: n)
qed

text \<open>C38: No operation of the tree ever sets a parent pointer: on a store without any,
  insertion and removal leave none, so the tests of \<open>parent\<close> in the recolouring and the
  balancing always find the root.\<close>

theorem parents_never_set:
  assumes "no_parents s"
  shows "(rb_insert H sv obj s = Inr (p, t) \<longrightarrow> no_parents t) \<and>
    (rb_remove q s = Inr ((), t) \<longrightarrow> no_parents t)"
  using assms preservesD [OF np_insert, of H sv obj s p t] preservesD [OF np_remove, of q s "()" t]
  by (auto simp: keeps_np_def)

theorem parents_never_set_witness:
  "\<exists>p t. rb_insert std_host id 2 two_nodes = Inr (p, t) \<and> no_parents t"
proof -
  have n: "no_parents two_nodes" by (simp add: two_nodes_def no_parents_def)
  have "\<exists>p t. rb_insert std_host id 2 two_nodes = Inr (p, t)"
    by (simp add: rb_insert_def two_nodes_def run_simps new_rbnode_def set_col_def upd_node_def
        set_head_def eval_nat_numeral child_def set_child_def)
  then obtain p t where "rb_insert std_host id 2 two_nodes = Inr (p, t)" by blast
  with parents_never_set [OF n, of std_host id 2 p t None] show ?thesis by blast
qed

section \<open>Ascending insertions\<close>

text \<open>
  The store after \<open>n\<close> insertions, given by the cells; every node has no parent.
\<close>

abbreviation mk :: "'v \<Rightarrow> bool \<Rightarrow> nat option \<Rightarrow> nat option \<Rightarrow> 'v rbnode" where
  "mk v c l r \<equiv> \<lparr>nvalue = v, col = c, child0 = l, child1 = r, parent = None\<rparr>"

lemmas rb_run = rb_insert_def run_simps new_rbnode_def set_col_def upd_node_def set_head_def
  child_def set_child_def is_red_def rotate_def Let_def

fun insert_all :: "host \<Rightarrow> ('v \<Rightarrow> nat) \<Rightarrow> 'v list \<Rightarrow> ('v rbtree, unit) sm" where
  "insert_all H sv [] = ret ()"
| "insert_all H sv (v # vs) = seqM (rb_insert H sv v) (insert_all H sv vs)"

lemma insert_all_append: "insert_all H sv (vs @ ws) = seqM (insert_all H sv vs) (insert_all H sv ws)"
  by (induction vs) (simp_all add: seqM_def bindM_assoc)

lemma insert_three:
  assumes "sv a < sv b" and "sv b < sv c"
  shows "\<exists>cs. insert_all H sv [a, b, c] rbtree_empty = Inr ((), \<lparr>head = Some 1, cells = cs, next_addr = 3\<rparr>) \<and>
    cs 0 = Some (mk a True None None) \<and> cs 1 = Some (mk b False (Some 0) (Some 2)) \<and>
    cs 2 = Some (mk c (fresh_col H 2) None None)"
  using assms by (simp add: rbtree_empty_def rb_run eval_nat_numeral)

text \<open>C39: Five insertions in ascending order lose nodes, whatever the contents of
  uninitialized colours: after the fifth, the head is the fourth node, with the third and
  the fifth as its leaves, and the first two cannot be reached.\<close>

theorem ascending_inserts_lose_nodes:
  assumes "sv a < sv b" and "sv b < sv c" and "sv c < sv d" and "sv d < sv e"
  shows "\<exists>t. insert_all H sv [a, b, c, d, e] rbtree_empty = Inr ((), t) \<and>
    tree_at (cells t) (head t) (Node (Node Leaf 2 Leaf) 3 (Node Leaf 4 Leaf)) \<and>
    (\<exists>n0 n1. cells t 0 = Some n0 \<and> nvalue n0 = a \<and> cells t 1 = Some n1 \<and> nvalue n1 = b)"
proof -
  obtain cs where i: "insert_all H sv [a, b, c] rbtree_empty
      = Inr ((), \<lparr>head = Some 1, cells = cs, next_addr = 3\<rparr>)"
    and cs: "cs 0 = Some (mk a True None None)" "cs 1 = Some (mk b False (Some 0) (Some 2))"
      "cs 2 = Some (mk c (fresh_col H 2) None None)"
    using insert_three [where sv = sv, OF assms(1,2), of H] by blast
  have split: "insert_all H sv ([a, b, c] @ [d, e]) rbtree_empty =
      insert_all H sv [d, e] \<lparr>head = Some 1, cells = cs, next_addr = 3\<rparr>"
    by (simp only: insert_all_append run_seq i sum.case prod.case)
  have lt: "sv b < sv d" "sv b < sv e" "sv c < sv e" using assms by auto
  show ?thesis
  proof (cases "fresh_col H 2")
    case True
    then show ?thesis using split cs assms lt
      by (simp add: rb_run eval_nat_numeral)
  next
    case False
    then show ?thesis using split cs assms lt
      by (simp add: rb_run eval_nat_numeral)
  qed
qed

theorem ascending_inserts_lose_nodes_witness:
  "\<exists>t. insert_all std_host id [1, 2, 3, 4, 5] rbtree_empty = Inr ((), t) \<and>
    tree_at (cells t) (head t) (Node (Node Leaf 2 Leaf) 3 (Node Leaf 4 Leaf))"
  using ascending_inserts_lose_nodes [of id 1 2 3 4 5 std_host] by auto

end
