(* ===== verification/TagProps.thy ===== *)
theory TagProps
  imports MemTags RbTreeProps
begin

text \<open>
  The tags of a block. A run of objects of one type, written one after the other, is
  described by a single tag (\<open>uniform_tags\<close>), and writing one of them again changes
  nothing. A tag can never be removed: the program reads it after deleting it.
\<close>

section \<open>Runs of one type\<close>

definition run_tag :: "qtype \<Rightarrow> nat \<Rightarrow> nat \<Rightarrow> mem_tag" where
  "run_tag T len k = \<lparr>toffset = 0, ttype = T, tprev = None, tnext = None, typesize = len, tcount = k\<rparr>"

text \<open>The tags of a block that holds \<open>k\<close> objects of type \<open>T\<close> and size \<open>len\<close> from its start.\<close>

definition uniform_tags :: "qtype \<Rightarrow> nat \<Rightarrow> nat \<Rightarrow> tag_tree \<Rightarrow> bool" where
  "uniform_tags T len k t \<longleftrightarrow> 0 < k \<and> 0 < len \<and> k * len < 2 ^ 31 \<and> T \<noteq> RawType \<and>
     t = \<lparr>head = Some 0, cells = [0 \<mapsto> \<lparr>nvalue = run_tag T len k, col = False,
        child0 = None, child1 = None, parent = None\<rparr>], next_addr = 1\<rparr>"

lemmas tag_run = run_simps insert_tag_def rb_insert_def new_rbnode_def set_col_def upd_node_def
  set_head_def get_tag_def upd_tag_def mem_tag_new_def deal_with_end_def rbtree_empty_def Let_def

lemma findBelow_empty: "findBelow sv v rbtree_empty = Inr (None, rbtree_empty)"
  by (simp add: findBelow_def run_simps rbtree_empty_def)

lemma first_write:
  assumes "T \<noteq> RawType" and "0 < len" and "len < 2 ^ 31"
  shows "\<exists>t'. update_tag_write H T len 0 None rbtree_empty = Inr (Some 0, t') \<and> uniform_tags T len 1 t'"
  using assms
  by (simp add: update_tag_write_def findBelow_empty run_simps)
    (simp add: tag_run uniform_tags_def run_tag_def)

lemma findBelow_uniform:
  assumes "uniform_tags T len k t" and "off < 2 ^ 31"
  shows "findBelow sortval (size_to_int off) t = Inr (Some 0, t)"
  using assms
  by (auto simp: uniform_tags_def findBelow_def run_simps run_tag_def sortval_def size_to_int_id Let_def)

lemma mult_le_31: "i \<le> k \<Longrightarrow> k * len < 2 ^ 31 \<Longrightarrow> i * len < 2 ^ 31" for i k len :: nat
  by (meson le_less_trans mult_le_mono1)

lemma uniform_bounds:
  assumes "uniform_tags T len k t" and "i \<le> k"
  shows "i < 2 ^ 31" and "i * len < 2 ^ 31" and "i * len \<le> k * len"
proof -
  have b: "0 < len" "k * len < 2 ^ 31" using assms(1) by (auto simp: uniform_tags_def)
  show "i * len \<le> k * len" using assms(2) by simp
  with b(2) show l: "i * len < 2 ^ 31" by linarith
  have "i * 1 \<le> i * len" using b(1) by (intro mult_le_mono2) simp
  with l show "i < 2 ^ 31" by linarith
qed

lemma append_write:
  assumes "uniform_tags T len k t" and "Suc k * len < 2 ^ 31"
  shows "\<exists>t'. update_tag_write H T len (k * len) (Some 0) t = Inr (Some 0, t') \<and>
    uniform_tags T len (Suc k) t'"
proof -
  note b = uniform_bounds [OF assms(1) order_refl]
  note f = findBelow_uniform [OF assms(1) b(2)]
  have t: "t = \<lparr>head = Some 0, cells = [0 \<mapsto> \<lparr>nvalue = run_tag T len k, col = False,
        child0 = None, child1 = None, parent = None\<rparr>], next_addr = 1\<rparr>"
    and u: "0 < k" "0 < len" "T \<noteq> RawType" using assms(1) by (auto simp: uniform_tags_def)
  have "update_tag_write H T len (k * len) (Some 0) t = Inr (Some 0,
      \<lparr>head = Some 0, cells = [0 \<mapsto> \<lparr>nvalue = run_tag T len (Suc k), col = False,
        child0 = None, child1 = None, parent = None\<rparr>], next_addr = 1\<rparr>)"
    using b f u by (simp add: update_tag_write_def t run_tag_def tag_run)
  then show ?thesis using u assms(2) by (simp add: uniform_tags_def)
qed

lemma inside_write:
  assumes "uniform_tags T len k t" and "i < k"
  shows "update_tag_write H T len (i * len) (Some 0) t = Inr (Some 0, t)"
proof -
  note b = uniform_bounds [OF assms(1) order_refl]
  note c = uniform_bounds [OF assms(1) less_imp_le [OF assms(2)]]
  note f = findBelow_uniform [OF assms(1) c(2)]
  have t: "t = \<lparr>head = Some 0, cells = [0 \<mapsto> \<lparr>nvalue = run_tag T len k, col = False,
        child0 = None, child1 = None, parent = None\<rparr>], next_addr = 1\<rparr>"
    and u: "0 < len" "T \<noteq> RawType" using assms(1) by (auto simp: uniform_tags_def)
  have "i * len div len = i" "i * len < k * len" using u assms(2) by auto
  moreover have "i * len < 2 ^ 64" "k * len < 2 ^ 64" using b(2) c(2) by simp_all
  then have "sz_sub (i * len) 0 = i * len" "sz_sub (i * len) (i * len) = 0" "sz (k * len) = k * len"
    using sz_sub_id [of 0 "i * len"] sz_sub_id [of "i * len" "i * len"] by simp_all
  ultimately show ?thesis using f u
    by (simp add: update_tag_write_def t run_tag_def tag_run tag_write_inside_def)
qed

section \<open>Tags are never removed\<close>

lemma delete_rbnode_gone:
  "delete_rbnode (Some a) s = Inr (x, t) \<Longrightarrow> cells t a = None"
  by (auto simp: delete_rbnode_def run_simps split: option.splits sum.splits)

lemma deref_Inr: "deref p s = Inr (x, t) \<longleftrightarrow> t = s \<and> (\<exists>a. p = Some a \<and> cells s a = Some x)"
  by (cases p) (auto simp: run_simps split: option.splits)

lemma drop_tag_fails: "drop_tag p s \<noteq> Inr (r, t)"
proof
  assume d: "drop_tag p s = Inr (r, t)"
  show False
  proof (cases p)
    case None
    with d show False by (simp add: drop_tag_def rb_remove_def run_simps)
  next
    case (Some a)
    with d obtain u v r' where "delete_rbnode (Some a) u = Inr ((), v)"
      and g: "get_tag (Some a) v = Inr r'"
      by (auto simp: drop_tag_def run_simps split: sum.splits prod.splits)
    then have "cells v a = None" by (blast intro: delete_rbnode_gone)
    with g show False by (simp add: get_tag_def run_simps)
  qed
qed

section \<open>Properties\<close>

text \<open>The tags after the objects \<open>0, ..., k - 1\<close> of a run are written in order.\<close>

fun write_run :: "host \<Rightarrow> qtype \<Rightarrow> nat \<Rightarrow> nat \<Rightarrow> nat option \<Rightarrow> (tag_tree, nat option) sm" where
  "write_run H T len 0 ft = ret ft"
| "write_run H T len (Suc k) ft =
     bindM (write_run H T len k ft) (\<lambda>ft'. update_tag_write H T len (k * len) ft')"

text \<open>C15: Filling an empty block with \<open>k\<close> objects of one type, one after the other, where the type
  is not that of raw bytes, the objects have at least one byte and all of them together less
  than 2 GB (\<open>findBelow\<close> takes the offset as an \<open>int\<close>), succeeds and describes them by a single
  tag that counts them; writing any of them again with the same type leaves the tags as they
  are.\<close>

theorem sequential_writes:
  assumes "T \<noteq> RawType" and "0 < len" and "0 < k" and "k * len < 2 ^ 31"
  shows "\<exists>t. write_run H T len k None rbtree_empty = Inr (Some 0, t) \<and> uniform_tags T len k t \<and>
    (\<forall>i. i < k \<longrightarrow> update_tag_write H T len (i * len) (Some 0) t = Inr (Some 0, t))"
proof -
  have "\<exists>t. write_run H T len k None rbtree_empty = Inr (Some 0, t) \<and> uniform_tags T len k t"
    using assms(3,4)
  proof (induction k)
    case 0
    then show ?case by simp
  next
    case (Suc k)
    show ?case
    proof (cases "k = 0")
      case True
      with first_write [OF assms(1,2), of H] Suc.prems show ?thesis by (simp add: run_simps)
    next
      case False
      with Suc obtain t where t: "write_run H T len k None rbtree_empty = Inr (Some 0, t)"
        and u: "uniform_tags T len k t" by auto
      from append_write [OF u Suc.prems(2), of H] t show ?thesis by (auto simp: run_simps)
    qed
  qed
  then show ?thesis using inside_write by blast
qed

theorem sequential_writes_witness:
  "\<exists>t. write_run std_host IntType 8 100 None rbtree_empty = Inr (Some 0, t) \<and>
     uniform_tags IntType 8 100 t"
  using sequential_writes [of IntType 8 100 std_host] by auto

text \<open>C40: The loop of \<open>deal_with_end\<close> returns only if it removes no tag: at its first tag it
  stops, because there is none; because the tag starts at or after the end of the write and is
  not to be merged (it starts later, or has another type), and then only its link back is set;
  or because it starts before the end and extends past it. For a tag to merge with and for a
  tag that the write covers, the model ends with an error: the C++ program deletes the tag and
  then reads its \<open>next\<close>, which is undefined behaviour.\<close>

theorem deal_loop_never_removes:
  assumes "deal_loop H n extended affected endpos s = Inr (r, t)"
  shows "r = affected \<and> (case affected of
       None \<Rightarrow> t = s
     | Some a \<Rightarrow> (\<exists>nd. cells s a = Some nd \<and>
         ((\<exists>e ne. endpos \<le> toffset (nvalue nd) \<and> extended = Some e \<and> cells s e = Some ne \<and>
             (toffset (nvalue nd) \<noteq> endpos \<or> ttype (nvalue ne) \<noteq> ttype (nvalue nd)) \<and>
             t = s\<lparr>cells := (cells s)(a \<mapsto> nd\<lparr>nvalue := (nvalue nd)\<lparr>tprev := extended\<rparr>\<rparr>)\<rparr>) \<or>
          (toffset (nvalue nd) < endpos \<and>
             endpos < sz (toffset (nvalue nd) + typesize (nvalue nd) * tcount (nvalue nd))))))"
proof -
  have stuck: "bindM (drop_tag p) f u \<noteq> Inr x" for p and f :: "nat option \<Rightarrow> (tag_tree, nat option) sm" and u x
    using drop_tag_fails by (auto simp: run_simps split: sum.splits)
  obtain m where n: "n = Suc m" using assms by (cases n) (auto simp: run_simps)
  show ?thesis
  proof (cases affected)
    case None
    with assms show ?thesis by (simp add: n run_simps)
  next
    case (Some a)
    with assms obtain nd where nd: "cells s a = Some nd"
      by (auto simp: n run_simps get_tag_def split: option.splits)
    with assms stuck Some show ?thesis
      by (auto simp: n run_simps get_tag_def upd_tag_def upd_node_def deref_Inr
          split: option.splits sum.splits if_splits dest!: drop_tag_fails [THEN notE])
  qed
qed

text \<open>Two tags, of 4 bytes at 0 and of 8 bytes at 8.\<close>

definition two_tags :: tag_tree where
  "two_tags = \<lparr>head = Some 0,
     cells = [0 \<mapsto> \<lparr>nvalue = run_tag CharType 4 1, col = False, child0 = None, child1 = Some 1, parent = None\<rparr>,
              1 \<mapsto> \<lparr>nvalue = (run_tag IntType 8 1)\<lparr>toffset := 8\<rparr>, col = True,
                    child0 = None, child1 = None, parent = None\<rparr>],
     next_addr = 2\<rparr>"

theorem deal_loop_never_removes_witness:
  "\<exists>t. deal_loop std_host 1 (Some 0) (Some 1) 4 two_tags = Inr (Some 1, t) \<and>
     t = two_tags\<lparr>cells := (cells two_tags)(1 \<mapsto> (the (cells two_tags 1))
       \<lparr>nvalue := (nvalue (the (cells two_tags 1)))\<lparr>tprev := Some 0\<rparr>\<rparr>)\<rparr>"
proof -
  have "\<exists>t. deal_loop std_host (Suc 0) (Some 0) (Some 1) 4 two_tags = Inr (Some 1, t)"
    by (simp add: two_tags_def tag_run run_tag_def)
  then obtain t where t: "deal_loop std_host 1 (Some 0) (Some 1) 4 two_tags = Inr (Some 1, t)"
    by auto
  from deal_loop_never_removes [OF t] t show ?thesis
    by (auto simp: two_tags_def run_tag_def)
qed

end
