(* ===== verification/MemoryProps.thy ===== *)
theory MemoryProps
  imports Casts TagProps
begin

text \<open>
  Correctness of the memory blocks: the invariant of \<open>active_mem\<close> and of the id counter
  (\<open>mem_inv\<close>), the relation \<open>mem_ext\<close> between an earlier and a later memory that every
  operation keeps, and what \<open>write\<close> does to the block it writes and to all others.
\<close>

section \<open>The invariant\<close>

text \<open>The number of ids handed out; the counter is 0 when they are used up.\<close>

definition next_id :: "emu_state \<Rightarrow> nat" where
  "next_id s = (if id_counter s = 0 then 2 ^ 32 else unat (id_counter s))"

definition block_ok :: "mem_block \<Rightarrow> bool" where
  "block_ok b \<longleftrightarrow> (case bdata b of None \<Rightarrow> memtype b = MEM_TYPE_FREED
     | Some d \<Rightarrow> length d = bsize b \<and> memtype b \<noteq> MEM_TYPE_FREED)"

definition mem_inv :: "emu_state \<Rightarrow> bool" where
  "mem_inv s \<longleftrightarrow> 3 \<le> next_id s \<and> (\<forall>i b. active_mem s i = Some b \<longrightarrow>
     bid b = i \<and> 3 \<le> unat i \<and> unat i < next_id s \<and> block_ok b)"

text \<open>
  From \<open>s\<close> to a later \<open>t\<close>: ids are not reused, blocks keep their size, a freed block
  stays freed and a deleted one deleted.
\<close>

definition older :: "emu_state \<Rightarrow> u32 \<Rightarrow> mem_block \<Rightarrow> bool" where
  "older s i b' \<longleftrightarrow> (\<exists>b. active_mem s i = Some b \<and> bsize b' = bsize b \<and>
     (memtype b = MEM_TYPE_FREED \<longrightarrow> memtype b' = MEM_TYPE_FREED))"

definition mem_ext :: "emu_state \<Rightarrow> emu_state \<Rightarrow> bool" where
  "mem_ext s t \<longleftrightarrow> (mem_inv s \<longrightarrow> mem_inv t \<and> next_id s \<le> next_id t \<and>
     (\<forall>i b'. unat i < next_id s \<longrightarrow> active_mem t i = Some b' \<longrightarrow> older s i b'))"

interpretation mx: state_preorder mem_ext
proof
  show "mem_ext s s" for s by (auto simp: mem_ext_def older_def)
  fix s t u assume st: "mem_ext s t" and tu: "mem_ext t u"
  have "older s i b" if "older t i b" and "\<forall>b'. active_mem t i = Some b' \<longrightarrow> older s i b'" for i b
    using that by (auto simp: older_def)
  with st tu show "mem_ext s u" unfolding mem_ext_def by (meson le_trans less_le_trans)
qed

lemma mem_inv_init: "mem_inv init_state"
  by (simp add: mem_inv_def init_state_def next_id_def block_id_defs)

lemma mem_invD:
  "mem_inv s \<Longrightarrow> active_mem s i = Some b \<Longrightarrow> bid b = i"
  "mem_inv s \<Longrightarrow> active_mem s i = Some b \<Longrightarrow> 3 \<le> unat i"
  "mem_inv s \<Longrightarrow> active_mem s i = Some b \<Longrightarrow> unat i < next_id s"
  "mem_inv s \<Longrightarrow> active_mem s i = Some b \<Longrightarrow> block_ok b"
  by (auto simp: mem_inv_def)

text \<open>The memory relation looks at the blocks and the counter only.\<close>

lemma mem_ext_cong:
  "active_mem t = active_mem s \<Longrightarrow> id_counter t = id_counter s \<Longrightarrow> mem_ext s t"
  by (auto simp: mem_ext_def mem_inv_def next_id_def older_def)

section \<open>Running the primitives\<close>

lemma get_block_Inr:
  "get_block p s = Inr (b, t) \<longleftrightarrow> t = s \<and> (\<exists>i. p = BlkPtr i \<and> active_mem s i = Some b)"
  by (cases p) (auto simp: run_simps split: option.splits)

lemma block_data_Inr: "block_data b s = Inr (d, t) \<longleftrightarrow> t = s \<and> bdata b = Some d"
  by (auto simp: block_data_def run_simps split: option.splits)

lemma new_block_id_run:
  "new_block_id s = (if id_counter s = 0 then Inl (ErrExit ''Too many allocations'')
     else Inr (id_counter s, s\<lparr>id_counter := id_counter s + 1\<rparr>))"
  by (simp add: new_block_id_def run_simps)

definition fresh_block :: "host \<Rightarrow> u32 \<Rightarrow> mem_type_t \<Rightarrow> nat \<Rightarrow> mem_block" where
  "fresh_block H i t n = \<lparr>bid = i, bsize = n, memtype = t,
     bdata = Some (map (fresh_byte H i) [0..<n]), firsttag = None, tags = rbtree_empty\<rparr>"

lemma block_of_size_run:
  "block_of_size H t n s =
     (if id_counter s = 0 then Inl (ErrExit ''Too many allocations'')
      else if n > PTRDIFF_MAX then Inl BadAlloc
      else Inr (BlkPtr (id_counter s), s\<lparr>id_counter := id_counter s + 1,
        active_mem := (active_mem s)(id_counter s := Some (fresh_block H (id_counter s) t n))\<rparr>))"
  by (simp add: block_of_size_def new_block_id_run put_block_def run_simps fresh_block_def)

lemma store_bytes_Inr:
  "store_bytes b off bs s = Inr (x, t) \<longleftrightarrow>
     (\<exists>d. bdata b = Some d \<and> off + length bs \<le> length d \<and>
        t = s\<lparr>active_mem := (active_mem s)(bid b := Some (b\<lparr>bdata := Some (store_at d off bs)\<rparr>))\<rparr>)"
  by (auto simp: store_bytes_def run_simps block_data_def put_block_def split: option.splits)

lemma block_free_Inr:
  "block_free p s = Inr (x, t) \<longleftrightarrow>
     (\<exists>i b. p = BlkPtr i \<and> active_mem s i = Some b \<and> bdata b \<noteq> None \<and>
        t = s\<lparr>active_mem := (active_mem s)(bid b := Some (b\<lparr>memtype := MEM_TYPE_FREED, bdata := None\<rparr>))\<rparr>)"
  by (cases p) (auto simp: block_free_def run_simps block_data_def put_block_def split: option.splits)

lemma block_delete_Inr:
  "block_delete p s = Inr (x, t) \<longleftrightarrow>
     (p = NullBlk \<and> t = s) \<or>
     (\<exists>i b. p = BlkPtr i \<and> active_mem s i = Some b \<and> bdata b \<noteq> None \<and>
        t = s\<lparr>active_mem := (active_mem s)(bid b := None)\<rparr>)"
  by (cases p) (auto simp: block_delete_def run_simps block_data_def split: option.splits)

lemma next_id_new:
  "id_counter s \<noteq> 0 \<Longrightarrow> next_id (s\<lparr>id_counter := id_counter s + 1, active_mem := m\<rparr>) = Suc (unat (id_counter s))"
proof -
  assume "id_counter s \<noteq> 0"
  show ?thesis
  proof (cases "id_counter s + 1 = 0")
    case True
    then have "id_counter s = - 1" by (metis add_eq_0_iff2 add.commute)
    then show ?thesis by (simp add: next_id_def unsigned_minus_1_eq_mask mask_eq_exp_minus_1)
  next
    case False
    then have "unat (id_counter s + 1) = Suc (unat (id_counter s))"
      by (simp add: unatSuc add.commute)
    with False show ?thesis by (simp add: next_id_def)
  qed
qed

lemma mx_block_of_size: "t \<noteq> MEM_TYPE_FREED \<Longrightarrow> preserves mem_ext (block_of_size H t n)"
proof (rule preservesI)
  fix s x u assume t: "t \<noteq> MEM_TYPE_FREED" and r: "block_of_size H t n s = Inr (x, u)"
  then have nz: "id_counter s \<noteq> 0"
    and u: "u = s\<lparr>id_counter := id_counter s + 1,
        active_mem := (active_mem s)(id_counter s := Some (fresh_block H (id_counter s) t n))\<rparr>"
    by (auto simp: block_of_size_run split: if_splits)
  have n: "next_id s = unat (id_counter s)" "next_id u = Suc (unat (id_counter s))"
    using nz next_id_new [OF nz] by (simp_all add: u) (simp add: next_id_def)
  have "block_ok (fresh_block H (id_counter s) t n)"
    using t by (simp add: block_ok_def fresh_block_def)
  then show "mem_ext s u"
    unfolding mem_ext_def mem_inv_def n
    by (auto simp: u n older_def fresh_block_def le_Suc_eq less_Suc_eq split: if_splits)
qed

text \<open>Replacing a block by one of the same id and size.\<close>

lemma mem_ext_put:
  assumes "active_mem s i = Some b" and "bid b' = i" and "bsize b' = bsize b" and "block_ok b'"
    and "memtype b = MEM_TYPE_FREED \<Longrightarrow> memtype b' = MEM_TYPE_FREED"
  shows "mem_ext s (s\<lparr>active_mem := (active_mem s)(i := Some b')\<rparr>)"
  using assms by (auto simp: mem_ext_def mem_inv_def next_id_def older_def split: if_splits)

section \<open>What the operations on blocks do\<close>

text \<open>A write that returns: where it went, and the state after it.\<close>

lemma block_writeE:
  assumes "block_write H p v off s = Inr (x, t)"
  obtains i b d n bs ft tt where "p = BlkPtr i" and "active_mem s i = Some b" and "bdata b = Some d"
    and "emu_size v = Inr n" and "dump_repr H v = Inr bs" and "off \<le> bsize b" and "n \<le> bsize b - off"
    and "off + length bs \<le> length d"
    and "bid b = i \<Longrightarrow> update_tag_write H (obj_type H v) n off (firsttag b) (tags b) = Inr (ft, tt)"
    and "bid b = i \<Longrightarrow> t = s\<lparr>active_mem := (active_mem s)(i :=
        Some (b\<lparr>bdata := Some (store_at d off bs), firsttag := ft, tags := tt\<rparr>))\<rparr>"
proof -
  from assms obtain i b where p: "p = BlkPtr i" and b: "active_mem s i = Some b"
    by (cases p) (auto simp: block_write_def run_simps split: option.splits)
  from assms obtain n bs where n: "emu_size v = Inr n" "off \<le> bsize b" "n \<le> bsize b - off"
    and bs: "dump_repr H v = Inr bs"
    by (auto simp: block_write_def p b run_simps Let_def split: sum.splits if_splits)
  from assms obtain u where u: "store_bytes b off bs s = Inr ((), u)"
    by (auto simp: block_write_def p b n bs run_simps Let_def split: sum.splits if_splits)
  then obtain d where d: "bdata b = Some d" "off + length bs \<le> length d"
    "u = s\<lparr>active_mem := (active_mem s)(bid b := Some (b\<lparr>bdata := Some (store_at d off bs)\<rparr>))\<rparr>"
    by (auto simp: store_bytes_Inr)
  show ?thesis
  proof (cases "bid b = i")
    case True
    with assms show ?thesis
      using that [OF p b d(1) n(1) bs n(2,3) d(2)]
      by (auto simp: block_write_def p b n bs u d(3) run_simps Let_def run_tags_def put_block_def
          split: sum.splits if_splits)
  next
    case False
    with that [OF p b d(1) n(1) bs n(2,3) d(2)] show ?thesis by blast
  qed
qed

lemma block_write_run:
  assumes "active_mem s i = Some b" and "bid b = i" and "bdata b = Some d"
    and "emu_size v = Inr n" and "dump_repr H v = Inr bs" and "off \<le> bsize b" and "n \<le> bsize b - off"
    and "off + length bs \<le> length d"
    and "update_tag_write H (obj_type H v) n off (firsttag b) (tags b) = Inr (ft, tt)"
  shows "block_write H (BlkPtr i) v off s = Inr ((), s\<lparr>active_mem := (active_mem s)(i :=
        Some (b\<lparr>bdata := Some (store_at d off bs), firsttag := ft, tags := tt\<rparr>))\<rparr>)"
proof -
  have u: "store_bytes b off bs s
      = Inr ((), s\<lparr>active_mem := (active_mem s)(i := Some (b\<lparr>bdata := Some (store_at d off bs)\<rparr>))\<rparr>)"
    using assms(2,3,8) by (simp add: store_bytes_Inr)
  show ?thesis using assms
    by (simp add: block_write_def run_simps u Let_def run_tags_def put_block_def)
qed

text \<open>A new block for a value holds its bytes, under one tag.\<close>

lemma block_of_value_run:
  assumes "emu_size v = Inr n" and "dump_repr H v = Inr bs" and "length bs = n" and "0 < n" and "n < 2 ^ 31"
    and "obj_type H v \<noteq> RawType" and "id_counter s \<noteq> 0"
  obtains b where "block_of_value H t v s = Inr (BlkPtr (id_counter s),
      s\<lparr>id_counter := id_counter s + 1, active_mem := (active_mem s)(id_counter s := Some b)\<rparr>)"
    and "bid b = id_counter s" and "memtype b = t" and "bsize b = n" and "bdata b = Some bs"
    and "firsttag b = Some 0" and "uniform_tags (obj_type H v) n 1 (tags b)"
proof -
  let ?i = "id_counter s"
  let ?f = "fresh_block H ?i t n"
  let ?u = "s\<lparr>id_counter := ?i + 1, active_mem := (active_mem s)(?i := Some ?f)\<rparr>"
  obtain tt where tt: "update_tag_write H (obj_type H v) n 0 None rbtree_empty = Inr (Some 0, tt)"
    and un: "uniform_tags (obj_type H v) n 1 tt" using first_write [OF assms(6,4,5), of H] by blast
  have d: "store_at (map (fresh_byte H ?i) [0..<n]) 0 bs = bs" using assms(3) by (simp add: store_at_def)
  let ?b = "?f\<lparr>bdata := Some bs, firsttag := Some 0, tags := tt\<rparr>"
  have "block_write H (BlkPtr ?i) v 0 ?u = Inr ((), ?u\<lparr>active_mem := (active_mem ?u)(?i :=
      Some (?f\<lparr>bdata := Some (store_at (map (fresh_byte H ?i) [0..<n]) 0 bs), firsttag := Some 0, tags := tt\<rparr>))\<rparr>)"
    by (rule block_write_run [OF _ _ _ assms(1,2)]) (use assms(3) tt in \<open>simp_all add: fresh_block_def\<close>)
  then have "block_of_value H t v s = Inr (BlkPtr ?i,
      s\<lparr>id_counter := ?i + 1, active_mem := (active_mem s)(?i := Some ?b)\<rparr>)"
    using assms(1,5,7) unfolding d
    by (simp add: block_of_value_def run_simps block_of_size_run PTRDIFF_MAX_def)
  then show thesis by (rule that) (use un in \<open>simp_all add: fresh_block_def\<close>)
qed

lemma block_ok_store:
  "block_ok b \<Longrightarrow> bdata b = Some d \<Longrightarrow> off + length bs \<le> length d \<Longrightarrow>
   block_ok (b\<lparr>bdata := Some (store_at d off bs), firsttag := ft, tags := tt\<rparr>)"
  by (simp add: block_ok_def)

lemma mx_block_write: "preserves mem_ext (block_write H p v off)"
proof (rule preservesI)
  fix s x t assume w: "block_write H p v off s = Inr (x, t)"
  show "mem_ext s t"
  proof (cases "mem_inv s")
    case True
    from w show ?thesis
    proof (rule block_writeE)
      fix i b d n bs ft tt
      assume b: "active_mem s i = Some b" "bdata b = Some d" "off + length bs \<le> length d"
        and t: "bid b = i \<Longrightarrow> t = s\<lparr>active_mem := (active_mem s)(i :=
          Some (b\<lparr>bdata := Some (store_at d off bs), firsttag := ft, tags := tt\<rparr>))\<rparr>"
      note inv = mem_invD [OF True b(1)]
      show "mem_ext s t" unfolding t [OF inv(1)]
        by (rule mem_ext_put [OF b(1)]) (use inv block_ok_store [OF inv(4) b(2,3)] in simp_all)
    qed
  qed (simp add: mem_ext_def)
qed

lemma mx_store_bytes:
  assumes "active_mem s i = Some b" and "store_bytes b off bs s = Inr (x, t)"
  shows "mem_ext s t"
proof (cases "mem_inv s")
  case True
  note inv = mem_invD [OF True assms(1)]
  from assms(2) obtain d where d: "bdata b = Some d" "off + length bs \<le> length d"
    and t: "t = s\<lparr>active_mem := (active_mem s)(i := Some (b\<lparr>bdata := Some (store_at d off bs)\<rparr>))\<rparr>"
    by (auto simp: store_bytes_Inr inv(1))
  show ?thesis unfolding t
    by (rule mem_ext_put [OF assms(1)]) (use inv d in \<open>simp_all add: block_ok_def\<close>)
qed (simp add: mem_ext_def)

lemma mx_block_free: "preserves mem_ext (block_free p)"
proof (rule preservesI)
  fix s x t assume "block_free p s = Inr (x, t)"
  then obtain i b where b: "active_mem s i = Some b"
    and t: "t = s\<lparr>active_mem := (active_mem s)(bid b := Some (b\<lparr>memtype := MEM_TYPE_FREED, bdata := None\<rparr>))\<rparr>"
    by (auto simp: block_free_Inr)
  show "mem_ext s t"
  proof (cases "mem_inv s")
    case True
    note inv = mem_invD [OF True b]
    show ?thesis unfolding t inv(1)
      by (rule mem_ext_put [OF b]) (use inv in \<open>simp_all add: block_ok_def\<close>)
  qed (simp add: mem_ext_def)
qed

lemma mx_block_delete: "preserves mem_ext (block_delete p)"
proof (rule preservesI)
  fix s x t assume "block_delete p s = Inr (x, t)"
  then show "mem_ext s t"
    by (auto simp: block_delete_Inr mem_ext_def mem_inv_def next_id_def older_def split: if_splits)
qed

section \<open>Properties\<close>

text \<open>C18: Allocation, in a memory that satisfies the invariant and for a kind of block other than
  that of freed ones: it fails when all 32-bit ids are used up, or with the exception of
  \<open>new char[]\<close> for a size above \<open>PTRDIFF_MAX\<close>; in every other case it returns a block that
  was not live, under the least id never handed out, at least 3, with the size asked for, no
  tags and fresh contents, and nothing else changes but the counter of the ids.\<close>

theorem allocation_fresh:
  assumes "mem_inv s" and "t \<noteq> MEM_TYPE_FREED"
  shows "(id_counter s = 0 \<and> block_of_size H t n s = Inl (ErrExit ''Too many allocations'')) \<or>
    (id_counter s \<noteq> 0 \<and> PTRDIFF_MAX < n \<and> block_of_size H t n s = Inl BadAlloc) \<or>
    (n \<le> PTRDIFF_MAX \<and> (\<exists>u b. block_of_size H t n s = Inr (BlkPtr (id_counter s), u) \<and>
       active_mem s (id_counter s) = None \<and> 3 \<le> unat (id_counter s) \<and>
       (\<forall>i. active_mem s i \<noteq> None \<longrightarrow> unat i < unat (id_counter s)) \<and>
       u = s\<lparr>id_counter := id_counter s + 1, active_mem := (active_mem s)(id_counter s := Some b)\<rparr> \<and>
       b = \<lparr>bid = id_counter s, bsize = n, memtype = t,
            bdata = Some (map (fresh_byte H (id_counter s)) [0..<n]), firsttag = None, tags = rbtree_empty\<rparr> \<and>
       next_id u = Suc (next_id s) \<and> mem_inv u))"
proof (cases "id_counter s = 0 \<or> PTRDIFF_MAX < n")
  case False
  let ?i = "id_counter s"
  have n: "next_id s = unat ?i" using False by (simp add: next_id_def)
  have below: "unat i < unat ?i" if "active_mem s i \<noteq> None" for i
    using mem_invD(3) [OF assms(1), of i] n that by auto
  then have "active_mem s ?i = None" by blast
  moreover have "3 \<le> unat ?i" using assms(1) n by (simp add: mem_inv_def)
  moreover have "mem_inv u" if "block_of_size H t n s = Inr (x, u)" for x u
    using preservesD [OF mx_block_of_size [OF assms(2)] that] assms(1) by (simp add: mem_ext_def)
  ultimately show ?thesis using False n next_id_new [of s] below
    by (auto simp: block_of_size_run fresh_block_def)
qed (auto simp: block_of_size_run)

theorem allocation_fresh_witness:
  "\<exists>u b. block_of_size std_host MEM_TYPE_HEAP 16 init_state = Inr (BlkPtr 3, u) \<and>
     active_mem u 3 = Some b \<and> bsize b = 16"
  using allocation_fresh [OF mem_inv_init, of MEM_TYPE_HEAP std_host 16]
  by (auto simp: init_state_def block_id_defs PTRDIFF_MAX_def)

text \<open>C11: A write outside a block's bounds is reported and changes nothing; a write that
  returns lies within the block, and the bytes it stores within the block's data.\<close>

theorem write_bounds:
  assumes "active_mem s i = Some b" and "emu_size v = Inr n"
  shows "(off > bsize b \<or> bsize b - off < n \<longrightarrow> block_write H (BlkPtr i) v off s = Inl BadMemWrite) \<and>
    (block_write H (BlkPtr i) v off s = Inr (x, t) \<longrightarrow> off + n \<le> bsize b \<and>
      (\<exists>bs d. dump_repr H v = Inr bs \<and> bdata b = Some d \<and> off + length bs \<le> length d))"
proof (intro conjI impI)
  assume "off > bsize b \<or> bsize b - off < n"
  then show "block_write H (BlkPtr i) v off s = Inl BadMemWrite"
    using assms by (auto simp: block_write_def run_simps Let_def)
next
  assume w: "block_write H (BlkPtr i) v off s = Inr (x, t)"
  then show "off + n \<le> bsize b" by (rule block_writeE) (use assms in auto)
  from w show "\<exists>bs d. dump_repr H v = Inr bs \<and> bdata b = Some d \<and> off + length bs \<le> length d"
    by (rule block_writeE) (use assms in auto)
qed

theorem write_bounds_witness:
  "block_write std_host (BlkPtr 3) (stackpos_of 0 0) 5
     (init_state\<lparr>active_mem := [3 \<mapsto> fresh_block std_host 3 MEM_TYPE_STACK 16]\<rparr>) = Inl BadMemWrite"
  using write_bounds [of "init_state\<lparr>active_mem := [3 \<mapsto> fresh_block std_host 3 MEM_TYPE_STACK 16]\<rparr>" 3
      "fresh_block std_host 3 MEM_TYPE_STACK 16" "stackpos_of 0 0" 12 5]
  by (simp add: stackpos_of_def emu_size_defs fresh_block_def)

text \<open>C10: A write that returns changes one block only, and of it the bytes written and the
  tags: size, id and kind of the block, its other bytes, all other blocks, the counter and
  the rest of the interpreter's state are as before.\<close>

theorem write_frame:
  assumes "mem_inv s" and "block_write H p v off s = Inr (x, t)"
  shows "\<exists>i b b' bs d. p = BlkPtr i \<and> active_mem s i = Some b \<and> bdata b = Some d \<and>
    dump_repr H v = Inr bs \<and> t = s\<lparr>active_mem := (active_mem s)(i := Some b')\<rparr> \<and>
    bid b' = bid b \<and> bsize b' = bsize b \<and> memtype b' = memtype b \<and>
    bdata b' = Some (store_at d off bs) \<and> length (store_at d off bs) = length d \<and>
    (\<forall>j. j < off \<or> off + length bs \<le> j \<longrightarrow> store_at d off bs ! j = d ! j)"
  using assms(2)
proof (rule block_writeE)
  fix i b d n bs ft tt
  assume b: "p = BlkPtr i" "active_mem s i = Some b" "bdata b = Some d" "dump_repr H v = Inr bs"
    and l: "off + length bs \<le> length d"
    and t: "bid b = i \<Longrightarrow> t = s\<lparr>active_mem := (active_mem s)(i :=
          Some (b\<lparr>bdata := Some (store_at d off bs), firsttag := ft, tags := tt\<rparr>))\<rparr>"
  have "t = s\<lparr>active_mem := (active_mem s)(i :=
      Some (b\<lparr>bdata := Some (store_at d off bs), firsttag := ft, tags := tt\<rparr>))\<rparr>"
    by (rule t) (rule mem_invD(1) [OF assms(1) b(2)])
  with b l show ?thesis
    by (intro exI [of _ i] exI [of _ b] exI [of _ bs] exI [of _ d]
        exI [of _ "b\<lparr>bdata := Some (store_at d off bs), firsttag := ft, tags := tt\<rparr>"])
      (simp add: store_at_nth_outside)
qed

text \<open>A memory with one block of 8 bytes.\<close>

definition one_block :: emu_state where
  "one_block = init_state\<lparr>id_counter := 4, active_mem := [3 \<mapsto> fresh_block std_host 3 MEM_TYPE_STACK 8]\<rparr>"

lemma mem_inv_one_block: "mem_inv one_block"
  by (simp add: mem_inv_def one_block_def fresh_block_def block_ok_def next_id_def)

lemma one_block_write:
  "\<exists>t. block_write std_host (BlkPtr 3) (num_of_apint NUM_TYPE_INT (APInt 32 7)) 0 one_block = Inr ((), t)"
proof -
  obtain tt where "update_tag_write std_host IntType 8 0 None rbtree_empty = Inr (Some 0, tt)"
    using first_write [of IntType 8 std_host] by auto
  then show ?thesis
    using block_write_run [of one_block 3 "fresh_block std_host 3 MEM_TYPE_STACK 8" "replicate 8 0"
        "num_of_apint NUM_TYPE_INT (APInt 32 7)" 8 std_host
        "num_dump std_host STATUS_DEFINED NUM_TYPE_INT (APInt 32 7) EMU_TYPE_INT_ID" 0 "Some 0" tt]
    by (simp add: one_block_def fresh_block_def num_of_apint_def std_host_def map_replicate_const)
qed

theorem write_frame_witness:
  "\<exists>t b'. block_write std_host (BlkPtr 3) (num_of_apint NUM_TYPE_INT (APInt 32 7)) 0 one_block = Inr ((), t)
     \<and> t = one_block\<lparr>active_mem := (active_mem one_block)(3 := Some b')\<rparr> \<and> bsize b' = 8"
proof -
  from one_block_write obtain t
    where t: "block_write std_host (BlkPtr 3) (num_of_apint NUM_TYPE_INT (APInt 32 7)) 0 one_block = Inr ((), t)"
    by blast
  from write_frame [OF mem_inv_one_block t] t show ?thesis
    by (auto simp: one_block_def fresh_block_def)
qed

lemma load_freed:
  assumes "active_mem s i = Some b" and "memtype b = MEM_TYPE_FREED"
  shows "load H ev (lvalue_of (BlkPtr i) q off) s = Inl (ErrExit (line ''Tried to load from freed memory''))"
  using assms by (cases q) (simp_all add: load_def lvalue_of_def load_loc_def run_simps)

text \<open>C37: Using a block after it was freed. A load of any type, at any offset, is reported;
  but a write in bounds of a value that has a representation, and freeing or deleting the block
  again, are not checked and are undefined behaviour of the interpreter itself.\<close>

theorem freed_block_use:
  assumes "mem_inv s" and "active_mem s i = Some b" and "memtype b = MEM_TYPE_FREED"
  shows "load H ev (lvalue_of (BlkPtr i) q pos) s = Inl (ErrExit (line ''Tried to load from freed memory''))
    \<and> block_free (BlkPtr i) s = Inl (HostUB ''use of deleted block data'')
    \<and> block_delete (BlkPtr i) s = Inl (HostUB ''use of deleted block data'')
    \<and> (emu_size v = Inr n \<and> dump_repr H v = Inr bs \<and> off + n \<le> bsize b \<longrightarrow>
        block_write H (BlkPtr i) v off s = Inl (HostUB ''use of deleted block data''))"
proof -
  have "bdata b = None"
    using mem_invD(4) [OF assms(1,2)] assms(3) by (auto simp: block_ok_def split: option.splits)
  then show ?thesis using assms(2) load_freed [OF assms(2,3)]
    by (auto simp: block_free_def block_delete_def block_write_def run_simps block_data_def
        store_bytes_def Let_def)
qed

definition freed_block :: emu_state where
  "freed_block = init_state\<lparr>id_counter := 4, active_mem := [3 \<mapsto>
     (fresh_block std_host 3 MEM_TYPE_STACK 8)\<lparr>memtype := MEM_TYPE_FREED, bdata := None\<rparr>]\<rparr>"

theorem freed_block_use_witness:
  "load std_host (\<lambda>e. ret NullVal) (lvalue_of (BlkPtr 3) CharType 1) freed_block
     = Inl (ErrExit (line ''Tried to load from freed memory''))
   \<and> block_write std_host (BlkPtr 3) (func_of_id 5 IntType) 0 freed_block
     = Inl (HostUB ''use of deleted block data'')"
  using freed_block_use [where s = freed_block and i = 3 and H = std_host and ev = "\<lambda>e. ret NullVal" and q = CharType
      and pos = 1 and v = "func_of_id 5 IntType" and n = 8 and bs = "bytes_u32 EMU_TYPE_FUNC_ID @ bytes_u32 5" and off = 0
      and b = "(fresh_block std_host 3 MEM_TYPE_STACK 8)\<lparr>memtype := MEM_TYPE_FREED, bdata := None\<rparr>"]
  by (simp add: freed_block_def mem_inv_def fresh_block_def block_ok_def next_id_def func_of_id_def
      emu_size_defs)

end
