(* ===== verification/StackProps.thy ===== *)
theory StackProps
  imports MemoryProps
begin

text \<open>
  The stack and its index. \<open>stack_var_map\<close> holds for every name the positions of its
  variables, oldest first (\<open>stack_inv\<close>); opening a frame, adding a variable and popping a
  frame keep it. The last position of a name is the innermost variable of any frame: a
  lookup is dynamically scoped.
\<close>

section \<open>Positions\<close>

definition frame_pos :: "string \<Rightarrow> nat \<Rightarrow> (string \<times> 'a) list \<Rightarrow> (nat \<times> nat) list" where
  "frame_pos nm n f = map (Pair n) (filter (\<lambda>i. fst (f ! i) = nm) [0..<length f])"

definition stack_pos :: "string \<Rightarrow> (string \<times> 'a) list list \<Rightarrow> (nat \<times> nat) list" where
  "stack_pos nm fs = concat (map (\<lambda>n. frame_pos nm n (fs ! n)) [0..<length fs])"

definition index_entry :: "'a list \<Rightarrow> 'a list option" where
  "index_entry l = (if l = [] then None else Some l)"

definition stack_inv :: "emu_state \<Rightarrow> bool" where
  "stack_inv s \<longleftrightarrow> (\<forall>nm. stack_var_map s nm = index_entry (stack_pos nm (stack_vars s)))"

lemma frame_pos_Nil [simp]: "frame_pos nm n [] = []"
  by (simp add: frame_pos_def)

lemma frame_pos_snoc:
  "frame_pos nm n (f @ [x]) = frame_pos nm n f @ (if fst x = nm then [(n, length f)] else [])"
proof -
  have "filter (\<lambda>i. fst ((f @ [x]) ! i) = nm) [0..<length f] = filter (\<lambda>i. fst (f ! i) = nm) [0..<length f]"
    by (rule filter_cong) (auto simp: nth_append)
  then show ?thesis by (simp add: frame_pos_def)
qed

lemma stack_pos_snoc: "stack_pos nm (fs @ [f]) = stack_pos nm fs @ frame_pos nm (length fs) f"
proof -
  have "map (\<lambda>n. frame_pos nm n ((fs @ [f]) ! n)) [0..<length fs] = map (\<lambda>n. frame_pos nm n (fs ! n)) [0..<length fs]"
    by (rule map_cong) (auto simp: nth_append)
  then show ?thesis by (simp add: stack_pos_def del: map_eq_conv)
qed

lemma length_frame_pos: "length (frame_pos nm n f) = length (filter (\<lambda>x. fst x = nm) f)"
  by (induction f rule: rev_induct) (simp_all add: frame_pos_snoc)

text \<open>The last position of a name leads to its innermost variable.\<close>

lemma last_frame_pos:
  "case map_of (rev f) nm of
     None \<Rightarrow> frame_pos nm n f = []
   | Some l \<Rightarrow> \<exists>i. frame_pos nm n f \<noteq> [] \<and> last (frame_pos nm n f) = (n, i) \<and> i < length f \<and> f ! i = (nm, l)"
proof (induction f rule: rev_induct)
  case Nil
  then show ?case by simp
next
  case (snoc x f)
  show ?case
  proof (cases "fst x = nm")
    case True
    then show ?thesis by (cases x) (simp add: frame_pos_snoc)
  next
    case False
    with snoc show ?thesis
      by (cases x; cases "map_of (rev f) nm") (auto simp: frame_pos_snoc nth_append)
  qed
qed

lemma last_stack_pos:
  "case map_of (rev (concat fs)) nm of
     None \<Rightarrow> stack_pos nm fs = []
   | Some l \<Rightarrow> \<exists>n i. stack_pos nm fs \<noteq> [] \<and> last (stack_pos nm fs) = (n, i) \<and> n < length fs \<and>
       i < length (fs ! n) \<and> fs ! n ! i = (nm, l)"
proof (induction fs rule: rev_induct)
  case Nil
  then show ?case by (simp add: stack_pos_def)
next
  case (snoc f fs)
  note fp = last_frame_pos [where f = f and nm = nm and n = "length fs"]
  have m: "map_of (rev (concat (fs @ [f]))) nm =
      (case map_of (rev f) nm of None \<Rightarrow> map_of (rev (concat fs)) nm | Some l \<Rightarrow> Some l)"
    by (simp add: map_add_def split: option.splits)
  show ?case
  proof (cases "map_of (rev f) nm")
    case None
    with fp snoc show ?thesis unfolding m
      by (cases "map_of (rev (concat fs)) nm") (auto simp: stack_pos_snoc nth_append)
  next
    case (Some l)
    with fp show ?thesis unfolding m by (auto simp: stack_pos_snoc)
  qed
qed

section \<open>The operations keep the index\<close>

lemma stack_inv_init: "stack_inv init_state"
  by (simp add: stack_inv_def init_state_def stack_pos_def index_entry_def)

lemma add_stack_frame_run: "add_stack_frame s = Inr ((), s\<lparr>stack_vars := stack_vars s @ [[]]\<rparr>)"
  by (simp add: add_stack_frame_def run_simps)

lemma add_stack_var_run:
  assumes "stack_vars s = fs @ [f]"
  shows "add_stack_var nm l s = Inr ((), s\<lparr>stack_vars := fs @ [f @ [(nm, l)]],
    stack_var_map := (stack_var_map s)(nm := (case stack_var_map s nm of
      None \<Rightarrow> Some [(length fs, length f)] | Some ps \<Rightarrow> Some (ps @ [(length fs, length f)])))\<rparr>)"
  using assms by (simp add: add_stack_var_def run_simps Let_def)

lemma add_stack_var_Inr:
  assumes "add_stack_var nm l s = Inr (x, t)"
  obtains fs f where "stack_vars s = fs @ [f]" and "stack_vars t = fs @ [f @ [(nm, l)]]"
    and "t = s\<lparr>stack_vars := fs @ [f @ [(nm, l)]], stack_var_map := stack_var_map t\<rparr>"
proof -
  from assms have "stack_vars s \<noteq> []"
    by (auto simp: add_stack_var_def run_simps)
  then obtain fs f where "stack_vars s = fs @ [f]" by (metis rev_exhaust)
  with add_stack_var_run [OF this, of nm l] assms that show thesis by auto
qed

lemma stack_inv_frame: "stack_inv s \<Longrightarrow> stack_inv (s\<lparr>stack_vars := stack_vars s @ [[]]\<rparr>)"
  by (simp add: stack_inv_def stack_pos_snoc)

lemma stack_inv_add:
  assumes "stack_inv s" and "add_stack_var nm l s = Inr (x, t)"
  shows "stack_inv t"
proof -
  from assms(2) obtain fs f where fs: "stack_vars s = fs @ [f]" by (rule add_stack_var_Inr)
  show ?thesis
    using assms(1) add_stack_var_run [OF fs, of nm l] assms(2)
    by (auto simp: stack_inv_def fs stack_pos_snoc frame_pos_snoc index_entry_def)
qed

lemma pop_stack_var_Inr:
  assumes "pop_stack_var it s = Inr (x, t)"
  obtains ps i b where "stack_var_map s (fst it) = Some ps" and "ps \<noteq> []"
    and "lblock (snd it) = BlkPtr i" and "active_mem s i = Some b" and "bdata b \<noteq> None"
    and "t = s\<lparr>stack_var_map := (stack_var_map s)(fst it := index_entry (butlast ps)),
      active_mem := (active_mem s)(bid b := Some (b\<lparr>memtype := MEM_TYPE_FREED, bdata := None\<rparr>))\<rparr>"
proof -
  from assms obtain ps where ps: "stack_var_map s (fst it) = Some ps" "ps \<noteq> []"
    by (auto simp: pop_stack_var_def run_simps split: option.splits if_splits)
  let ?u = "s\<lparr>stack_var_map := (stack_var_map s)(fst it := (if length ps = 1 then None else Some (butlast ps)))\<rparr>"
  have "(if length ps = 1 then None else Some (butlast ps)) = index_entry (butlast ps)"
    using ps(2) by (cases ps rule: rev_cases) (auto simp: index_entry_def)
  moreover from assms ps have "block_free (lblock (snd it)) ?u = Inr (x, t)"
    by (simp add: pop_stack_var_def run_simps)
  ultimately show thesis using that [OF ps] by (auto simp: block_free_Inr)
qed

lemma pop_stack_var_run:
  assumes "stack_var_map s (fst it) = Some (ps @ [p])" and "lblock (snd it) = BlkPtr i"
    and "active_mem s i = Some b" and "bdata b \<noteq> None"
  shows "pop_stack_var it s = Inr ((), s\<lparr>stack_var_map := (stack_var_map s)(fst it := index_entry ps),
    active_mem := (active_mem s)(bid b := Some (b\<lparr>memtype := MEM_TYPE_FREED, bdata := None\<rparr>))\<rparr>)"
  using assms
  by (auto simp: pop_stack_var_def run_simps index_entry_def block_free_def block_data_def put_block_def)

text \<open>Popping the variables of a list removes as many entries of a name as it has in the list.\<close>

lemma pop_vars_index:
  assumes "forM vs pop_stack_var s = Inr (x, t)"
    and "stack_var_map s nm = index_entry (P @ Q)" and "length Q = length (filter (\<lambda>v. fst v = nm) vs)"
  shows "stack_var_map t nm = index_entry P"
  using assms
proof (induction vs arbitrary: s Q)
  case Nil
  then show ?case by (simp add: run_simps)
next
  case (Cons v vs)
  from Cons.prems(1) obtain u where u: "pop_stack_var v s = Inr ((), u)"
    and r: "forM vs pop_stack_var u = Inr (x, t)" by (auto simp: run_simps split: sum.splits)
  from u obtain ps where ps: "stack_var_map s (fst v) = Some ps" "ps \<noteq> []"
    and m: "stack_var_map u = (stack_var_map s)(fst v := index_entry (butlast ps))"
    by (rule pop_stack_var_Inr) auto
  show ?case
  proof (cases "fst v = nm")
    case True
    then obtain q Q' where Q: "Q = Q' @ [q]" using Cons.prems(3) by (cases Q rule: rev_cases) auto
    have "ps = P @ Q" using True ps Cons.prems(2) by (auto simp: index_entry_def split: if_splits)
    then have "stack_var_map u nm = index_entry (P @ Q')" using True by (simp add: m Q butlast_append)
    with Cons.IH [OF r] Cons.prems(3) True Q show ?thesis by simp
  next
    case False
    with Cons.IH [OF r, of Q] Cons.prems(2,3) m show ?thesis by simp
  qed
qed

lemma pop_vars_rest:
  "forM vs pop_stack_var s = Inr (x, t) \<Longrightarrow> stack_vars t = stack_vars s"
  by (induction vs arbitrary: s) (auto simp: run_simps split: sum.splits elim!: pop_stack_var_Inr)

lemma pop_stack_frame_Inr:
  assumes "pop_stack_frame s = Inr (x, t)"
  obtains fs f where "stack_vars s = fs @ [f]"
    and "forM f pop_stack_var (s\<lparr>stack_vars := fs\<rparr>) = Inr ((), t)" and "stack_vars t = fs"
proof -
  from assms have "stack_vars s \<noteq> []" by (auto simp: pop_stack_frame_def run_simps)
  then obtain fs f where fs: "stack_vars s = fs @ [f]" by (metis rev_exhaust)
  with assms have "forM f pop_stack_var (s\<lparr>stack_vars := fs\<rparr>) = Inr ((), t)"
    by (simp add: pop_stack_frame_def run_simps)
  with that [OF fs] show thesis using pop_vars_rest by fastforce
qed

lemma stack_inv_pop:
  assumes "stack_inv s" and "pop_stack_frame s = Inr (x, t)"
  shows "stack_inv t"
proof -
  from assms(2) obtain fs f where fs: "stack_vars s = fs @ [f]" and t: "stack_vars t = fs"
    and r: "forM f pop_stack_var (s\<lparr>stack_vars := fs\<rparr>) = Inr ((), t)" by (rule pop_stack_frame_Inr)
  have "stack_var_map t nm = index_entry (stack_pos nm fs)" for nm
    by (rule pop_vars_index [OF r, where Q = "frame_pos nm (length fs) f"])
      (use assms(1) in \<open>simp_all add: stack_inv_def fs stack_pos_snoc length_frame_pos\<close>)
  then show ?thesis by (simp add: stack_inv_def t)
qed

lemma mx_pop_stack_var: "preserves mem_ext (pop_stack_var it)"
proof -
  have "preserves mem_ext (modifyM (\<lambda>s. s\<lparr>stack_var_map := g s\<rparr>))" for g
    by (rule mx.pres_modify) (simp add: mem_ext_cong)
  then show ?thesis unfolding pop_stack_var_def
    by (auto intro!: mx.pres_bind mx.pres_gets mx.pres_fail mx.pres_seq mx_block_free split: option.splits)
qed

lemma mx_pop_vars: "preserves mem_ext (forM vs pop_stack_var)"
  by (rule mx.pres_forM) (rule mx_pop_stack_var)

definition is_freed :: "emu_state \<Rightarrow> u32 \<Rightarrow> bool" where
  "is_freed s i \<longleftrightarrow> (\<exists>b. active_mem s i = Some b \<and> memtype b = MEM_TYPE_FREED)"

lemma pop_keeps_freed:
  "forM vs pop_stack_var s = Inr (x, t) \<Longrightarrow> is_freed s i \<Longrightarrow> is_freed t i"
proof (induction vs arbitrary: s)
  case (Cons w vs)
  from Cons.prems(1) obtain u where u: "pop_stack_var w s = Inr ((), u)"
    and r: "forM vs pop_stack_var u = Inr (x, t)" by (auto simp: run_simps split: sum.splits)
  from u have "is_freed u i"
    by (rule pop_stack_var_Inr) (use Cons.prems(2) in \<open>auto simp: is_freed_def\<close>)
  with Cons.IH [OF r] show ?case .
qed (simp add: run_simps)

lemma pop_vars_freed:
  assumes "forM vs pop_stack_var s = Inr (x, t)" and "mem_inv s" and "v \<in> set vs"
  shows "\<exists>i. lblock (snd v) = BlkPtr i \<and> is_freed t i"
  using assms
proof (induction vs arbitrary: s)
  case (Cons w vs)
  from Cons.prems(1) obtain u where u: "pop_stack_var w s = Inr ((), u)"
    and r: "forM vs pop_stack_var u = Inr (x, t)" by (auto simp: run_simps split: sum.splits)
  have inv: "mem_inv u"
    using preservesD [OF mx_pop_stack_var u] Cons.prems(2) by (simp add: mem_ext_def)
  show ?case
  proof (cases "v = w")
    case True
    from u obtain i where "lblock (snd w) = BlkPtr i" and "is_freed u i"
      by (rule pop_stack_var_Inr) (use mem_invD(1) [OF Cons.prems(2)] in \<open>auto simp: is_freed_def\<close>)
    with pop_keeps_freed [OF r] True show ?thesis by blast
  next
    case False
    with Cons.IH [OF r inv] Cons.prems(3) show ?thesis by simp
  qed
qed simp

text \<open>A block of no variable popped is as it was.\<close>

lemma pop_vars_others:
  assumes "forM vs pop_stack_var s = Inr (x, t)" and "mem_inv s"
    and "\<forall>v \<in> set vs. lblock (snd v) \<noteq> BlkPtr i"
  shows "active_mem t i = active_mem s i"
  using assms
proof (induction vs arbitrary: s)
  case (Cons w vs)
  from Cons.prems(1) obtain u where u: "pop_stack_var w s = Inr ((), u)"
    and r: "forM vs pop_stack_var u = Inr (x, t)" by (auto simp: run_simps split: sum.splits)
  have inv: "mem_inv u"
    using preservesD [OF mx_pop_stack_var u] Cons.prems(2) by (simp add: mem_ext_def)
  from u have "active_mem u i = active_mem s i"
    by (rule pop_stack_var_Inr) (use Cons.prems(3) mem_invD(1) [OF Cons.prems(2)] in auto)
  with Cons.IH [OF r inv] Cons.prems(3) show ?case by simp
qed (simp add: run_simps)

section \<open>The relation that evaluation keeps\<close>

text \<open>
  Evaluating an expression or a statement only adds variables to the topmost frame, and
  keeps the index.
\<close>

definition stack_ext :: "emu_state \<Rightarrow> emu_state \<Rightarrow> bool" where
  "stack_ext s t \<longleftrightarrow> (stack_inv s \<longrightarrow> stack_inv t) \<and> (stack_vars s = [] \<longrightarrow> stack_vars t = []) \<and>
     (\<forall>fs f. stack_vars s = fs @ [f] \<longrightarrow> (\<exists>g. stack_vars t = fs @ [f @ g]))"

interpretation sx: state_preorder stack_ext
proof
  show "stack_ext s s" for s by (auto simp: stack_ext_def)
  fix s t u assume st: "stack_ext s t" and tu: "stack_ext t u"
  have "\<exists>g. stack_vars u = fs @ [f @ g]" if "stack_vars s = fs @ [f]" for fs f
  proof -
    from st that obtain g where "stack_vars t = fs @ [f @ g]" by (auto simp: stack_ext_def)
    with tu obtain h where "stack_vars u = fs @ [(f @ g) @ h]" by (auto simp: stack_ext_def)
    then show ?thesis by auto
  qed
  with st tu show "stack_ext s u" by (auto simp: stack_ext_def)
qed

lemma stack_ext_cong:
  "stack_vars t = stack_vars s \<Longrightarrow> stack_var_map t = stack_var_map s \<Longrightarrow> stack_ext s t"
  by (auto simp: stack_ext_def stack_inv_def)

lemma sx_add_stack_var: "preserves stack_ext (add_stack_var nm l)"
proof (rule preservesI)
  fix s x t assume a: "add_stack_var nm l s = Inr (x, t)"
  then obtain fs f where "stack_vars s = fs @ [f]" "stack_vars t = fs @ [f @ [(nm, l)]]"
    by (rule add_stack_var_Inr)
  with stack_inv_add [OF _ a] show "stack_ext s t" by (auto simp: stack_ext_def)
qed

lemma in_frame_Inr:
  assumes "in_frame m s = Inr (x, t)"
  obtains u where "m (s\<lparr>stack_vars := stack_vars s @ [[]]\<rparr>) = Inr (x, u)"
    and "pop_stack_frame u = Inr ((), t)"
  using assms that
  by (auto simp: in_frame_def run_simps add_stack_frame_run split: sum.splits prod.splits)

text \<open>A frame opened and popped around a computation that keeps the relation is gone.\<close>

lemma in_frame_stack:
  assumes "preserves stack_ext m" and "in_frame m s = Inr (x, t)"
  shows "stack_vars t = stack_vars s" and "stack_inv s \<Longrightarrow> stack_inv t"
proof -
  from assms(2) obtain u where u: "m (s\<lparr>stack_vars := stack_vars s @ [[]]\<rparr>) = Inr (x, u)"
    and p: "pop_stack_frame u = Inr ((), t)" by (rule in_frame_Inr)
  from preservesD [OF assms(1) u] obtain g where g: "stack_vars u = stack_vars s @ [[] @ g]"
    and i: "stack_inv s \<Longrightarrow> stack_inv u"
    using stack_inv_frame [of s] by (auto simp: stack_ext_def)
  from p g show "stack_vars t = stack_vars s" by (auto elim!: pop_stack_frame_Inr)
  show "stack_inv s \<Longrightarrow> stack_inv t" using stack_inv_pop [OF i p] by blast
qed

lemma sx_in_frame: "preserves stack_ext m \<Longrightarrow> preserves stack_ext (in_frame m)"
proof (rule preservesI)
  fix s x t assume "preserves stack_ext m" and "in_frame m s = Inr (x, t)"
  from in_frame_stack [OF this] show "stack_ext s t" by (simp add: stack_ext_def)
qed

section \<open>Properties\<close>

text \<open>C16: The index of the stack. Opening a frame, adding a variable and popping a frame
  keep \<open>stack_var_map\<close> equal to the positions of the variables of each name; and the entry
  of a name leads to its innermost variable in the whole stack, in whatever frame it is.\<close>

theorem stack_index_kept:
  assumes "stack_inv s"
  shows "(\<forall>x t. add_stack_frame s = Inr (x, t) \<longrightarrow> stack_inv t) \<and>
    (\<forall>nm l x t. add_stack_var nm l s = Inr (x, t) \<longrightarrow> stack_inv t) \<and>
    (\<forall>x t. pop_stack_frame s = Inr (x, t) \<longrightarrow> stack_inv t) \<and>
    (\<forall>nm. case map_of (rev (concat (stack_vars s))) nm of
       None \<Rightarrow> stack_var_map s nm = None
     | Some l \<Rightarrow> (\<exists>ps n i. stack_var_map s nm = Some ps \<and> last ps = (n, i) \<and>
         n < length (stack_vars s) \<and> i < length (stack_vars s ! n) \<and>
         stack_vars s ! n ! i = (nm, l)))"
proof -
  have "case map_of (rev (concat (stack_vars s))) nm of
       None \<Rightarrow> stack_var_map s nm = None
     | Some l \<Rightarrow> (\<exists>ps n i. stack_var_map s nm = Some ps \<and> last ps = (n, i) \<and>
         n < length (stack_vars s) \<and> i < length (stack_vars s ! n) \<and>
         stack_vars s ! n ! i = (nm, l))" for nm
    using last_stack_pos [where fs = "stack_vars s" and nm = nm] assms
    by (cases "map_of (rev (concat (stack_vars s))) nm") (auto simp: stack_inv_def index_entry_def)
  then show ?thesis
    using stack_inv_add [OF assms] stack_inv_pop [OF assms] stack_inv_frame [OF assms]
    by (auto simp: add_stack_frame_run)
qed

theorem stack_index_kept_witness:
  "\<exists>t. add_stack_var ''x'' (lvalue_of NullBlk IntType 0) (init_state\<lparr>stack_vars := [[]]\<rparr>) = Inr ((), t)
     \<and> stack_inv t"
proof -
  have i: "stack_inv (init_state\<lparr>stack_vars := [[]]\<rparr>)"
    by (simp add: stack_inv_def init_state_def stack_pos_def index_entry_def)
  have "\<exists>t. add_stack_var ''x'' (lvalue_of NullBlk IntType 0) (init_state\<lparr>stack_vars := [[]]\<rparr>) = Inr ((), t)"
    by (simp add: add_stack_var_def run_simps Let_def)
  with stack_index_kept [OF i] show ?thesis by blast
qed

text \<open>C17: Popping a frame, where it returns, removes exactly the topmost frame and frees the block
  of every variable in it. It touches no other block, and a block that was freed is freed afterwards:
  freed memory is not made usable again.\<close>

theorem pop_frame_frees:
  assumes "mem_inv s" and "pop_stack_frame s = Inr (x, t)"
  shows "stack_vars t = butlast (stack_vars s) \<and> mem_inv t \<and>
    (\<forall>v \<in> set (last (stack_vars s)). \<exists>i b. lblock (snd v) = BlkPtr i \<and>
       active_mem t i = Some b \<and> memtype b = MEM_TYPE_FREED) \<and>
    (\<forall>i. (\<forall>v \<in> set (last (stack_vars s)). lblock (snd v) \<noteq> BlkPtr i) \<longrightarrow>
       active_mem t i = active_mem s i) \<and>
    (\<forall>i b. active_mem s i = Some b \<and> memtype b = MEM_TYPE_FREED \<longrightarrow>
       (\<exists>b'. active_mem t i = Some b' \<and> memtype b' = MEM_TYPE_FREED))"
proof -
  from assms(2) obtain fs f where fs: "stack_vars s = fs @ [f]" and t: "stack_vars t = fs"
    and r: "forM f pop_stack_var (s\<lparr>stack_vars := fs\<rparr>) = Inr ((), t)" by (rule pop_stack_frame_Inr)
  have inv: "mem_inv (s\<lparr>stack_vars := fs\<rparr>)"
    using mem_ext_cong [of "s\<lparr>stack_vars := fs\<rparr>" s] assms(1) by (simp add: mem_ext_def)
  then have "mem_inv t" using preservesD [OF mx_pop_vars r] by (simp add: mem_ext_def)
  moreover have "\<exists>i b. lblock (snd v) = BlkPtr i \<and> active_mem t i = Some b \<and> memtype b = MEM_TYPE_FREED"
    if "v \<in> set f" for v using pop_vars_freed [OF r inv that] by (auto simp: is_freed_def)
  moreover have "active_mem t i = active_mem s i" if "\<forall>v \<in> set f. lblock (snd v) \<noteq> BlkPtr i" for i
    using pop_vars_others [OF r inv that] by simp
  moreover have "\<exists>b'. active_mem t i = Some b' \<and> memtype b' = MEM_TYPE_FREED"
    if "active_mem s i = Some b" and "memtype b = MEM_TYPE_FREED" for i b
    using pop_keeps_freed [OF r, of i] that by (simp add: is_freed_def)
  ultimately show ?thesis by (simp add: fs t)
qed

theorem pop_frame_frees_witness:
  "\<exists>t. pop_stack_frame (one_block\<lparr>stack_vars := [[(''x'', lvalue_of (BlkPtr 3) IntType 0)]],
        stack_var_map := [''x'' \<mapsto> [(0, 0)]]\<rparr>) = Inr ((), t)
     \<and> stack_vars t = [] \<and> is_freed t 3"
proof -
  let ?s = "one_block\<lparr>stack_vars := [[(''x'', lvalue_of (BlkPtr 3) IntType 0)]],
        stack_var_map := [''x'' \<mapsto> [(0, 0)]]\<rparr>"
  have "mem_inv ?s" using mem_inv_one_block mem_ext_cong [of ?s one_block] by (simp add: mem_ext_def)
  moreover have "\<exists>t. pop_stack_frame ?s = Inr ((), t)"
    by (simp add: pop_stack_frame_def pop_stack_var_def run_simps block_free_def one_block_def
        fresh_block_def lvalue_of_def block_data_def put_block_def)
  ultimately show ?thesis using pop_frame_frees [of ?s]
    by (fastforce simp: lvalue_of_def is_freed_def)
qed

end
