(* ===== verification/InterpInv.thy ===== *)
theory InterpInv
  imports Interp StackProps
begin

text \<open>
  Invariants of the whole interpreter. The locale \<open>emu_invariant\<close> takes a preorder on
  states that the primitive operations on memory and stack keep, and shows by going through
  every function of \<open>cast.cpp\<close>, \<open>external.cpp\<close> and \<open>eval.cpp\<close> that every expression,
  statement and call keeps it, at any depth. It is interpreted for the memory relation, the
  stack relation, and the parts of the state that evaluation must not change.
\<close>

section \<open>The interface\<close>

named_theorems inv_intros

locale emu_invariant = state_preorder R for R :: "emu_state \<Rightarrow> emu_state \<Rightarrow> bool" +
  fixes H :: host
  assumes alloc: "t \<noteq> MEM_TYPE_FREED \<Longrightarrow> preserves R (block_of_size H t n)"
    and wr: "preserves R (block_write H p v off)"
    and store: "active_mem s i = Some b \<Longrightarrow> store_bytes b k bs s = Inr (x, t') \<Longrightarrow> R s t'"
    and delete: "preserves R (block_delete p)"
    and push: "preserves R (add_stack_var nm l)"
    and frame: "preserves R (m :: evptr emu) \<Longrightarrow> preserves R (in_frame m)"
    and source: "preserves R (m :: evptr emu) \<Longrightarrow> preserves R (in_source src m)"

definition ev_preserves :: "(emu_state \<Rightarrow> emu_state \<Rightarrow> bool) \<Rightarrow> interp_fns \<Rightarrow> bool" where
  "ev_preserves R ev \<longleftrightarrow> (\<forall>e. preserves R (rexpr ev e)) \<and> (\<forall>e. preserves R (lexpr ev e)) \<and>
     (\<forall>s. preserves R (run_stmt ev s))"

context emu_invariant begin

lemmas [inv_intros] = pres_ret pres_fail pres_gets pres_lift pres_bind pres_seq pres_if
  wr delete push frame source

lemma alloc_cases [inv_intros]:
  "preserves R (block_of_size H MEM_TYPE_STATIC n)" "preserves R (block_of_size H MEM_TYPE_STACK n)"
  "preserves R (block_of_size H MEM_TYPE_HEAP n)"
  "preserves R (block_of_size H (if si then MEM_TYPE_GLOBAL else MEM_TYPE_STACK) n)"
  by (rule alloc; simp)+

lemma pres_let [inv_intros]: "(\<And>x. preserves R (f x)) \<Longrightarrow> preserves R (Let v f)"
  by simp

lemma pres_option [inv_intros]:
  "preserves R m \<Longrightarrow> (\<And>x. preserves R (f x)) \<Longrightarrow>
   preserves R (case r of None \<Rightarrow> m | Some x \<Rightarrow> f x)"
  by (cases r) auto

lemma pres_prod [inv_intros]:
  "(\<And>a b. preserves R (f a b)) \<Longrightarrow> preserves R (case r of (a, b) \<Rightarrow> f a b)"
  by (cases r) auto

lemma pres_list [inv_intros]:
  "preserves R m \<Longrightarrow> (\<And>x xs. preserves R (f x xs)) \<Longrightarrow>
   preserves R (case r of [] \<Rightarrow> m | x # xs \<Rightarrow> f x xs)"
  by (cases r) auto

lemma pres_forM' [inv_intros]: "(\<And>x. preserves R (f x)) \<Longrightarrow> preserves R (forM xs f)"
  by (rule pres_forM)

lemma pres_mapM' [inv_intros]: "(\<And>x. preserves R (f x)) \<Longrightarrow> preserves R (mapM f xs)"
  by (rule pres_mapM)

lemma pres_get_block [inv_intros]: "preserves R (get_block p)"
  by (cases p) (auto intro!: inv_intros)

lemma pres_block_data [inv_intros]: "preserves R (block_data b)"
  unfolding block_data_def by (intro inv_intros)

text \<open>A store into the block just fetched, after a computation that does not change the state.\<close>

lemma pres_get_store [inv_intros]:
  assumes "\<And>b x t s. f b s = Inr (x, t) \<Longrightarrow> \<exists>k bs. store_bytes b k bs s = Inr ((), t)"
  shows "preserves R (bindM (get_block p) f)"
proof (rule preservesI)
  fix s x t assume "bindM (get_block p) f s = Inr (x, t)"
  then obtain b where "get_block p s = Inr (b, s)" and f: "f b s = Inr (x, t)"
    by (auto simp: run_simps get_block_Inr split: sum.splits)
  then obtain i where "active_mem s i = Some b" by (auto simp: get_block_Inr)
  moreover from assms [OF f] obtain k bs where "store_bytes b k bs s = Inr ((), t)" by blast
  ultimately show "R s t" by (rule store)
qed

lemma pres_block_of_value [inv_intros]:
  "preserves R (block_of_value H MEM_TYPE_STATIC v)" "preserves R (block_of_value H MEM_TYPE_STACK v)"
  unfolding block_of_value_def by (intro inv_intros)+

section \<open>cast.cpp and external.cpp\<close>

lemma pres_deref_val [inv_intros]: "preserves R (deref_val v)"
  by (cases v) (auto intro!: inv_intros)

lemma pres_newarr [inv_intros]: "preserves R (newarr_fill H q v n)"
  unfolding newarr_fill_def by (intro inv_intros)

lemma pres_loads [inv_intros]:
  "preserves R (load_loc l)" "preserves R (struct_start l)" "preserves R (load_num H t loc)"
  "preserves R (load_ptr q bs n)" "preserves R (load_func q bs n)" "preserves R (vla_size H v)"
  unfolding load_loc_def struct_start_def load_num_def load_ptr_def load_func_def vla_size_def
  by (intro inv_intros)+

lemma pres_from_lvalue_aux:
  "H' = H \<Longrightarrow> (\<And>e. preserves R (ev e)) \<Longrightarrow> preserves R (from_lvalue H' ev b off q)"
  "H' = H \<Longrightarrow> (\<And>e. preserves R (ev e)) \<Longrightarrow> preserves R (struct_from H' ev b off m)"
  by (induction H' ev b off q and H' ev b off m rule: from_lvalue_struct_from.induct)
    (auto intro!: inv_intros)

lemma pres_load [inv_intros]: "(\<And>e. preserves R (ev e)) \<Longrightarrow> preserves R (load H ev l)"
  unfolding load_def by (rule pres_from_lvalue_aux) auto

lemma pres_is_scalar_zero [inv_intros]: "preserves R (is_scalar_zero H v)"
  unfolding is_scalar_zero_def by (intro inv_intros)

lemma pres_top_vars [inv_intros]: "preserves R top_vars"
  unfolding top_vars_def by (intro inv_intros)

lemma pres_raw [inv_intros]: "preserves R (raw_bytes l)" "preserves R (stack_entry n i)"
  unfolding raw_bytes_def stack_entry_def by (intro inv_intros)+

lemma pres_malloc [inv_intros]: "(\<And>e. preserves R (ev e)) \<Longrightarrow> preserves R (emu_malloc H ev)"
  unfolding emu_malloc_def by (intro inv_intros)

lemma pres_free [inv_intros]: "(\<And>e. preserves R (ev e)) \<Longrightarrow> preserves R (emu_free H ev)"
  unfolding emu_free_def by (intro inv_intros)

lemma pres_va_store [inv_intros]:
  "preserves R (bindM (get_block p) (\<lambda>b.
     if bsize b < n then fail e
     else bindM (lift r) (\<lambda>bs. seqM (store_bytes b k bs) (ret v))))"
  by (rule pres_get_store) (auto simp: run_simps split: if_splits sum.splits, blast)

lemma pres_va_start [inv_intros]: "preserves R (emu_va_start H)"
  unfolding emu_va_start_def
  by (auto intro!: inv_intros split: list.splits emu_val.splits)

lemma pres_call_external [inv_intros]:
  "(\<And>e. preserves R (ev e)) \<Longrightarrow> preserves R (call_external H ev i)"
  unfolding call_external_def by (auto intro!: inv_intros split: external_func.splits)

section \<open>eval.cpp\<close>

lemma pres_declref [inv_intros]: "preserves R (get_nonstack_var nm)" "preserves R (eval_declref nm)"
  unfolding eval_declref_def get_nonstack_var_def by (intro inv_intros)+

lemma pres_string [inv_intros]: "preserves R (eval_string H k bs q)"
  unfolding eval_string_def
  by (intro inv_intros pres_get_store) (auto simp: run_simps split: sum.splits)

lemma pres_literals [inv_intros]:
  "preserves R (eval_integer_literal H i)" "preserves R (eval_char_literal H c)"
  unfolding eval_integer_literal_def eval_char_literal_def by (intro inv_intros)+

lemma pres_ptr_segment [inv_intros]: "preserves R (ptr_segment p)"
  unfolding ptr_segment_def by (intro inv_intros)

lemma pres_push_arg [inv_intros]: "preserves R (push_arg H nm v)"
  unfolding push_arg_def by (intro inv_intros)

lemma pres_macro_arg [inv_intros]: "preserves R (macro_arg H e)"
  unfolding macro_arg_def by (auto intro!: inv_intros split: expr.splits)

lemma pres_delete_value [inv_intros]: "preserves R (delete_value v)"
  unfolding delete_value_def by (intro inv_intros)

text \<open>The functions over a record \<open>ev\<close> whose three functions keep the relation.\<close>

lemma ev_preservesD:
  assumes "ev_preserves R ev"
  shows "preserves R (rexpr ev e)" "preserves R (lexpr ev e)" "preserves R (run_stmt ev s)"
  using assms by (simp_all add: ev_preserves_def)

lemma pres_rvalue: "ev_preserves R ev \<Longrightarrow> preserves R (rvalue ev e)"
  unfolding rvalue_def by (intro inv_intros) (rule ev_preservesD)

lemma pres_load_at: "ev_preserves R ev \<Longrightarrow> preserves R (load_at H ev l)"
  unfolding load_at_def by (intro inv_intros) (rule ev_preservesD)

lemmas ev_intros = ev_preservesD pres_rvalue pres_load_at

lemma pres_subscript: "ev_preserves R ev \<Longrightarrow> preserves R (eval_subscript H ev b i)"
  unfolding eval_subscript_def by (intro inv_intros ev_intros)

lemma pres_eval_lexpr: "ev_preserves R ev \<Longrightarrow> preserves R (eval_lexpr H ev e)"
  unfolding eval_lexpr_def
  by (auto intro!: inv_intros pres_subscript ev_intros split: expr.splits)

lemma pres_unary: "ev_preserves R ev \<Longrightarrow> preserves R (eval_unary H ev op e q)"
  unfolding eval_unary_def by (cases op) (auto intro!: inv_intros ev_intros)

lemma pres_binary_cases:
  assumes "ev_preserves R ev"
  shows "preserves R (eval_assign H ev l r)" and "preserves R (eval_compare H ev op l r)"
    and "preserves R (eval_compound_assign H ev nop l r)" and "preserves R (eval_arith H ev nop l r)"
  unfolding eval_assign_def eval_compare_def eval_compound_assign_def eval_arith_def
  by (intro inv_intros ev_intros assms)+

lemma pres_binary: "ev_preserves R ev \<Longrightarrow> preserves R (eval_binary H ev op l r)"
  unfolding eval_binary_def by (cases op) (auto intro!: inv_intros ev_intros pres_binary_cases)

lemma pres_builtin_fn [inv_intros]: "preserves R (eval_builtin_fn H e q)"
  unfolding eval_builtin_fn_def by (auto intro!: inv_intros split: expr.splits)

lemma pres_ptr_to_int: "ev_preserves R ev \<Longrightarrow> preserves R (eval_ptr_to_int H ev e q)"
  unfolding eval_ptr_to_int_def by (auto intro!: inv_intros ev_intros split: qtype.splits)

lemma pres_cast: "ev_preserves R ev \<Longrightarrow> preserves R (eval_cast H ev k e q w)"
  unfolding eval_cast_def by (cases k) (auto intro!: inv_intros ev_intros pres_ptr_to_int)

lemma pres_value_arg: "ev_preserves R ev \<Longrightarrow> preserves R (value_arg H ev a)"
  unfolding value_arg_def by (intro inv_intros ev_intros)

lemma pres_call_body: "ev_preserves R ev \<Longrightarrow> preserves R (call_body H ev fid args)"
  unfolding call_body_def by (intro inv_intros pres_value_arg ev_intros)

lemma pres_call: "ev_preserves R ev \<Longrightarrow> preserves R (eval_call H ev c args)"
  unfolding eval_call_def by (intro inv_intros ev_intros pres_call_body)

lemma pres_trait: "ev_preserves R ev \<Longrightarrow> preserves R (eval_trait H ev k a)"
  unfolding eval_trait_def by (cases k) (auto intro!: inv_intros ev_intros)

lemma pres_init_elements: "ev_preserves R ev \<Longrightarrow> preserves R (init_elements H ev p es k)"
  by (induction es arbitrary: k) (auto intro!: inv_intros ev_intros)

lemma pres_init_list: "ev_preserves R ev \<Longrightarrow> preserves R (eval_init_list H ev es q)"
  unfolding eval_init_list_def by (intro inv_intros ev_intros pres_init_elements)

lemma pres_eval_rexpr: "ev_preserves R ev \<Longrightarrow> preserves R (eval_rexpr H ev e)"
  unfolding eval_rexpr_def
  by (cases e) (auto intro!: inv_intros ev_intros pres_unary pres_binary pres_cast pres_call
      pres_trait pres_init_list)

lemma pres_decl: "ev_preserves R ev \<Longrightarrow> preserves R (exec_decl H ev d)"
  unfolding exec_decl_def by (cases d) (auto intro!: inv_intros ev_intros)

lemma pres_exec_stmts: "ev_preserves R ev \<Longrightarrow> preserves R (exec_stmts ev ss)"
  by (induction ss) (auto intro!: inv_intros ev_intros)

lemma pres_for_loop: "ev_preserves R ev \<Longrightarrow> preserves R (for_loop H ev n c i b)"
  by (induction n) (auto intro!: inv_intros ev_intros)

lemma pres_exec_for: "ev_preserves R ev \<Longrightarrow> preserves R (exec_for H ev i c n b)"
  unfolding exec_for_def by (intro inv_intros ev_intros pres_for_loop)

lemma pres_find_case: "ev_preserves R ev \<Longrightarrow> preserves R (find_case H ev v ss)"
  by (induction ss) (auto intro!: inv_intros ev_intros split: stmt.splits)

lemma pres_switch_body: "ev_preserves R ev \<Longrightarrow> preserves R (switch_body H ev c b)"
  unfolding switch_body_def
  by (auto intro!: inv_intros ev_intros pres_find_case pres_exec_stmts split: stmt.splits)

lemma pres_switch: "ev_preserves R ev \<Longrightarrow> preserves R (exec_switch H ev c b)"
  unfolding exec_switch_def by (intro inv_intros pres_switch_body)

lemma pres_if_stmt: "ev_preserves R ev \<Longrightarrow> preserves R (exec_if H ev c t e)"
  unfolding exec_if_def by (intro inv_intros ev_intros)

lemma pres_exec_stmt: "ev_preserves R ev \<Longrightarrow> preserves R (exec_stmt H ev s)"
  unfolding exec_stmt_def
  by (cases s) (auto intro!: inv_intros ev_intros pres_exec_stmts pres_decl pres_exec_for
      pres_switch pres_if_stmt split: option.splits)

lemma interp_preserves: "ev_preserves R (interp H n)"
proof (induction n)
  case 0
  show ?case by (auto simp: ev_preserves_def intro!: inv_intros)
next
  case (Suc n)
  from pres_eval_rexpr [OF Suc] pres_eval_lexpr [OF Suc] pres_exec_stmt [OF Suc] show ?case
    by (simp add: ev_preserves_def interp_step_def)
qed

end

section \<open>Memory\<close>

lemma mx_modify:
  "(\<And>s. active_mem (f s) = active_mem s \<and> id_counter (f s) = id_counter s) \<Longrightarrow>
   preserves mem_ext (modifyM f)"
  by (rule mx.pres_modify) (simp add: mem_ext_cong)

lemma mx_pop_stack_frame: "preserves mem_ext pop_stack_frame"
  unfolding pop_stack_frame_def
  by (intro mx.pres_bind mx.pres_gets mx.pres_if mx.pres_fail mx.pres_seq mx_modify mx_pop_vars) simp

interpretation mem_emu: emu_invariant mem_ext H for H
proof
  show "preserves mem_ext (add_stack_var nm l)" for nm l
    unfolding add_stack_var_def Let_def
    by (intro mx.pres_bind mx.pres_gets mx.pres_if mx.pres_fail mx.pres_seq mx_modify) simp_all
  show "preserves mem_ext (in_frame m)" if "preserves mem_ext m" for m :: "evptr emu"
    unfolding in_frame_def add_stack_frame_def
    by (intro mx.pres_bind mx.pres_seq mx.pres_ret mx_modify mx_pop_stack_frame that) simp
  show "preserves mem_ext (in_source src m)" if "preserves mem_ext m" for src and m :: "evptr emu"
    unfolding in_source_def
    by (intro mx.pres_bind mx.pres_gets mx.pres_seq mx.pres_ret mx_modify that) simp_all
qed (fact mx_block_of_size mx_block_write mx_store_bytes mx_block_delete)+

section \<open>The stack\<close>

lemma active_mem_stack [simp]:
  "stack_ext s (s\<lparr>active_mem := m\<rparr>)" "stack_ext s (s\<lparr>id_counter := c, active_mem := m\<rparr>)"
  by (simp_all add: stack_ext_cong)

lemma block_writeE':
  assumes "block_write H p v off s = Inr (x, t)"
  shows "\<exists>m. t = s\<lparr>active_mem := m\<rparr>"
  using assms
  by (auto simp: block_write_def run_simps Let_def get_block_Inr store_bytes_Inr run_tags_def put_block_def
      split: sum.splits if_splits prod.splits)

interpretation stack_emu: emu_invariant stack_ext H for H
proof
  show "preserves stack_ext (block_of_size H t n)" for t n
    by (auto simp: preserves_def block_of_size_run split: if_splits)
  show "preserves stack_ext (block_write H p v off)" for p v off
    by (auto simp: preserves_def dest!: block_writeE')
  show "stack_ext s t'" if "store_bytes b k bs s = Inr (x, t')" for s b k bs x t'
    using that by (auto simp: store_bytes_Inr)
  show "preserves stack_ext (block_delete p)" for p
    by (auto simp: preserves_def block_delete_Inr sx.R_refl)
  show "preserves stack_ext (in_source src m)" if m: "preserves stack_ext m" for src and m :: "evptr emu"
    unfolding in_source_def
    by (intro sx.pres_bind sx.pres_gets sx.pres_seq sx.pres_ret sx.pres_modify m) (simp_all add: stack_ext_cong)
qed (fact sx_add_stack_var sx_in_frame)+

section \<open>The program and the current source\<close>

text \<open>What evaluation leaves alone: the tables of functions and globals, the current source.\<close>

definition same_program :: "emu_state \<Rightarrow> emu_state \<Rightarrow> bool" where
  "same_program s t \<longleftrightarrow> curr_source t = curr_source s \<and> local_vars t = local_vars s \<and>
     global_vars t = global_vars s \<and> global_functions t = global_functions s \<and>
     main_source t = main_source s \<and> fid_counter t = fid_counter s \<and> static_init t = static_init s"

interpretation sp: state_preorder same_program
  by unfold_locales (auto simp: same_program_def)

lemma sp_modify: "(\<And>s. same_program s (f s)) \<Longrightarrow> preserves same_program (modifyM f)"
  by (rule sp.pres_modify)

lemma sp_pop: "preserves same_program pop_stack_frame"
proof -
  have "preserves same_program (block_free p)" for p
    by (auto simp: preserves_def block_free_Inr same_program_def)
  then have "preserves same_program (pop_stack_var it)" for it
    unfolding pop_stack_var_def
    by (auto intro!: sp.pres_bind sp.pres_gets sp.pres_fail sp.pres_seq sp_modify
        simp: same_program_def split: option.splits)
  then show ?thesis unfolding pop_stack_frame_def
    by (intro sp.pres_bind sp.pres_gets sp.pres_if sp.pres_fail sp.pres_seq sp_modify sp.pres_forM)
      (auto simp: same_program_def)
qed

interpretation program_emu: emu_invariant same_program H for H
proof
  show "preserves same_program (block_of_size H t n)" for t n
    by (auto simp: preserves_def block_of_size_run same_program_def split: if_splits)
  show "preserves same_program (block_write H p v off)" for p v off
    by (auto simp: preserves_def same_program_def dest!: block_writeE')
  show "same_program s t'" if "store_bytes b k bs s = Inr (x, t')" for s b k bs x t'
    using that by (auto simp: store_bytes_Inr same_program_def)
  show "preserves same_program (block_delete p)" for p
    by (auto simp: preserves_def block_delete_Inr same_program_def)
  show "preserves same_program (add_stack_var nm l)" for nm l
    unfolding add_stack_var_def Let_def
    by (intro sp.pres_bind sp.pres_gets sp.pres_if sp.pres_fail sp.pres_seq sp_modify)
      (simp_all add: same_program_def)
  show "preserves same_program (in_frame m)" if "preserves same_program m" for m :: "evptr emu"
    unfolding in_frame_def add_stack_frame_def
    by (intro sp.pres_bind sp.pres_seq sp.pres_ret sp_modify sp_pop that) (simp add: same_program_def)
  show "preserves same_program (in_source src m)" if m: "preserves same_program m" for src and m :: "evptr emu"
  proof (rule preservesI)
    fix s x t assume "in_source src m s = Inr (x, t)"
    then obtain u where u: "m (s\<lparr>curr_source := src\<rparr>) = Inr (x, u)"
      and t: "t = u\<lparr>curr_source := curr_source s\<rparr>"
      by (auto simp: in_source_def run_simps split: sum.splits)
    from preservesD [OF m u] show "same_program s t" by (simp add: same_program_def t)
  qed
qed

section \<open>Properties\<close>

lemma mem_ext_inv: "mem_ext s t \<Longrightarrow> mem_inv s \<Longrightarrow> mem_inv t"
  by (simp add: mem_ext_def)

text \<open>C5: Memory through evaluation. From a state with the invariant, whatever expression or
  statement is evaluated, a state it returns has the invariant again; block ids are never
  handed out twice, no block changes its size, and freed or deleted memory never becomes
  usable again.\<close>

theorem evaluation_keeps_memory:
  assumes "mem_inv s"
  shows "(\<forall>e x t. rexpr (interp H n) e s = Inr (x, t) \<longrightarrow> mem_inv t \<and> mem_ext s t) \<and>
    (\<forall>e x t. lexpr (interp H n) e s = Inr (x, t) \<longrightarrow> mem_inv t \<and> mem_ext s t) \<and>
    (\<forall>c x t. run_stmt (interp H n) c s = Inr (x, t) \<longrightarrow> mem_inv t \<and> mem_ext s t)"
  using mem_emu.interp_preserves [of H n] assms mem_ext_inv
  unfolding ev_preserves_def preserves_def by blast

lemma run_string:
  "\<exists>t. lexpr (interp std_host 1) (StringLiteral SK_Ascii [65] CharType) init_state
     = Inr (lvalue_of (BlkPtr 3) CharType 0, t)"
  by (simp add: interp_step_def eval_lexpr_def eval_string_def run_simps block_of_size_run init_state_def PTRDIFF_MAX_def
      block_id_defs fresh_block_def store_bytes_def block_data_def put_block_def)

theorem evaluation_keeps_memory_witness:
  "\<exists>t. lexpr (interp std_host 1) (StringLiteral SK_Ascii [65] CharType) init_state
     = Inr (lvalue_of (BlkPtr 3) CharType 0, t) \<and> mem_inv t"
  using run_string evaluation_keeps_memory [OF mem_inv_init, of std_host 1] by blast

text \<open>C6: The stack through evaluation. Evaluating an expression or a statement only adds
  variables to the topmost frame, whatever calls it makes: the frames below and the
  variables already there are untouched, every frame opened is popped again, and the index
  stays that of the stack.\<close>

theorem evaluation_keeps_stack:
  assumes "stack_vars s = fs @ [f]" and "stack_inv s"
  shows "(\<forall>e x t. rexpr (interp H n) e s = Inr (x, t) \<longrightarrow> (\<exists>g. stack_vars t = fs @ [f @ g]) \<and> stack_inv t) \<and>
    (\<forall>e x t. lexpr (interp H n) e s = Inr (x, t) \<longrightarrow> (\<exists>g. stack_vars t = fs @ [f @ g]) \<and> stack_inv t) \<and>
    (\<forall>c x t. run_stmt (interp H n) c s = Inr (x, t) \<longrightarrow> (\<exists>g. stack_vars t = fs @ [f @ g]) \<and> stack_inv t)"
  using stack_emu.interp_preserves [of H n] assms
  by (auto simp: ev_preserves_def stack_ext_def dest!: preservesD)

lemma run_empty_block:
  "run_stmt (interp std_host 2) (CompoundStmt [NullStmt]) s = Inr (NullVal, s)"
  by (simp add: eval_nat_numeral interp_step_def exec_stmt_def in_frame_def add_stack_frame_run
      pop_stack_frame_def run_simps)

theorem evaluation_keeps_stack_witness:
  "\<exists>t. run_stmt (interp std_host 2) (CompoundStmt [NullStmt]) (init_state\<lparr>stack_vars := [[]]\<rparr>)
     = Inr (NullVal, t) \<and> stack_inv t"
proof -
  have i: "stack_inv (init_state\<lparr>stack_vars := [[]]\<rparr>)"
    by (simp add: stack_inv_def init_state_def stack_pos_def index_entry_def)
  from evaluation_keeps_stack [OF _ i, of "[]" "[]" std_host 2] run_empty_block
  show ?thesis by fastforce
qed

text \<open>C20: Evaluation changes neither the tables of functions and global variables nor the
  source file names are resolved in: a call that returns restores \<open>curr_source\<close>.\<close>

theorem evaluation_keeps_program:
  "(rexpr (interp H n) e s = Inr (x, t) \<longrightarrow> same_program s t) \<and>
   (lexpr (interp H n) e s = Inr (y, t) \<longrightarrow> same_program s t) \<and>
   (run_stmt (interp H n) c s = Inr (x, t) \<longrightarrow> same_program s t)"
  using program_emu.interp_preserves [of H n]
  by (auto simp: ev_preserves_def dest: preservesD)

theorem evaluation_keeps_program_witness:
  "run_stmt (interp std_host 2) (CompoundStmt [NullStmt]) init_state = Inr (NullVal, init_state) \<and>
   same_program init_state init_state"
  using evaluation_keeps_program [of std_host 2 undefined init_state undefined init_state undefined
      "CompoundStmt [NullStmt]"] run_empty_block [of init_state]
  by (simp add: same_program_def)

end
