(* ===== verification/InterpFuel.thy ===== *)
theory InterpFuel
  imports Interp
begin

text \<open>
  The bound on the recursion depth is only a bound: with more fuel the interpreter computes
  the same result, unless it ran out before (\<open>le_fuel\<close>). One lemma per function that calls
  back into the interpreter.
\<close>

section \<open>More of the composition rules\<close>

lemma le_fuel_let [fuel_intros]: "(\<And>x. le_fuel (f x) (g x)) \<Longrightarrow> le_fuel (Let v f) (Let v g)"
  by simp

lemma le_fuel_option [fuel_intros]:
  "le_fuel m m' \<Longrightarrow> (\<And>x. le_fuel (f x) (f' x)) \<Longrightarrow>
   le_fuel (case r of None \<Rightarrow> m | Some x \<Rightarrow> f x) (case r of None \<Rightarrow> m' | Some x \<Rightarrow> f' x)"
  by (cases r) auto

lemma le_fuel_prod [fuel_intros]:
  "(\<And>a b. le_fuel (f a b) (f' a b)) \<Longrightarrow>
   le_fuel (case r of (a, b) \<Rightarrow> f a b) (case r of (a, b) \<Rightarrow> f' a b)"
  by (cases r) auto

lemma le_fuel_list [fuel_intros]:
  "le_fuel m m' \<Longrightarrow> (\<And>x xs. le_fuel (f x xs) (f' x xs)) \<Longrightarrow>
   le_fuel (case r of [] \<Rightarrow> m | x # xs \<Rightarrow> f x xs) (case r of [] \<Rightarrow> m' | x # xs \<Rightarrow> f' x xs)"
  by (cases r) auto

lemma le_fuel_in_frame [fuel_intros]: "le_fuel m m' \<Longrightarrow> le_fuel (in_frame m) (in_frame m')"
  unfolding in_frame_def by (intro fuel_intros)

lemma le_fuel_in_source [fuel_intros]: "le_fuel m m' \<Longrightarrow> le_fuel (in_source src m) (in_source src m')"
  unfolding in_source_def by (intro fuel_intros)

section \<open>One lemma per function\<close>

definition le_ev :: "interp_fns \<Rightarrow> interp_fns \<Rightarrow> bool" where
  "le_ev ev ev' \<longleftrightarrow> fuel ev \<le> fuel ev' \<and> (\<forall>e. le_fuel (rexpr ev e) (rexpr ev' e)) \<and>
     (\<forall>e. le_fuel (lexpr ev e) (lexpr ev' e)) \<and> (\<forall>s. le_fuel (run_stmt ev s) (run_stmt ev' s))"

lemma le_evD:
  assumes "le_ev ev ev'"
  shows "le_fuel (rexpr ev e) (rexpr ev' e)" "le_fuel (lexpr ev e) (lexpr ev' e)"
    "le_fuel (run_stmt ev s) (run_stmt ev' s)"
  using assms by (simp_all add: le_ev_def)

lemma le_from_lvalue:
  "(\<And>e. le_fuel (f e) (f' e)) \<Longrightarrow> le_fuel (from_lvalue H f b off q) (from_lvalue H f' b off q)"
  "(\<And>e. le_fuel (f e) (f' e)) \<Longrightarrow> le_fuel (struct_from H f b off m) (struct_from H f' b off m)"
  by (induction H f b off q and H f b off m rule: from_lvalue_struct_from.induct)
    (simp_all only: from_lvalue.simps struct_from.simps, (intro fuel_intros | assumption | simp)+)

lemma le_load: "le_ev ev ev' \<Longrightarrow> le_fuel (load H (rexpr ev) l) (load H (rexpr ev') l)"
  unfolding load_def by (rule le_from_lvalue) (rule le_evD)

lemma le_load_at: "le_ev ev ev' \<Longrightarrow> le_fuel (load_at H ev l) (load_at H ev' l)"
  unfolding load_at_def by (rule le_load)

lemma le_rvalue: "le_ev ev ev' \<Longrightarrow> le_fuel (rvalue ev e) (rvalue ev' e)"
  unfolding rvalue_def by (intro fuel_intros le_evD)

lemmas ev_fuel = le_evD le_load_at le_rvalue le_load

lemma le_call_external:
  "le_ev ev ev' \<Longrightarrow> le_fuel (call_external H (rexpr ev) i) (call_external H (rexpr ev') i)"
proof -
  assume a: "le_ev ev ev'"
  have "le_fuel (emu_malloc H (rexpr ev)) (emu_malloc H (rexpr ev'))"
    "le_fuel (emu_free H (rexpr ev)) (emu_free H (rexpr ev'))"
    unfolding emu_malloc_def emu_free_def by (intro fuel_intros ev_fuel a)+
  then show ?thesis unfolding call_external_def
    by (intro fuel_intros) (auto intro: fuel_intros split: external_func.splits)
qed

lemma le_subscript: "le_ev ev ev' \<Longrightarrow> le_fuel (eval_subscript H ev b i) (eval_subscript H ev' b i)"
  unfolding eval_subscript_def by (intro fuel_intros ev_fuel)

lemma le_eval_lexpr: "le_ev ev ev' \<Longrightarrow> le_fuel (eval_lexpr H ev e) (eval_lexpr H ev' e)"
  unfolding eval_lexpr_def by (cases e) (auto intro: fuel_intros le_subscript ev_fuel)

lemma le_unary: "le_ev ev ev' \<Longrightarrow> le_fuel (eval_unary H ev op e q) (eval_unary H ev' op e q)"
  unfolding eval_unary_def by (cases op; simp; intro fuel_intros ev_fuel)

lemma le_binary_cases:
  assumes "le_ev ev ev'"
  shows "le_fuel (eval_assign H ev l r) (eval_assign H ev' l r)"
    "le_fuel (eval_compare H ev op l r) (eval_compare H ev' op l r)"
    "le_fuel (eval_compound_assign H ev nop l r) (eval_compound_assign H ev' nop l r)"
    "le_fuel (eval_arith H ev nop l r) (eval_arith H ev' nop l r)"
  unfolding eval_assign_def eval_compare_def eval_compound_assign_def eval_arith_def
  by (intro fuel_intros ev_fuel assms)+

lemma le_binary: "le_ev ev ev' \<Longrightarrow> le_fuel (eval_binary H ev op l r) (eval_binary H ev' op l r)"
  unfolding eval_binary_def
  by (cases op; simp; intro fuel_intros ev_fuel le_binary_cases)

lemma le_ptr_to_int: "le_ev ev ev' \<Longrightarrow> le_fuel (eval_ptr_to_int H ev e q) (eval_ptr_to_int H ev' e q)"
  unfolding eval_ptr_to_int_def by (intro fuel_intros ev_fuel)

lemma le_cast: "le_ev ev ev' \<Longrightarrow> le_fuel (eval_cast H ev k e q w) (eval_cast H ev' k e q w)"
  unfolding eval_cast_def by (cases k; simp; intro fuel_intros ev_fuel le_ptr_to_int)

lemma le_value_arg: "le_ev ev ev' \<Longrightarrow> le_fuel (value_arg H ev a) (value_arg H ev' a)"
  unfolding value_arg_def by (intro fuel_intros ev_fuel)

lemma le_call_body: "le_ev ev ev' \<Longrightarrow> le_fuel (call_body H ev fid args) (call_body H ev' fid args)"
  unfolding call_body_def by (intro fuel_intros ev_fuel le_value_arg le_call_external)

lemma le_call: "le_ev ev ev' \<Longrightarrow> le_fuel (eval_call H ev c args) (eval_call H ev' c args)"
  unfolding eval_call_def by (intro fuel_intros ev_fuel le_call_body)

lemma le_trait: "le_ev ev ev' \<Longrightarrow> le_fuel (eval_trait H ev k a) (eval_trait H ev' k a)"
  unfolding eval_trait_def by (cases k; simp; intro fuel_intros ev_fuel)

lemma le_init_elements:
  "le_ev ev ev' \<Longrightarrow> le_fuel (init_elements H ev p es k) (init_elements H ev' p es k)"
  by (induction es arbitrary: k) (auto intro!: fuel_intros ev_fuel)

lemma le_init_list: "le_ev ev ev' \<Longrightarrow> le_fuel (eval_init_list H ev es q) (eval_init_list H ev' es q)"
  unfolding eval_init_list_def by (intro fuel_intros ev_fuel le_init_elements)

lemma le_eval_rexpr: "le_ev ev ev' \<Longrightarrow> le_fuel (eval_rexpr H ev e) (eval_rexpr H ev' e)"
  unfolding eval_rexpr_def
  by (cases e) (auto intro: fuel_intros ev_fuel le_unary le_binary le_cast le_call le_trait le_init_list)

lemma le_decl: "le_ev ev ev' \<Longrightarrow> le_fuel (exec_decl H ev d) (exec_decl H ev' d)"
  unfolding exec_decl_def by (cases d; simp; intro fuel_intros ev_fuel)

lemma le_exec_stmts: "le_ev ev ev' \<Longrightarrow> le_fuel (exec_stmts ev ss) (exec_stmts ev' ss)"
  by (induction ss) (auto intro!: fuel_intros ev_fuel)

lemma le_for_loop:
  "le_ev ev ev' \<Longrightarrow> n \<le> m \<Longrightarrow> le_fuel (for_loop H ev n c i b) (for_loop H ev' m c i b)"
proof (induction n arbitrary: m)
  case 0
  then show ?case by (simp add: le_fuel_out)
next
  case (Suc n)
  then obtain k where "m = Suc k" and "n \<le> k" by (cases m) auto
  with Suc show ?case by (simp only: for_loop.simps) (intro fuel_intros ev_fuel; simp)
qed

lemma le_exec_for: "le_ev ev ev' \<Longrightarrow> le_fuel (exec_for H ev i c n b) (exec_for H ev' i c n b)"
  unfolding exec_for_def
  by (intro fuel_intros ev_fuel le_for_loop) (auto simp: le_ev_def)

lemma le_find_case: "le_ev ev ev' \<Longrightarrow> le_fuel (find_case H ev v ss) (find_case H ev' v ss)"
proof (induction ss)
  case (Cons s ss)
  then show ?case by (cases s) (auto intro!: fuel_intros ev_fuel)
qed (simp add: fuel_intros)

lemma le_switch: "le_ev ev ev' \<Longrightarrow> le_fuel (exec_switch H ev c b) (exec_switch H ev' c b)"
  unfolding exec_switch_def switch_body_def
  by (cases b) (auto intro!: fuel_intros ev_fuel le_find_case le_exec_stmts)

lemma le_if_stmt: "le_ev ev ev' \<Longrightarrow> le_fuel (exec_if H ev c t e) (exec_if H ev' c t e)"
  unfolding exec_if_def by (intro fuel_intros ev_fuel)

lemma le_exec_stmt: "le_ev ev ev' \<Longrightarrow> le_fuel (exec_stmt H ev s) (exec_stmt H ev' s)"
  unfolding exec_stmt_def
  by (cases s) (auto intro!: fuel_intros ev_fuel le_exec_stmts le_decl le_exec_for le_switch le_if_stmt
      split: option.splits)

lemma le_interp_Suc: "le_ev (interp H n) (interp H (Suc n))"
proof (induction n)
  case 0
  show ?case by (auto simp: le_ev_def intro: le_fuel_out)
next
  case (Suc n)
  have "fuel (interp H n) \<le> fuel (interp H (Suc n))" using Suc by (simp add: le_ev_def)
  with le_eval_rexpr [OF Suc] le_eval_lexpr [OF Suc] le_exec_stmt [OF Suc] show ?case
    by (simp add: le_ev_def interp_step_def)
qed

lemma le_interp: "n \<le> m \<Longrightarrow> le_ev (interp H n) (interp H m)"
proof (induction rule: dec_induct)
  case base
  show ?case by (simp add: le_ev_def le_fuel_refl)
next
  case (step k)
  with le_interp_Suc [of H k] show ?case
    unfolding le_ev_def by (meson le_fuel_trans order_trans)
qed

end
