(* ===== verification/IntCells.thy ===== *)
theory IntCells
  imports MemoryProps Casts
begin

text \<open>
  Blocks that hold an array of \<open>int\<close>: what the interpreter makes of an \<open>int\<close> variable (an
  array of one), and of the storage of an array of \<open>int\<close>. The abstraction of such a block
  is the list of its elements, each a number or uninitialized; a store is the update of the
  list, a load its selection.
\<close>

section \<open>The abstraction\<close>

definition cell_at :: "host \<Rightarrow> byte list \<Rightarrow> nat \<Rightarrow> apint option \<Rightarrow> bool" where
  "cell_at H d j c \<longleftrightarrow> (case c of
     Some x \<Rightarrow> ap_fits NUM_TYPE_INT x \<and>
       num_from_mem H NUM_TYPE_INT (drop (8 * j) d) = Inr (num_of_apint NUM_TYPE_INT x)
   | None \<Rightarrow> \<exists>y r. num_from_mem H NUM_TYPE_INT (drop (8 * j) d)
       = Inr (EmuNum STATUS_UNINITIALIZED NUM_TYPE_INT y r))"

definition int_array :: "host \<Rightarrow> emu_state \<Rightarrow> u32 \<Rightarrow> apint option list \<Rightarrow> bool" where
  "int_array H s i cs \<longleftrightarrow> (\<exists>b d. active_mem s i = Some b \<and> bid b = i \<and>
     memtype b \<noteq> MEM_TYPE_FREED \<and> bdata b = Some d \<and> bsize b = 8 * length cs \<and>
     length d = 8 * length cs \<and> firsttag b = Some 0 \<and>
     uniform_tags IntType 8 (length cs) (tags b) \<and> (\<forall>j < length cs. cell_at H d j (cs ! j)))"

text \<open>The value that stands for an element.\<close>

definition int_val :: "host \<Rightarrow> apint option \<Rightarrow> emu_val" where
  "int_val H c = (case c of Some x \<Rightarrow> num_of_apint NUM_TYPE_INT x
     | None \<Rightarrow> num_of_status H NUM_TYPE_INT STATUS_UNINITIALIZED)"

lemma int_array_cong: "active_mem t i = active_mem s i \<Longrightarrow> int_array H t i cs = int_array H s i cs"
  by (simp add: int_array_def)

lemma int_val_simps [simp]:
  "obj_type H (int_val H c) = IntType" "emu_size (int_val H c) = Inr 8"
  by (cases c; simp add: int_val_def num_of_apint_def num_of_status_def)+

text \<open>The bytes of an element are read back as the element, wherever they are stored.\<close>

lemma int_val_repr:
  assumes "llvm_host H" and "\<And>x. c = Some x \<Longrightarrow> ap_fits NUM_TYPE_INT x"
  obtains bs where "dump_repr H (int_val H c) = Inr bs" and "length bs = 8"
    and "\<And>d j. 8 * j + 8 \<le> length d \<Longrightarrow> cell_at H (store_at d (8 * j) bs) j c"
proof (cases c)
  case None
  let ?bs = "num_dump H STATUS_UNINITIALIZED NUM_TYPE_INT (ap_uninit H) EMU_TYPE_INT_ID"
  have "dump_repr H (int_val H c) = Inr ?bs"
    by (simp add: None int_val_def num_of_status_def)
  moreover have "cell_at H (store_at d (8 * j) ?bs) j c" if "8 * j + 8 \<le> length d" for d j
  proof -
    have u: "u32_of_bytes (?bs @ rest) = EMU_TYPE_INT_ID OR EMU_TYPE_UNINIT_MASK" for rest
      by (simp add: num_dump_def)
    show ?thesis using that
      by (simp add: None cell_at_def drop_store_at num_from_mem_def Let_def u num_tag_status_def)
  qed
  ultimately show ?thesis using that by simp
next
  case (Some x)
  let ?bs = "num_dump H STATUS_DEFINED NUM_TYPE_INT x EMU_TYPE_INT_ID"
  have d: "dump_repr H (int_val H c) = Inr ?bs"
    by (simp add: Some int_val_def num_of_apint_def)
  have "ok_num NUM_TYPE_INT (num_of_apint NUM_TYPE_INT x)"
    using assms(2) Some by (auto simp: ok_num_def ap_fits_def)
  from llvm_host.num_read_back [OF assms(1) this]
  have "cell_at H (store_at e (8 * j) ?bs) j c" if "8 * j + 8 \<le> length e" for e j
    using that assms(2) Some d by (simp add: cell_at_def repr_bytes_def int_val_def)
  with d that show ?thesis by simp
qed

text \<open>A store into one element leaves the others.\<close>

lemma cell_at_other:
  assumes "k \<noteq> j" and "8 * j + 8 \<le> length d" and "8 * k + 8 \<le> length d" and "length bs = 8"
  shows "cell_at H (store_at d (8 * j) bs) k c = cell_at H d k c"
proof -
  have "num_from_mem H NUM_TYPE_INT (drop (8 * k) (store_at d (8 * j) bs))
      = num_from_mem H NUM_TYPE_INT (drop (8 * k) d)"
  proof (rule num_from_mem_local)
    show "take (4 + (bits_in_num_type NUM_TYPE_INT + 7) div 8) (drop (8 * k) (store_at d (8 * j) bs))
        = take (4 + (bits_in_num_type NUM_TYPE_INT + 7) div 8) (drop (8 * k) d)"
    proof (cases "k < j")
      case True
      then show ?thesis using assms by (simp add: take_drop_store_at_before)
    next
      case False
      with assms(1) have "8 * j + 8 \<le> 8 * k" by simp
      then have "drop (8 * k) (store_at d (8 * j) bs) = drop (8 * k) d"
        using assms by (simp add: store_at_def)
      then show ?thesis by simp
    qed
  qed (use assms in auto)
  then show ?thesis by (simp only: cell_at_def)
qed

section \<open>Loading and storing\<close>

lemma int_array_load:
  assumes "int_array H s i cs" and "j < length cs"
  shows "\<exists>v. from_lvalue H ev (BlkPtr i) (8 * j) IntType s = Inr (v, s) \<and>
    (case cs ! j of Some x \<Rightarrow> v = num_of_apint NUM_TYPE_INT x \<and> ap_fits NUM_TYPE_INT x
     | None \<Rightarrow> \<exists>y r. v = EmuNum STATUS_UNINITIALIZED NUM_TYPE_INT y r)"
proof -
  from assms(1) obtain b d where b: "active_mem s i = Some b" "memtype b \<noteq> MEM_TYPE_FREED"
    "bdata b = Some d" "bsize b = 8 * length cs" and c: "cell_at H d j (cs ! j)"
    using assms(2) by (auto simp: int_array_def)
  have "\<not> bsize b - 8 * j < 4" using assms(2) b(4) by simp
  then show ?thesis using b c assms(2)
    by (auto simp: run_simps load_loc_def lvalue_of_def block_data_def load_num_def bytes_in_num_type_def
        cell_at_def split: option.splits)
qed

lemma int_array_store:
  assumes "llvm_host H" and "int_array H s i cs" and "j < length cs" and "8 * length cs < 2 ^ 31"
    and "\<And>x. c = Some x \<Longrightarrow> ap_fits NUM_TYPE_INT x"
  shows "\<exists>b. block_write H (BlkPtr i) (int_val H c) (8 * j) s
      = Inr ((), s\<lparr>active_mem := (active_mem s)(i := Some b)\<rparr>) \<and>
    int_array H (s\<lparr>active_mem := (active_mem s)(i := Some b)\<rparr>) i (cs[j := c])"
proof -
  from assms(2) obtain b d where b: "active_mem s i = Some b" "bid b = i"
     "memtype b \<noteq> MEM_TYPE_FREED" "bdata b = Some d" "bsize b = 8 * length cs"
     "length d = 8 * length cs" "firsttag b = Some 0" "uniform_tags IntType 8 (length cs) (tags b)"
    and c: "\<And>k. k < length cs \<Longrightarrow> cell_at H d k (cs ! k)"
    by (auto simp: int_array_def)
  obtain bs where bs: "dump_repr H (int_val H c) = Inr bs" "length bs = 8"
    and rb: "\<And>d j. 8 * j + 8 \<le> length d \<Longrightarrow> cell_at H (store_at d (8 * j) bs) j c"
    using int_val_repr [OF assms(1,5)] by blast
  let ?b = "b\<lparr>bdata := Some (store_at d (8 * j) bs), firsttag := Some 0, tags := tags b\<rparr>"
  have tag: "update_tag_write H IntType 8 (8 * j) (Some 0) (tags b) = Inr (Some 0, tags b)"
    using inside_write [OF b(8) assms(3), of H] by (simp add: mult.commute)
  have l: "8 * j + 8 \<le> 8 * length cs" using assms(3) by simp
  have "block_write H (BlkPtr i) (int_val H c) (8 * j) s
      = Inr ((), s\<lparr>active_mem := (active_mem s)(i := Some ?b)\<rparr>)"
    by (rule block_write_run [OF b(1,2,4) _ bs(1)]) (use b bs l tag in simp_all)
  moreover have "cell_at H (store_at d (8 * j) bs) k (cs[j := c] ! k)" if "k < length cs" for k
  proof (cases "k = j")
    case True
    then show ?thesis using rb [of j d] l b(6) assms(3) by simp
  next
    case False
    then show ?thesis using cell_at_other [OF False, of d bs H "cs ! k"] c [OF that] l b(6) bs(2) that by simp
  qed
  then have "int_array H (s\<lparr>active_mem := (active_mem s)(i := Some ?b)\<rparr>) i (cs[j := c])"
    using b bs l by (auto simp: int_array_def)
  ultimately show ?thesis by blast
qed

text \<open>The block of a new variable.\<close>

lemma int_array_new:
  assumes "llvm_host H" and "id_counter s \<noteq> 0" and "\<And>x. c = Some x \<Longrightarrow> ap_fits NUM_TYPE_INT x"
    and "t \<noteq> MEM_TYPE_FREED"
  shows "\<exists>b. let i = id_counter s;
      s' = s\<lparr>id_counter := i + 1, active_mem := (active_mem s)(i := Some b)\<rparr> in
    block_of_value H t (int_val H c) s = Inr (BlkPtr i, s') \<and> int_array H s' i [c]"
proof -
  obtain bs where bs: "dump_repr H (int_val H c) = Inr bs" "length bs = 8"
    and rb: "\<And>d j. 8 * j + 8 \<le> length d \<Longrightarrow> cell_at H (store_at d (8 * j) bs) j c"
    using int_val_repr [OF assms(1,3)] by blast
  obtain b where "block_of_value H t (int_val H c) s = Inr (BlkPtr (id_counter s),
      s\<lparr>id_counter := id_counter s + 1, active_mem := (active_mem s)(id_counter s := Some b)\<rparr>)"
    and b: "bid b = id_counter s" "memtype b = t" "bsize b = 8" "bdata b = Some bs" "firsttag b = Some 0"
      "uniform_tags (obj_type H (int_val H c)) 8 1 (tags b)"
    by (rule block_of_value_run [OF _ bs]) (use assms(2) bs(2) in auto)
  moreover have "cell_at H bs 0 c" using rb [of 0 bs] bs(2) by (simp add: store_at_def)
  then have "int_array H (s\<lparr>id_counter := id_counter s + 1, active_mem := (active_mem s)(id_counter s := Some b)\<rparr>)
      (id_counter s) [c]"
    using assms(4) b bs(2) by (simp add: int_array_def)
  ultimately show ?thesis by (simp add: Let_def) blast
qed

section \<open>Blocks without tags\<close>

text \<open>
  The block of a global variable: \<open>SetupVar\<close> allocates it and \<open>InitializeVar\<close> stores the value
  in it, both without a tag. It is loaded from like any other, and the first store tags it.
\<close>

definition raw_cell :: "emu_state \<Rightarrow> u32 \<Rightarrow> byte list \<Rightarrow> bool" where
  "raw_cell s i d \<longleftrightarrow> (\<exists>b. active_mem s i = Some b \<and> bid b = i \<and> memtype b \<noteq> MEM_TYPE_FREED \<and>
     bdata b = Some d \<and> bsize b = 8 \<and> length d = 8 \<and> firsttag b = None \<and> tags b = rbtree_empty)"

lemma raw_cell_cong: "active_mem t i = active_mem s i \<Longrightarrow> raw_cell t i d = raw_cell s i d"
  by (simp add: raw_cell_def)

lemma raw_cell_new:
  assumes "id_counter s \<noteq> 0" and "t \<noteq> MEM_TYPE_FREED"
  shows "\<exists>d. raw_cell (s\<lparr>id_counter := id_counter s + 1,
    active_mem := (active_mem s)(id_counter s := Some (fresh_block H (id_counter s) t 8))\<rparr>) (id_counter s) d"
  using assms by (simp add: raw_cell_def fresh_block_def)

lemma raw_cell_store:
  assumes "llvm_host H" and "raw_cell s i d" and "\<And>x. c = Some x \<Longrightarrow> ap_fits NUM_TYPE_INT x"
  shows "\<exists>b. block_write H (BlkPtr i) (int_val H c) 0 s
      = Inr ((), s\<lparr>active_mem := (active_mem s)(i := Some b)\<rparr>) \<and>
    int_array H (s\<lparr>active_mem := (active_mem s)(i := Some b)\<rparr>) i [c]"
proof -
  from assms(2) obtain b where b: "active_mem s i = Some b" "bid b = i" "memtype b \<noteq> MEM_TYPE_FREED"
    "bdata b = Some d" "bsize b = 8" "length d = 8" "firsttag b = None" "tags b = rbtree_empty"
    by (auto simp: raw_cell_def)
  obtain bs where bs: "dump_repr H (int_val H c) = Inr bs" "length bs = 8"
    and rb: "\<And>d j. 8 * j + 8 \<le> length d \<Longrightarrow> cell_at H (store_at d (8 * j) bs) j c"
    using int_val_repr [OF assms(1,3)] by blast
  obtain tt where tt: "update_tag_write H IntType 8 0 None rbtree_empty = Inr (Some 0, tt)"
    and un: "uniform_tags IntType 8 1 tt" using first_write [of IntType 8 H] by auto
  let ?b = "b\<lparr>bdata := Some (store_at d 0 bs), firsttag := Some 0, tags := tt\<rparr>"
  have "block_write H (BlkPtr i) (int_val H c) 0 s
      = Inr ((), s\<lparr>active_mem := (active_mem s)(i := Some ?b)\<rparr>)"
    by (rule block_write_run [OF b(1,2,4) _ bs(1)]) (use b bs tt in simp_all)
  moreover have "cell_at H (store_at d 0 bs) 0 c" using rb [of 0 d] b(6) by simp
  then have "int_array H (s\<lparr>active_mem := (active_mem s)(i := Some ?b)\<rparr>) i [c]"
    using b un bs(2) by (simp add: int_array_def)
  ultimately show ?thesis by blast
qed

text \<open>The raw store of an initial value.\<close>

lemma raw_cell_init:
  assumes "llvm_host H" and "raw_cell s i d" and "ap_fits NUM_TYPE_INT x"
  obtains bs b e where "dump_repr H (num_of_apint NUM_TYPE_INT x) = Inr bs"
    and "active_mem s i = Some b"
    and "store_bytes b 0 bs s
      = Inr ((), s\<lparr>active_mem := (active_mem s)(i := Some (b\<lparr>bdata := Some e\<rparr>))\<rparr>)"
    and "raw_cell (s\<lparr>active_mem := (active_mem s)(i := Some (b\<lparr>bdata := Some e\<rparr>))\<rparr>) i e"
    and "cell_at H e 0 (Some x)"
proof -
  from assms(2) obtain b where b: "active_mem s i = Some b" "bid b = i" "memtype b \<noteq> MEM_TYPE_FREED"
    "bdata b = Some d" "bsize b = 8" "length d = 8" "firsttag b = None" "tags b = rbtree_empty"
    by (auto simp: raw_cell_def)
  obtain bs where bs: "dump_repr H (int_val H (Some x)) = Inr bs" "length bs = 8"
    and rb: "\<And>d j. 8 * j + 8 \<le> length d \<Longrightarrow> cell_at H (store_at d (8 * j) bs) j (Some x)"
    using int_val_repr [OF assms(1), of "Some x"] assms(3) by blast
  let ?e = "store_at d 0 bs"
  show thesis
  proof (rule that)
    show "dump_repr H (num_of_apint NUM_TYPE_INT x) = Inr bs" using bs(1) by (simp add: int_val_def)
    show "active_mem s i = Some b" by (rule b(1))
    show "store_bytes b 0 bs s
      = Inr ((), s\<lparr>active_mem := (active_mem s)(i := Some (b\<lparr>bdata := Some ?e\<rparr>))\<rparr>)"
      using b bs(2) by (simp add: store_bytes_def block_data_def put_block_def run_simps)
    show "raw_cell (s\<lparr>active_mem := (active_mem s)(i := Some (b\<lparr>bdata := Some ?e\<rparr>))\<rparr>) i ?e"
      using b bs(2) by (simp add: raw_cell_def)
    show "cell_at H ?e 0 (Some x)" using rb [of 0 d] b(6) by simp
  qed
qed

lemma int_array_length: "int_array H s i cs \<Longrightarrow> 8 * length cs < 2 ^ 31"
  by (auto simp: int_array_def uniform_tags_def mult.commute)

section \<open>Properties\<close>

text \<open>C7: A block that holds \<open>int\<close> objects behaves like a list of them. A load of an element
  gives the number stored last, or an uninitialized one; a store updates this element and
  no other, and nothing else in the state; a store past the last element is reported, and so
  is a load.\<close>

theorem int_array_is_a_list:
  assumes "llvm_host H" and "int_array H s i cs" and "ap_fits NUM_TYPE_INT x"
  shows "if j < length cs
    then (\<exists>v. from_lvalue H ev (BlkPtr i) (8 * j) IntType s = Inr (v, s) \<and>
        (case cs ! j of Some y \<Rightarrow> v = num_of_apint NUM_TYPE_INT y
         | None \<Rightarrow> emu_status v = STATUS_UNINITIALIZED)) \<and>
      (\<exists>t b. block_write H (BlkPtr i) (num_of_apint NUM_TYPE_INT x) (8 * j) s = Inr ((), t) \<and>
        t = s\<lparr>active_mem := (active_mem s)(i := Some b)\<rparr> \<and> int_array H t i (cs[j := Some x]))
    else block_write H (BlkPtr i) (num_of_apint NUM_TYPE_INT x) (8 * j) s = Inl BadMemWrite \<and>
      from_lvalue H ev (BlkPtr i) (8 * j) IntType s = Inl
        (if j = length cs then BadMemRead else ErrExit (line ''Tried to read from invalid location''))"
proof (cases "j < length cs")
  case True
  from int_array_load [OF assms(2) True, of ev] obtain v where
    l: "from_lvalue H ev (BlkPtr i) (8 * j) IntType s = Inr (v, s)"
    and v: "case cs ! j of Some y \<Rightarrow> v = num_of_apint NUM_TYPE_INT y \<and> ap_fits NUM_TYPE_INT y
         | None \<Rightarrow> \<exists>y r. v = EmuNum STATUS_UNINITIALIZED NUM_TYPE_INT y r" by blast
  have "case cs ! j of Some y \<Rightarrow> v = num_of_apint NUM_TYPE_INT y
         | None \<Rightarrow> emu_status v = STATUS_UNINITIALIZED"
    using v by (auto split: option.splits)
  moreover have "int_val H (Some x) = num_of_apint NUM_TYPE_INT x" by (simp add: int_val_def)
  then have "\<exists>b. block_write H (BlkPtr i) (num_of_apint NUM_TYPE_INT x) (8 * j) s
      = Inr ((), s\<lparr>active_mem := (active_mem s)(i := Some b)\<rparr>) \<and>
    int_array H (s\<lparr>active_mem := (active_mem s)(i := Some b)\<rparr>) i (cs[j := Some x])"
    using int_array_store [OF assms(1,2) True int_array_length [OF assms(2)], of "Some x"] assms(3)
    by simp
  ultimately show ?thesis using l True by auto
next
  case False
  from assms(2) obtain b d where b: "active_mem s i = Some b" "memtype b \<noteq> MEM_TYPE_FREED"
    "bdata b = Some d" "bsize b = 8 * length cs" by (auto simp: int_array_def)
  have "block_write H (BlkPtr i) (num_of_apint NUM_TYPE_INT x) (8 * j) s = Inl BadMemWrite"
    using False b by (simp add: block_write_def run_simps Let_def num_of_apint_def)
  moreover have "from_lvalue H ev (BlkPtr i) (8 * j) IntType s = Inl
        (if j = length cs then BadMemRead else ErrExit (line ''Tried to read from invalid location''))"
    using False b
    by (simp add: run_simps load_loc_def lvalue_of_def block_data_def load_num_def bytes_in_num_type_def)
  ultimately show ?thesis using False by simp
qed

theorem int_array_is_a_list_witness:
  "\<exists>s t i. int_array std_host s i [None] \<and>
     block_write std_host (BlkPtr i) (num_of_apint NUM_TYPE_INT (APInt 32 5)) 0 s = Inr ((), t) \<and>
     int_array std_host t i [Some (APInt 32 5)]"
proof -
  have "ap_fits NUM_TYPE_INT (APInt 32 5)" by (simp add: ap_fits_def ap_wf_def)
  moreover obtain s where s: "int_array std_host s 3 [None]"
    using int_array_new [OF std.llvm_host_axioms, of init_state None MEM_TYPE_STACK]
    by (auto simp: init_state_def block_id_defs Let_def)
  ultimately show ?thesis
    using int_array_is_a_list [OF std.llvm_host_axioms s, of "APInt 32 5" 0] s by auto
qed

end
