(* ===== verification/IntSem.thy ===== *)
theory IntSem
  imports Arith StackProps
begin

text \<open>
  An abstract semantics for the \<open>int\<close> programs of the interpreted language: expressions over
  \<open>int\<close> variables with the usual operators, assignments and calls, and all statements the
  interpreter knows. It is what C says, on mathematical integers wrapped to 32 bits, with no memory:
  the state of a function is the stack of its own frames, each a list of variables with their
  values, the global variables, and the number of blocks that may still be allocated. Variables
  are scoped statically: a function sees its own frames and the global variables, and a call
  returns a value and changes nothing but the global variables. Undefined behaviour and everything outside the fragment is \<open>None\<close>. \<open>IntSim\<close>
  shows that the interpreter computes what this semantics says.
\<close>

section \<open>States\<close>

text \<open>A variable is uninitialized or has a value.\<close>

type_synonym int_frames = "(string \<times> int option) list list"

text \<open>The global variables that have their value, and the number of blocks that may still be
  allocated.\<close>

type_synonym int_globals = "(string \<times> int) list"

type_synonym int_world = "int_globals \<times> nat"

text \<open>The state of a function: its frames and the world.\<close>

type_synonym int_state = "int_frames \<times> int_world"

text \<open>The functions of the program, by name, and the names of its global variables.\<close>

record int_prog =
  prog_fun :: "string \<Rightarrow> function_decl option"
  prog_globals :: "string list"

definition a_free :: "int_prog \<Rightarrow> string \<Rightarrow> bool" where
  "a_free P nm \<longleftrightarrow> prog_fun P nm = None \<and> nm \<notin> set (prog_globals P)"

definition a_lookup :: "int_frames \<Rightarrow> string \<Rightarrow> int option option" where
  "a_lookup fs nm = (case stack_pos nm fs of [] \<Rightarrow> None
     | p # ps \<Rightarrow> let (n, i) = last (p # ps) in Some (snd (fs ! n ! i)))"

definition a_update :: "int_frames \<Rightarrow> string \<Rightarrow> int \<Rightarrow> int_frames option" where
  "a_update fs nm v = (case stack_pos nm fs of [] \<Rightarrow> None
     | p # ps \<Rightarrow> let (n, i) = last (p # ps) in Some (fs[n := (fs ! n)[i := (nm, Some v)]]))"

text \<open>A name is looked up in the frames, then among the global variables.\<close>

definition a_get :: "int_state \<Rightarrow> string \<Rightarrow> int option option" where
  "a_get st nm = (case a_lookup (fst st) nm of
     Some c \<Rightarrow> Some c
   | None \<Rightarrow> map_option Some (map_of (fst (snd st)) nm))"

definition a_put :: "string \<Rightarrow> int \<Rightarrow> int_globals \<Rightarrow> int_globals" where
  "a_put nm v g = map (\<lambda>p. if fst p = nm then (nm, v) else p) g"

definition a_set :: "int_state \<Rightarrow> string \<Rightarrow> int \<Rightarrow> int_state option" where
  "a_set st nm v = (case a_update (fst st) nm v of
     Some fs \<Rightarrow> Some (fs, snd st)
   | None \<Rightarrow> if map_of (fst (snd st)) nm = None then None
       else Some (fst st, a_put nm v (fst (snd st)), snd (snd st)))"

text \<open>
  A new variable takes a block; it must not have the name of a function or of a global variable:
  the interpreter would find it under this name in the functions it calls, too.
\<close>

definition a_declare :: "int_prog \<Rightarrow> string \<Rightarrow> int option \<Rightarrow> int_state \<Rightarrow> int_state option" where
  "a_declare P nm c st = (if fst st = [] \<or> snd (snd st) = 0 \<or> \<not> a_free P nm then None
     else Some (butlast (fst st) @ [last (fst st) @ [(nm, c)]], fst (snd st), snd (snd st) - 1))"

section \<open>Expressions\<close>

definition wrap32 :: "int \<Rightarrow> int" where
  "wrap32 = num_wrap NUM_TYPE_INT"

fun arith_op :: "binary_op \<Rightarrow> num_op option" where
  "arith_op BO_Add = Some OpAdd"
| "arith_op BO_Sub = Some OpSub"
| "arith_op BO_Mul = Some OpMul"
| "arith_op BO_Div = Some OpDiv"
| "arith_op BO_And = Some OpAnd"
| "arith_op BO_Or = Some OpOr"
| "arith_op _ = None"

fun compare_op :: "binary_op \<Rightarrow> (int \<Rightarrow> int \<Rightarrow> bool) option" where
  "compare_op BO_LT = Some (\<lambda>a b. a < b)"
| "compare_op BO_GT = Some (\<lambda>a b. a > b)"
| "compare_op BO_LE = Some (\<lambda>a b. a \<le> b)"
| "compare_op BO_GE = Some (\<lambda>a b. a \<ge> b)"
| "compare_op BO_EQ = Some (\<lambda>a b. a = b)"
| "compare_op BO_NE = Some (\<lambda>a b. a \<noteq> b)"
| "compare_op _ = None"

fun compound_op :: "binary_op \<Rightarrow> num_op option" where
  "compound_op BO_AddAssign = Some OpAdd"
| "compound_op BO_SubAssign = Some OpSub"
| "compound_op _ = None"

fun declref_name :: "expr \<Rightarrow> string option" where
  "declref_name (DeclRefExpr nm q) = Some nm"
| "declref_name _ = None"

text \<open>The value of an operator on two numbers.\<close>

definition a_binary :: "binary_op \<Rightarrow> int \<Rightarrow> int \<Rightarrow> int option" where
  "a_binary op a b = (case arith_op op of
     Some k \<Rightarrow> if k = OpDiv \<and> b = 0 then None else Some (wrap32 (int_op k a b))
   | None \<Rightarrow> (case compare_op op of
       Some c \<Rightarrow> Some (if c a b then 1 else 0)
     | None \<Rightarrow> None))"

text \<open>Assignment of \<open>b\<close> to a variable, plain or compound.\<close>

definition a_assign :: "binary_op \<Rightarrow> string \<Rightarrow> int \<Rightarrow> int_state \<Rightarrow> (int \<times> int_state) option" where
  "a_assign op nm b st =
     (if op = BO_Assign
      then (case a_set st nm b of None \<Rightarrow> None | Some st' \<Rightarrow> Some (b, st'))
      else (case compound_op op of
          None \<Rightarrow> None
        | Some k \<Rightarrow> (case a_get st nm of
            Some (Some a) \<Rightarrow>
              (case a_set st nm (wrap32 (int_op k a b)) of
                 None \<Rightarrow> None | Some st' \<Rightarrow> Some (wrap32 (int_op k a b), st'))
          | _ \<Rightarrow> None)))"

text \<open>The names an expression mentions.\<close>

fun expr_names :: "expr \<Rightarrow> string list" where
  "expr_names (DeclRefExpr nm q) = [nm]"
| "expr_names (ParenExpr e) = expr_names e"
| "expr_names (ImplicitCastExpr k e q) = expr_names e"
| "expr_names (UnaryOperator op e q) = expr_names e"
| "expr_names (BinaryOperator op l r) = expr_names l @ expr_names r"
| "expr_names (CallExpr callee args) = concat (map expr_names args)"
| "expr_names _ = []"

text \<open>
  The interpreter evaluates an argument with the parameters before it already in scope. A call
  has a meaning here only if no argument mentions the name of an earlier parameter.
\<close>

fun args_apart :: "string list \<Rightarrow> string list \<Rightarrow> expr list \<Rightarrow> bool" where
  "args_apart seen (p # ps) (e # es) \<longleftrightarrow>
     list_all (\<lambda>nm. nm \<notin> set seen) (expr_names e) \<and> args_apart (p # seen) ps es"
| "args_apart seen ps es \<longleftrightarrow> True"

text \<open>The function a call names, if its parameters are \<open>int\<close> and as many as the arguments.\<close>

definition a_callee :: "int_prog \<Rightarrow> expr \<Rightarrow> expr list \<Rightarrow> function_decl option" where
  "a_callee P callee args = (case callee of
     ImplicitCastExpr k e q \<Rightarrow> (case declref_name e of
         None \<Rightarrow> None
       | Some nm \<Rightarrow> (case prog_fun P nm of
           None \<Rightarrow> None
         | Some f \<Rightarrow>
             if k = CK_FunctionToPointerDecay \<and> length (fd_params f) = length args \<and>
               list_all (\<lambda>p. snd p = IntType \<and> a_free P (fst p)) (fd_params f) \<and>
               args_apart [] (map fst (fd_params f)) args
             then Some f else None))
   | _ \<Rightarrow> None)"

text \<open>
  Expressions: the value and the state after it. The right operand comes first; it may assign.
  Reading an uninitialized variable is an error. The argument \<open>call\<close> is the meaning of
  functions: the value returned and the world after it. Arguments are evaluated in order, and
  each takes a block.
\<close>

type_synonym int_call = "function_decl \<Rightarrow> int list \<Rightarrow> int_world \<Rightarrow> (int \<times> int_world) option"

fun a_eval :: "int_prog \<Rightarrow> int_call \<Rightarrow> expr \<Rightarrow> int_state \<Rightarrow> (int \<times> int_state) option"
  and a_args :: "int_prog \<Rightarrow> int_call \<Rightarrow> expr list \<Rightarrow> int_state \<Rightarrow> (int list \<times> int_state) option" where
  "a_eval P call (IntegerLiteral i) st =
     (if ap_fits NUM_TYPE_INT i then Some (num_value NUM_TYPE_INT i, st) else None)"
| "a_eval P call (ParenExpr e) st = a_eval P call e st"
| "a_eval P call (ImplicitCastExpr k e q) st =
     (case declref_name e of
        None \<Rightarrow> None
      | Some nm \<Rightarrow>
          if k = CK_LValueToRValue
          then (case a_get st nm of Some (Some v) \<Rightarrow> Some (v, st) | _ \<Rightarrow> None)
          else None)"
| "a_eval P call (UnaryOperator op e q) st =
     (case a_eval P call e st of
        None \<Rightarrow> None
      | Some (v, st') \<Rightarrow> (case op of
          UO_Minus \<Rightarrow> Some (wrap32 (- v), st')
        | UO_LNot \<Rightarrow> Some (if v = 0 then 1 else 0, st')
        | _ \<Rightarrow> None))"
| "a_eval P call (BinaryOperator op l r) st =
     (case a_eval P call r st of
        None \<Rightarrow> None
      | Some (b, st1) \<Rightarrow>
          (case declref_name l of
             Some nm \<Rightarrow> a_assign op nm b st1
           | None \<Rightarrow>
               (case a_eval P call l st1 of
                  None \<Rightarrow> None
                | Some (a, st2) \<Rightarrow>
                    (case a_binary op a b of None \<Rightarrow> None | Some c \<Rightarrow> Some (c, st2)))))"
| "a_eval P call (CallExpr callee args) st =
     (case a_callee P callee args of
        None \<Rightarrow> None
      | Some f \<Rightarrow> (case a_args P call args st of
          None \<Rightarrow> None
        | Some (vs, st') \<Rightarrow> (case call f vs (snd st') of
            None \<Rightarrow> None
          | Some (v, w) \<Rightarrow> Some (v, fst st', w))))"
| "a_eval P call (CharacterLiteral c) st = None"
| "a_eval P call (StringLiteral k bs q) st = None"
| "a_eval P call (DeclRefExpr nm q) st = None"
| "a_eval P call (ArraySubscriptExpr b i) st = None"
| "a_eval P call (ExplicitCastExpr k e q w) st = None"
| "a_eval P call (UnaryExprOrTypeTraitExpr k q) st = None"
| "a_eval P call (InitListExpr es q) st = None"
| "a_eval P call (ImplicitValueInitExpr q) st = None"
| "a_eval P call (UnsupportedExpr s) st = None"
| "a_args P call [] st = Some ([], st)"
| "a_args P call (e # es) st =
     (case a_eval P call e st of
        None \<Rightarrow> None
      | Some (v, st') \<Rightarrow>
          if snd (snd st') = 0 then None
          else (case a_args P call es (fst st', fst (snd st'), snd (snd st') - 1) of
              None \<Rightarrow> None
            | Some (vs, st'') \<Rightarrow> Some (v # vs, st'')))"

section \<open>Statements\<close>

text \<open>
  An initializer must not change a variable. The interpreter evaluates it twice, so it takes
  the blocks of two evaluations.
\<close>

definition a_init :: "int_prog \<Rightarrow> int_call \<Rightarrow> expr \<Rightarrow> int_state \<Rightarrow> (int \<times> int_state) option" where
  "a_init P call e st = (case a_eval P call e st of
     None \<Rightarrow> None
   | Some (w, st1) \<Rightarrow> (case a_eval P call e st1 of
       None \<Rightarrow> None
     | Some (w', st2) \<Rightarrow>
         if fst st1 = fst st \<and> fst (snd st1) = fst (snd st) \<and> fst st2 = fst st \<and>
           fst (snd st2) = fst (snd st) \<and> w' = w then Some (w, st2) else None))"

definition a_decl :: "int_prog \<Rightarrow> int_call \<Rightarrow> decl \<Rightarrow> int_state \<Rightarrow> int_state option" where
  "a_decl P call d st = (case d of
     NonVarDecl \<Rightarrow> Some st
   | VarDecl v \<Rightarrow>
       (if vd_type v \<noteq> IntType then None
        else (case vd_init v of
            None \<Rightarrow> a_declare P (vd_name v) None st
          | Some e \<Rightarrow> (case a_init P call e st of
              None \<Rightarrow> None
            | Some (w, st') \<Rightarrow> a_declare P (vd_name v) (Some w) st'))))"

fun a_decls :: "int_prog \<Rightarrow> int_call \<Rightarrow> decl list \<Rightarrow> int_state \<Rightarrow> int_state option" where
  "a_decls P call [] st = Some st"
| "a_decls P call (d # ds) st = (case a_decl P call d st of
     None \<Rightarrow> None | Some st' \<Rightarrow> a_decls P call ds st')"

text \<open>A frame around a statement.\<close>

definition a_push :: "int_state \<Rightarrow> int_state" where
  "a_push st = (fst st @ [[]], snd st)"

definition a_pop :: "int_state \<Rightarrow> int_state" where
  "a_pop st = (butlast (fst st), snd st)"

text \<open>
  A statement ends normally, by a \<open>return\<close> with a value, or by a \<open>break\<close> that leaves it.
\<close>

datatype int_result = Norm | Ret int | Brk

text \<open>
  The result of a statement and the state. The sequence, the loop and the \<open>switch\<close> take the
  functions \<open>ex\<close> that executes a statement and \<open>ev\<close> that evaluates an expression; the loop is
  bounded. A \<open>break\<close> out of a loop has no meaning here: the interpreter does not end the loop
  on it, but the function.
\<close>

type_synonym int_exec = "stmt \<Rightarrow> int_state \<Rightarrow> (int_result \<times> int_state) option"

type_synonym int_eval = "expr \<Rightarrow> int_state \<Rightarrow> (int \<times> int_state) option"

fun a_stmts :: "int_exec \<Rightarrow> stmt list \<Rightarrow> int_state \<Rightarrow> (int_result \<times> int_state) option" where
  "a_stmts ex [] st = Some (Norm, st)"
| "a_stmts ex (c # cs) st = (case ex c st of
     None \<Rightarrow> None
   | Some (r, st') \<Rightarrow> if r = Norm then a_stmts ex cs st' else Some (r, st'))"

fun a_loop :: "int_exec \<Rightarrow> int_eval \<Rightarrow> nat \<Rightarrow> expr \<Rightarrow> expr \<Rightarrow> stmt \<Rightarrow> int_state
    \<Rightarrow> (int_result \<times> int_state) option" where
  "a_loop ex ev 0 e k b st = None"
| "a_loop ex ev (Suc n) e k b st = (case ev e st of
     None \<Rightarrow> None
   | Some (v, st1) \<Rightarrow>
       if v = 0 then Some (Norm, st1)
       else (case ex b st1 of
           None \<Rightarrow> None
         | Some (r, st') \<Rightarrow> (case r of
             Ret w \<Rightarrow> Some (Ret w, st')
           | Brk \<Rightarrow> None
           | Norm \<Rightarrow> (case ev k st' of
               None \<Rightarrow> None
             | Some (w, st'') \<Rightarrow> a_loop ex ev n e k b st''))))"

definition a_frame :: "(int_state \<Rightarrow> (int_result \<times> int_state) option) \<Rightarrow> int_state
    \<Rightarrow> (int_result \<times> int_state) option" where
  "a_frame f st = (case f (a_push st) of None \<Rightarrow> None | Some (r, st') \<Rightarrow> Some (r, a_pop st'))"

definition a_for :: "int_exec \<Rightarrow> int_eval \<Rightarrow> nat \<Rightarrow> stmt \<Rightarrow> expr \<Rightarrow> expr \<Rightarrow> stmt \<Rightarrow> int_state
    \<Rightarrow> (int_result \<times> int_state) option" where
  "a_for ex ev n i e k b st = (case ex i st of
     None \<Rightarrow> None
   | Some (r, st') \<Rightarrow> if r = Norm then a_loop ex ev n e k b st' else None)"

text \<open>
  The statements of a \<open>switch\<close> from the first label of the value on. A label must not change
  the state. Labels inside a statement of the body, or right behind another label, have no
  meaning here, nor have declarations in the body.
\<close>

fun no_labels :: "stmt \<Rightarrow> bool" where
  "no_labels (CompoundStmt ss) \<longleftrightarrow> list_all no_labels ss"
| "no_labels (IfStmt e th el) \<longleftrightarrow> no_labels th \<and> (case el of None \<Rightarrow> True | Some s \<Rightarrow> no_labels s)"
| "no_labels (ForStmt i e k b) \<longleftrightarrow> no_labels b"
| "no_labels (CaseStmt e s) \<longleftrightarrow> False"
| "no_labels (DefaultStmt s) \<longleftrightarrow> False"
| "no_labels _ \<longleftrightarrow> True"

fun switch_part :: "stmt \<Rightarrow> bool" where
  "switch_part (CaseStmt e s) \<longleftrightarrow> no_labels s"
| "switch_part (DefaultStmt s) \<longleftrightarrow> no_labels s"
| "switch_part (DeclStmt ds) \<longleftrightarrow> False"
| "switch_part s \<longleftrightarrow> no_labels s"

fun a_find :: "int_eval \<Rightarrow> int \<Rightarrow> stmt list \<Rightarrow> int_state \<Rightarrow> stmt list option" where
  "a_find ev v [] st = Some []"
| "a_find ev v (s # ss) st = (case s of
     CaseStmt e sub \<Rightarrow> (case ev e st of
         None \<Rightarrow> None
       | Some (w, st') \<Rightarrow>
           if st' \<noteq> st then None else if w = v then Some (s # ss) else a_find ev v ss st)
   | _ \<Rightarrow> a_find ev v ss st)"

fun is_default_label :: "stmt \<Rightarrow> bool" where
  "is_default_label (DefaultStmt s) \<longleftrightarrow> True"
| "is_default_label _ \<longleftrightarrow> False"

definition a_switch :: "int_exec \<Rightarrow> int_eval \<Rightarrow> expr \<Rightarrow> stmt \<Rightarrow> int_state
    \<Rightarrow> (int_result \<times> int_state) option" where
  "a_switch ex ev e b st = (case b of
     CompoundStmt ss \<Rightarrow>
       if \<not> list_all switch_part ss then None
       else (case ev e st of
           None \<Rightarrow> None
         | Some (v, st1) \<Rightarrow> (case a_find ev v ss st1 of
             None \<Rightarrow> None
           | Some found \<Rightarrow>
               (case a_stmts ex (if found = [] then dropWhile (\<lambda>s. \<not> is_default_label s) ss else found) st1 of
                  None \<Rightarrow> None
                | Some (r, st2) \<Rightarrow> Some (if r = Brk then Norm else r, st2))))
   | _ \<Rightarrow> None)"

text \<open>A call executes the body with the arguments as the variables of its first frame.\<close>

definition a_call :: "int_exec \<Rightarrow> int_call" where
  "a_call ex f vs w = (case fd_body f of
     None \<Rightarrow> None
   | Some b \<Rightarrow> (case ex b ([zip (map fst (fd_params f)) (map Some vs)], w) of
       Some (Ret v, st') \<Rightarrow> Some (v, snd st')
     | _ \<Rightarrow> None))"

text \<open>The bound is on the depth of statements and calls and on the iterations of loops.\<close>

primrec a_exec :: "int_prog \<Rightarrow> nat \<Rightarrow> int_exec" where
  "a_exec P 0 c st = None"
| "a_exec P (Suc n) c st = (case c of
     CompoundStmt ss \<Rightarrow> a_frame (a_stmts (a_exec P n) ss) st
   | DeclStmt ds \<Rightarrow> (case a_decls P (a_call (a_exec P n)) ds st of
         None \<Rightarrow> None | Some st' \<Rightarrow> Some (Norm, st'))
   | ExprStmt e \<Rightarrow> (case a_eval P (a_call (a_exec P n)) e st of
         None \<Rightarrow> None | Some (v, st') \<Rightarrow> Some (Norm, st'))
   | ReturnStmt r \<Rightarrow> (case r of None \<Rightarrow> None | Some e \<Rightarrow>
       (case a_eval P (a_call (a_exec P n)) e st of
         None \<Rightarrow> None | Some (v, st') \<Rightarrow> Some (Ret v, st')))
   | IfStmt e th el \<Rightarrow> (case a_eval P (a_call (a_exec P n)) e st of
         None \<Rightarrow> None
       | Some (v, st') \<Rightarrow>
           if v \<noteq> 0 then a_exec P n th st'
           else (case el of None \<Rightarrow> Some (Norm, st') | Some s \<Rightarrow> a_exec P n s st'))
   | ForStmt i e k b \<Rightarrow> (case (i, e, k) of
         (Some i', Some e', Some k') \<Rightarrow>
           a_frame (a_for (a_exec P n) (a_eval P (a_call (a_exec P n))) n i' e' k' b) st
       | _ \<Rightarrow> None)
   | SwitchStmt e b \<Rightarrow> a_frame (a_switch (a_exec P n) (a_eval P (a_call (a_exec P n))) e b) st
   | CaseStmt e s \<Rightarrow> a_exec P n s st
   | DefaultStmt s \<Rightarrow> a_exec P n s st
   | BreakStmt \<Rightarrow> Some (Brk, st)
   | NullStmt \<Rightarrow> Some (Norm, st)
   | UnsupportedStmt nm \<Rightarrow> None)"

section \<open>Programs\<close>

text \<open>The functions and the variables a file defines; external declarations define nothing.\<close>

definition file_funs :: "top_decl list \<Rightarrow> function_decl list" where
  "file_funs fs = concat (map (\<lambda>d. case d of TopFunction f \<Rightarrow> [f] | _ \<Rightarrow> []) fs)"

definition file_vars :: "top_decl list \<Rightarrow> var_decl list" where
  "file_vars fs = concat (map (\<lambda>d. case d of
     TopVar v \<Rightarrow> if vd_extern_storage v then [] else [v] | _ \<Rightarrow> []) fs)"

definition file_prog :: "top_decl list \<Rightarrow> int_prog" where
  "file_prog fs = \<lparr>prog_fun = map_of (map (\<lambda>f. (fd_name f, f)) (filter fd_is_definition (file_funs fs))),
     prog_globals = map vd_name (file_vars fs)\<rparr>"

text \<open>
  The global variables, all of type \<open>int\<close>, get their values in order, each one once. An
  initializer sees those before it; each variable needs one.
\<close>

fun a_globals :: "int_eval \<Rightarrow> var_decl list \<Rightarrow> int_world \<Rightarrow> int_world option" where
  "a_globals ev [] w = Some w"
| "a_globals ev (v # vs) w = (case vd_init v of
     None \<Rightarrow> None
   | Some e \<Rightarrow> (case ev e ([], w) of
       None \<Rightarrow> None
     | Some (x, st) \<Rightarrow>
         if vd_type v \<noteq> IntType \<or> map_of (fst (snd st)) (vd_name v) \<noteq> None then None
         else a_globals ev vs (fst (snd st) @ [(vd_name v, x)], snd (snd st))))"

text \<open>
  The result of the program: the global variables are initialized, and the body of \<open>main\<close> is
  executed. At first \<open>k\<close> blocks may be allocated.
\<close>

definition a_program :: "nat \<Rightarrow> top_decl list \<Rightarrow> nat \<Rightarrow> int option" where
  "a_program n fs k = (case prog_fun (file_prog fs) ''main'' of
     None \<Rightarrow> None
   | Some f \<Rightarrow> (case fd_body f of
       None \<Rightarrow> None
     | Some b \<Rightarrow>
         (case a_globals (a_eval (file_prog fs) (a_call (a_exec (file_prog fs) n))) (file_vars fs) ([], k) of
            None \<Rightarrow> None
          | Some w \<Rightarrow> (case a_exec (file_prog fs) n b ([[]], w) of
              Some (Ret v, st) \<Rightarrow> Some v
            | _ \<Rightarrow> None))))"

end
