(* ===== verification/IntNums.thy ===== *)
theory IntNums
  imports IntSem IntCells InterpInv InterpFuel
begin

text \<open>
  The numbers of the interpreter as integers: what the host's comparisons, the literals and the
  cast of an \<open>int\<close> to \<open>int\<close> do to the value of a number of type \<open>int\<close>.
\<close>

section \<open>Numbers\<close>

abbreviation int_num :: "apint \<Rightarrow> emu_val" where
  "int_num x \<equiv> num_of_apint NUM_TYPE_INT x"

lemma int_num_simps [simp]:
  "obj_type H (int_num x) = IntType" "num_parts (int_num x) = Inr (STATUS_DEFINED, NUM_TYPE_INT, x)"
  by (simp_all add: num_of_apint_def)

lemma value_range32:
  assumes "ap_fits NUM_TYPE_INT x"
  shows "- (2 ^ 31) \<le> num_value NUM_TYPE_INT x" and "num_value NUM_TYPE_INT x < 2 ^ 31"
  using assms signed_take_bit_int_greater_eq_minus_exp [of 31 "int (ap_val x)"]
    signed_take_bit_int_less_exp [of 31 "int (ap_val x)"]
  by (simp_all add: num_value_def ap_sint_def ap_fits_def)

lemma sint_value: "ap_sint x = num_value NUM_TYPE_INT x"
  by (simp add: num_value_def)

lemma literal_value:
  assumes "llvm_host H" and "ap_fits NUM_TYPE_INT i"
  shows "eval_integer_literal H i = ret (Val (int_num i))"
proof -
  have m: "EMU_MIN_INT H = ap_of_int 32 (uint (- 0x80000000 :: u64))"
    "EMU_MAX_INT H = ap_of_int 32 (uint (0x7FFFFFFF :: u64))"
    unfolding EMU_MIN_INT_def EMU_MAX_INT_def by (rule llvm_host.new [OF assms(1)]; simp)+
  have f: "ap_wf i" "ap_width i = 32" using assms(2) by (auto simp: ap_fits_def)
  have s: "ap_sint (EMU_MIN_INT H) = - (2 ^ 31)" "ap_sint (EMU_MAX_INT H) = 2 ^ 31 - 1"
    unfolding m by (simp_all add: ap_sint_of_int signed_take_bit_eq_take_bit_shift take_bit_eq_mod)
  have w: "ap_wf (EMU_MIN_INT H)" "ap_width (EMU_MIN_INT H) = 32"
    "ap_wf (EMU_MAX_INT H)" "ap_width (EMU_MAX_INT H) = 32" by (simp_all add: m)
  have "\<not> ap_slt H i (EMU_MIN_INT H)"
    using llvm_host.slt [OF assms(1) f(1) w(1)] f(2) w(2) s(1) value_range32 [OF assms(2)]
    by (simp add: sint_value)
  moreover have "\<not> ap_sgt H i (EMU_MAX_INT H)"
    using llvm_host.slt [OF assms(1) w(3) f(1)] f(2) w(4) s(2) value_range32 [OF assms(2)]
    by (simp add: sint_value ap_sgt_def)
  ultimately show ?thesis by (simp add: eval_integer_literal_def)
qed

lemma host_compare:
  assumes "llvm_host H" and "ap_fits NUM_TYPE_INT x" and "ap_fits NUM_TYPE_INT y"
  defines "a \<equiv> num_value NUM_TYPE_INT x" and "b \<equiv> num_value NUM_TYPE_INT y"
  shows "ap_is_negative H x = (a < 0)" and "ap_slt H x y = (a < b)" and "ap_sle H x y = (a \<le> b)"
    and "ap_eq H x y = (a = b)"
    and "0 \<le> a \<Longrightarrow> 0 \<le> b \<Longrightarrow> ap_ult H x y = (a < b)"
    and "0 \<le> a \<Longrightarrow> 0 \<le> b \<Longrightarrow> ap_ule H x y = (a \<le> b)"
proof -
  have f: "ap_wf x" "ap_wf y" "ap_width x = ap_width y" using assms(2,3) by (auto simp: ap_fits_def)
  have v: "int (ap_val x) = (if a < 0 then a + 2 ^ 32 else a)" "int (ap_val y) = (if b < 0 then b + 2 ^ 32 else b)"
    using num_value_val [OF assms(2)] num_value_val [OF assms(3)] by (simp_all add: a_def b_def)
  note r = value_range32 [OF assms(2), folded a_def] value_range32 [OF assms(3), folded b_def]
  show "ap_is_negative H x = (a < 0)" "ap_slt H x y = (a < b)" "ap_sle H x y = (a \<le> b)"
    using llvm_host.is_negative [OF assms(1) f(1)] llvm_host.slt [OF assms(1) f] llvm_host.sle [OF assms(1) f]
    by (simp_all add: sint_value a_def b_def)
  have "ap_val x = ap_val y \<longleftrightarrow> a = b"
  proof
    assume "ap_val x = ap_val y"
    then have "int (ap_val x) = int (ap_val y)" by simp
    then show "a = b" using v r by (auto split: if_splits)
  next
    assume "a = b"
    then have "int (ap_val x) = int (ap_val y)" using v by simp
    then show "ap_val x = ap_val y" by simp
  qed
  then show "ap_eq H x y = (a = b)" using llvm_host.eq [OF assms(1) f] by simp
  assume "0 \<le> a" "0 \<le> b"
  with v have "ap_val x = nat a" "ap_val y = nat b" by (simp_all add: nat_eq_iff)
  then show "ap_ult H x y = (a < b)" "ap_ule H x y = (a \<le> b)"
    using \<open>0 \<le> a\<close> \<open>0 \<le> b\<close> llvm_host.ult [OF assms(1) f] llvm_host.ule [OF assms(1) f]
    by (auto simp: nat_less_eq_zless nat_le_eq_zle)
qed

lemma num_compare_value:
  assumes "llvm_host H" and "ap_fits NUM_TYPE_INT x" and "ap_fits NUM_TYPE_INT y"
    and "compare_op op = Some c"
  shows "num_compare H op x y = c (num_value NUM_TYPE_INT x) (num_value NUM_TYPE_INT y)"
proof -
  note xy = host_compare [OF assms(1-3)] and yx = host_compare [OF assms(1,3,2)]
  consider "num_value NUM_TYPE_INT x < 0" | "0 \<le> num_value NUM_TYPE_INT x" "num_value NUM_TYPE_INT y < 0"
    | "0 \<le> num_value NUM_TYPE_INT x" "0 \<le> num_value NUM_TYPE_INT y" by linarith
  then show ?thesis
  proof cases
    case 1
    then show ?thesis using assms(4) xy(1-4) yx(1-4)
      by (cases op) (auto simp: num_compare_def ap_cmp_defs)
  next
    case 2
    then show ?thesis using assms(4) xy(1) yx(1)
      by (cases op) (auto simp: num_compare_def)
  next
    case 3
    then show ?thesis using assms(4) xy(1,4) yx(1,4) xy(5,6) yx(5,6)
      by (cases op) (auto simp: num_compare_def ap_cmp_defs)
  qed
qed

lemma bool_value:
  assumes "llvm_host H"
  shows "ap_fits NUM_TYPE_INT (ap_new H 32 (if b then 1 else 0) True)"
    and "num_value NUM_TYPE_INT (ap_new H 32 (if b then 1 else 0) True) = (if b then 1 else 0)"
  using llvm_host.new [OF assms, of 32]
  by (simp_all add: ap_fits_def num_value_def ap_sint_of_int)

lemma int_cast_self:
  assumes "llvm_host H" and "ap_fits NUM_TYPE_INT x"
  obtains z where "emu_cast_to H (int_num x) IntType = Inr (int_num z)" and "ap_fits NUM_TYPE_INT z"
    and "num_value NUM_TYPE_INT z = num_value NUM_TYPE_INT x"
proof -
  obtain z where "num_cast_to H NUM_TYPE_INT x IntType = Inr (int_num z)" "ap_fits NUM_TYPE_INT z"
    "num_value NUM_TYPE_INT z = num_wrap NUM_TYPE_INT (int (ap_val x))"
    using llvm_host.cast_value [OF assms, of IntType NUM_TYPE_INT] by auto
  with that num_value_eq [OF assms(2)] show thesis by (simp add: num_of_apint_def)
qed

section \<open>Properties\<close>

text \<open>Comparisons. The comparison operators of \<open>int\<close> give 1 or 0 as the comparison of the
  two numbers does, although the code compares the representations as unsigned numbers
  whenever the left one is not negative.\<close>

lemma comparison_value:
  assumes "llvm_host H" and "ap_fits NUM_TYPE_INT x" and "ap_fits NUM_TYPE_INT y"
    and "compare_op op = Some c" and "rexpr ev l s = Inr (Val (num_of_apint NUM_TYPE_INT x), t)"
  shows "\<exists>z. eval_compare H ev op l (Val (num_of_apint NUM_TYPE_INT y)) s
      = Inr (Val (num_of_apint NUM_TYPE_INT z), t) \<and> ap_fits NUM_TYPE_INT z \<and>
    num_value NUM_TYPE_INT z = (if c (num_value NUM_TYPE_INT x) (num_value NUM_TYPE_INT y) then 1 else 0)"
  using num_compare_value [OF assms(1-4)] bool_value [OF assms(1), of True] bool_value [OF assms(1), of False]
    assms(5)
  by (auto simp: eval_compare_def rvalue_def run_simps Let_def)

lemma comparison_value_witness:
  "\<exists>z. eval_compare std_host (interp std_host 1) BO_LT (IntegerLiteral (APInt 32 7))
      (Val (num_of_apint NUM_TYPE_INT (APInt 32 (2 ^ 32 - 1)))) init_state
      = Inr (Val (num_of_apint NUM_TYPE_INT z), init_state) \<and> num_value NUM_TYPE_INT z = 0"
proof -
  have f: "ap_fits NUM_TYPE_INT (APInt 32 7)" "ap_fits NUM_TYPE_INT (APInt 32 (2 ^ 32 - 1))"
    by (simp_all add: ap_fits_def ap_wf_def)
  have "rexpr (interp std_host 1) (IntegerLiteral (APInt 32 7)) init_state
      = Inr (Val (num_of_apint NUM_TYPE_INT (APInt 32 7)), init_state)"
    by (simp add: interp_step_def eval_rexpr_def literal_value [OF std.llvm_host_axioms f(1)] run_simps)
  from comparison_value [OF std.llvm_host_axioms f, of BO_LT "\<lambda>a b. a < b", OF _ this]
  obtain z where "eval_compare std_host (interp std_host 1) BO_LT (IntegerLiteral (APInt 32 7))
      (Val (num_of_apint NUM_TYPE_INT (APInt 32 (2 ^ 32 - 1)))) init_state
      = Inr (Val (num_of_apint NUM_TYPE_INT z), init_state)"
    "num_value NUM_TYPE_INT z = (if num_value NUM_TYPE_INT (APInt 32 7)
       < num_value NUM_TYPE_INT (APInt 32 (2 ^ 32 - 1)) then 1 else 0)" by auto
  moreover have "\<not> num_value NUM_TYPE_INT (APInt 32 7) < num_value NUM_TYPE_INT (APInt 32 (2 ^ 32 - 1))"
    by (simp add: num_value_def ap_sint_def)
  ultimately show ?thesis by auto
qed

end
