(* ===== verification/StartupProps.thy ===== *)
theory StartupProps
  imports Startup StackProps
begin

text \<open>
  The functions at startup: a definition that is stored gets an id of its own, an entry in
  \<open>global_functions\<close> and a block that is read back as this id; the pass over the declarations
  leaves it alone; and \<open>find_main\<close> finds it again.
\<close>

section \<open>The block of a function\<close>

definition func_block :: "emu_state \<Rightarrow> u32 \<Rightarrow> u32 \<Rightarrow> qtype \<Rightarrow> bool" where
  "func_block s i fid q \<longleftrightarrow> (\<exists>b d. active_mem s i = Some b \<and> bid b = i \<and> memtype b \<noteq> MEM_TYPE_FREED \<and>
     memtype b \<noteq> MEM_TYPE_EXTERN \<and> bsize b = 8 \<and> bdata b = Some d \<and> length d = 8 \<and> (\<forall>known. func_from_mem known d q
       = Inr (EmuFunc (if known fid then STATUS_DEFINED else STATUS_UNDEFINED) q EMU_TYPE_FUNC_ID fid)))"

lemma func_block_cong: "active_mem t i = active_mem s i \<Longrightarrow> func_block t i fid q = func_block s i fid q"
  by (simp add: func_block_def)

lemma func_block_new:
  assumes "isFunctionType q" and "id_counter s \<noteq> 0" and "t \<noteq> MEM_TYPE_FREED"
    and "t \<noteq> MEM_TYPE_EXTERN"
  obtains b where "block_of_value H t (func_of_id fid q) s = Inr (BlkPtr (id_counter s),
      s\<lparr>id_counter := id_counter s + 1, active_mem := (active_mem s)(id_counter s := Some b)\<rparr>)"
    and "func_block (s\<lparr>id_counter := id_counter s + 1,
      active_mem := (active_mem s)(id_counter s := Some b)\<rparr>) (id_counter s) fid q"
proof -
  let ?bs = "bytes_u32 EMU_TYPE_FUNC_ID @ bytes_u32 fid"
  have q: "q \<noteq> RawType" using assms(1) by auto
  obtain b where w: "block_of_value H t (func_of_id fid q) s = Inr (BlkPtr (id_counter s),
      s\<lparr>id_counter := id_counter s + 1, active_mem := (active_mem s)(id_counter s := Some b)\<rparr>)"
    and b: "bid b = id_counter s" "memtype b = t" "bsize b = 8" "bdata b = Some ?bs"
    by (rule block_of_value_run [of "func_of_id fid q" 8 H ?bs s t])
      (use assms(2) q in \<open>auto simp: func_of_id_def emu_size_defs\<close>)
  have "func_from_mem known ?bs q
       = Inr (EmuFunc (if known fid then STATUS_DEFINED else STATUS_UNDEFINED) q EMU_TYPE_FUNC_ID fid)" for known
    using u32_roundtrip [of fid "[]"]
    by (simp add: func_from_mem_def emu_size_defs type_id_defs Let_def)
  with b assms(3,4) have "func_block (s\<lparr>id_counter := id_counter s + 1,
      active_mem := (active_mem s)(id_counter s := Some b)\<rparr>) (id_counter s) fid q"
    by (simp add: func_block_def)
  with w that show thesis by blast
qed

section \<open>Storing a definition\<close>

text \<open>The state after a definition is stored in block \<open>b\<close>.\<close>

definition stored :: "function_decl \<Rightarrow> nat \<Rightarrow> mem_block \<Rightarrow> emu_state \<Rightarrow> emu_state" where
  "stored f src b s = (let fid = fid_counter s; i = id_counter s in
     s\<lparr>fid_counter := fid + 1, id_counter := i + 1, active_mem := (active_mem s)(i := Some b),
       global_functions := map_insert (global_functions s) fid (src, f),
       local_vars := (local_vars s)(src :=
         map_insert (local_vars s src) (fd_name f) (lvalue_of (BlkPtr i) (fd_type f) 0)),
       global_vars := (if fd_external_linkage f then map_insert (global_vars s) (fd_name f) src
         else global_vars s),
       main_source := (if fd_external_linkage f \<and> fd_name f = ''main'' then Some src else main_source s)\<rparr>)"

lemma stored_fields:
  "id_counter (stored f src b s) = id_counter s + 1" "fid_counter (stored f src b s) = fid_counter s + 1"
  "active_mem (stored f src b s) = (active_mem s)(id_counter s := Some b)"
  "global_functions (stored f src b s) = map_insert (global_functions s) (fid_counter s) (src, f)"
  "local_vars (stored f src b s) = (local_vars s)(src := map_insert (local_vars s src) (fd_name f)
     (lvalue_of (BlkPtr (id_counter s)) (fd_type f) 0))"
  "main_source (stored f src b s)
     = (if fd_external_linkage f \<and> fd_name f = ''main'' then Some src else main_source s)"
  "stack_vars (stored f src b s) = stack_vars s" "stack_var_map (stored f src b s) = stack_var_map s"
  "curr_source (stored f src b s) = curr_source s"
  by (simp_all add: stored_def Let_def)

lemma StoreFuncImpl_run:
  assumes "local_vars s src (fd_name f) = None" and "fd_is_definition f" and "isFunctionType (fd_type f)"
    and "fid_counter s \<noteq> 0" and "id_counter s \<noteq> 0"
  obtains b where "StoreFuncImpl H f src s = Inr ((), stored f src b s)"
    and "func_block (stored f src b s) (id_counter s) (fid_counter s) (fd_type f)"
proof -
  let ?s = "s\<lparr>fid_counter := fid_counter s + 1\<rparr>"
  have "id_counter ?s \<noteq> 0" using assms(5) by simp
  from func_block_new [OF assms(3) this, of MEM_TYPE_INVALID H "fid_counter s"] obtain b where
    b: "block_of_value H MEM_TYPE_INVALID (func_of_id (fid_counter s) (fd_type f)) ?s
      = Inr (BlkPtr (id_counter s), ?s\<lparr>id_counter := id_counter s + 1,
          active_mem := (active_mem s)(id_counter s := Some b)\<rparr>)"
    and fb: "func_block (?s\<lparr>id_counter := id_counter s + 1,
          active_mem := (active_mem s)(id_counter s := Some b)\<rparr>) (id_counter s) (fid_counter s) (fd_type f)"
    by auto
  have "StoreFuncImpl H f src s = Inr ((), stored f src b s)"
    using assms(1,2,4) b
    by (simp add: StoreFuncImpl_def new_fid_def add_local_def add_global_def run_simps stored_def Let_def)
  moreover have "func_block (stored f src b s) (id_counter s) (fid_counter s) (fd_type f)"
    using fb by (simp add: func_block_def stored_def Let_def)
  ultimately show thesis using that by blast
qed

text \<open>Reading the function back.\<close>

lemma load_function:
  assumes "func_block s i fid q" and "isFunctionType q"
  shows "load H ev (lvalue_of (BlkPtr i) q 0) s = Inr (EmuFunc
    (if global_functions s fid = None then STATUS_UNDEFINED else STATUS_DEFINED) q EMU_TYPE_FUNC_ID fid, s)"
  using assms by (cases q) (auto simp: func_block_def load_def lvalue_of_def run_simps load_loc_def
      block_data_def is_function_def load_func_def emu_size_defs)

section \<open>The pass over the declarations, and main\<close>

text \<open>A function that is set up stays what it is, and so does every other.\<close>

lemma setup_function_run:
  assumes "local_vars s (curr_source s) (fd_name f) = Some (lvalue_of (BlkPtr i) q 0)"
    and "func_block s i fid (fd_type f)" and "global_functions s fid \<noteq> None"
  obtains b where "setup_function H f src s = Inr ((), s\<lparr>active_mem := (active_mem s)(i := Some b)\<rparr>)"
    and "\<And>j fid q. func_block s j fid q \<Longrightarrow>
      func_block (s\<lparr>active_mem := (active_mem s)(i := Some b)\<rparr>) j fid q"
proof -
  from assms(2) obtain b d where b: "active_mem s i = Some b" "bid b = i" "bdata b = Some d" "bsize b = 8" "length d = 8"
    and d: "\<forall>known. func_from_mem known d (fd_type f)
       = Inr (EmuFunc (if known fid then STATUS_DEFINED else STATUS_UNDEFINED) (fd_type f) EMU_TYPE_FUNC_ID fid)"
    by (auto simp: func_block_def)
  let ?b = "b\<lparr>memtype := MEM_TYPE_STATIC\<rparr>"
  have "setup_function H f src s = Inr ((), s\<lparr>active_mem := (active_mem s)(i := Some ?b)\<rparr>)"
    using assms(1,3) b d
    by (simp add: setup_function_def get_nonstack_var_def run_simps lvalue_of_def block_data_def
        is_function_def put_block_def)
  moreover have "func_block (s\<lparr>active_mem := (active_mem s)(i := Some ?b)\<rparr>) j fid q"
    if "func_block s j fid q" for j fid q
    using that b by (cases "j = i") (auto simp: func_block_def)
  ultimately show thesis using that by blast
qed

lemma find_main_run:
  assumes "main_source s = Some src" and "local_vars s src ''main'' = Some (lvalue_of (BlkPtr i) q 0)"
    and "func_block s i fid q" and "global_functions s fid = Some (src', f)"
  shows "find_main s = Inr ((src, f), s)"
proof -
  from assms(3) obtain b d where b: "active_mem s i = Some b" "bdata b = Some d"
    and d: "\<forall>known. func_from_mem known d q
       = Inr (EmuFunc (if known fid then STATUS_DEFINED else STATUS_UNDEFINED) q EMU_TYPE_FUNC_ID fid)"
    by (auto simp: func_block_def)
  then show ?thesis using assms(1,2,4)
    by (simp add: find_main_def run_simps lvalue_of_def block_data_def is_function_def)
qed

section \<open>Properties\<close>

text \<open>C24: Storing a function. The definition of a function whose name the file does not have
  yet gets the next function id and the next block; its name then leads to an lvalue from
  which this very function is loaded, and the id to its declaration and file; a name with
  external linkage becomes known to the other files unless one of them has it, and \<open>main\<close> is
  remembered.\<close>

theorem stored_function_found:
  assumes "local_vars s src (fd_name f) = None" and "fd_is_definition f" and "isFunctionType (fd_type f)"
    and "fid_counter s \<noteq> 0" and "id_counter s \<noteq> 0" and "global_functions s (fid_counter s) = None"
  shows "\<exists>t l. StoreFuncImpl H f src s = Inr ((), t) \<and> local_vars t src (fd_name f) = Some l \<and>
    load H ev l t = Inr (func_of_id (fid_counter s) (fd_type f), t) \<and>
    global_functions t = (global_functions s)(fid_counter s := Some (src, f)) \<and>
    fid_counter t = fid_counter s + 1 \<and> id_counter t = id_counter s + 1 \<and>
    global_vars t = (if fd_external_linkage f \<and> global_vars s (fd_name f) = None
      then (global_vars s)(fd_name f := Some src) else global_vars s) \<and>
    main_source t = (if fd_external_linkage f \<and> fd_name f = ''main'' then Some src else main_source s)"
proof -
  let ?l = "lvalue_of (BlkPtr (id_counter s)) (fd_type f) 0"
  obtain b where r: "StoreFuncImpl H f src s = Inr ((), stored f src b s)"
    and fb: "func_block (stored f src b s) (id_counter s) (fid_counter s) (fd_type f)"
    by (rule StoreFuncImpl_run [OF assms(1-5)])
  have g: "global_functions (stored f src b s) = (global_functions s)(fid_counter s := Some (src, f))"
    using assms(6) by (simp add: stored_def Let_def map_insert_def)
  have "load H ev ?l (stored f src b s) = Inr (func_of_id (fid_counter s) (fd_type f), stored f src b s)"
    using load_function [OF fb assms(3)] by (simp add: g func_of_id_def)
  with r g assms(1) show ?thesis
    by (intro exI [of _ "stored f src b s"] exI [of _ ?l])
      (simp add: stored_def Let_def map_insert_def split: option.splits)
qed

definition sample_function :: "stmt \<Rightarrow> function_decl" where
  "sample_function body = \<lparr>fd_name = ''main'', fd_type = QFunction ''int (void)'', fd_return = IntType,
     fd_params = [], fd_body = Some body, fd_is_definition = True, fd_external_linkage = True\<rparr>"

theorem stored_function_found_witness:
  "\<exists>t. StoreFuncImpl std_host (sample_function NullStmt) 0 init_state = Inr ((), t) \<and>
    global_functions t 3 = Some (0, sample_function NullStmt) \<and> main_source t = Some 0"
  using stored_function_found [of init_state 0 "sample_function NullStmt" std_host undefined]
  by (auto simp: sample_function_def init_state_def NUM_EXTERNAL_FUNCTIONS_def block_id_defs)

end
