(* ===== verification/IntRel.thy ===== *)
theory IntRel
  imports IntNums StartupProps
begin

text \<open>
  The relation between the states of the interpreter and of \<open>IntSem\<close>. An interpreter state
  represents all frames of the stack, those of the callers included: every variable has a
  block of its own, which holds its value, and every function and every global variable of the
  program is found under its name. The operations on memory and stack that the fragment uses are shown here to go
  along with the operations of the abstract states.
\<close>

section \<open>The relation\<close>

text \<open>A block that holds the variable's value.\<close>

definition int_cell :: "host \<Rightarrow> emu_state \<Rightarrow> u32 \<Rightarrow> int option \<Rightarrow> bool" where
  "int_cell H s i c \<longleftrightarrow> (case c of
     None \<Rightarrow> int_array H s i [None]
   | Some v \<Rightarrow> \<exists>x. num_value NUM_TYPE_INT x = v \<and>
       (int_array H s i [Some x] \<or> (\<exists>d. raw_cell s i d \<and> cell_at H d 0 (Some x))))"

definition var_rel :: "host \<Rightarrow> emu_state \<Rightarrow> string \<times> lvalue \<Rightarrow> string \<times> int option \<Rightarrow> bool" where
  "var_rel H s v a \<longleftrightarrow> fst v = fst a \<and>
     (\<exists>i. snd v = lvalue_of (BlkPtr i) IntType 0 \<and> int_cell H s i (snd a))"

definition var_block :: "string \<times> lvalue \<Rightarrow> blkptr" where
  "var_block v = lblock (snd v)"

text \<open>Every function of the program is found under its name.\<close>

definition fun_rep :: "int_prog \<Rightarrow> emu_state \<Rightarrow> bool" where
  "fun_rep P s \<longleftrightarrow> (\<forall>nm f. prog_fun P nm = Some f \<longrightarrow> isFunctionType (fd_type f) \<and> (\<exists>i fid.
       local_vars s (curr_source s) nm = Some (lvalue_of (BlkPtr i) (fd_type f) 0) \<and>
       func_block s i fid (fd_type f) \<and> \<not> fid < NUM_EXTERNAL_FUNCTIONS \<and>
       global_functions s fid = Some (curr_source s, f) \<and>
       BlkPtr i \<notin> var_block ` set (concat (stack_vars s))))"

text \<open>The block of a global variable, which may not be initialized yet.\<close>

definition glob_cell :: "host \<Rightarrow> emu_state \<Rightarrow> u32 \<Rightarrow> int option \<Rightarrow> bool" where
  "glob_cell H s i c \<longleftrightarrow> (case c of
     None \<Rightarrow> \<exists>d. raw_cell s i d
   | Some v \<Rightarrow> int_cell H s i (Some v))"

text \<open>Every global variable is found under its name; different names have different blocks.\<close>

definition glob_rep :: "host \<Rightarrow> int_prog \<Rightarrow> int_globals \<Rightarrow> emu_state \<Rightarrow> bool" where
  "glob_rep H P g s \<longleftrightarrow> fst ` set g \<subseteq> set (prog_globals P) \<and>
     (\<forall>nm \<in> set (prog_globals P). prog_fun P nm = None \<and> (\<exists>i.
       local_vars s (curr_source s) nm = Some (lvalue_of (BlkPtr i) IntType 0) \<and>
       glob_cell H s i (map_of g nm) \<and> BlkPtr i \<notin> var_block ` set (concat (stack_vars s))))"

definition locals_apart :: "emu_state \<Rightarrow> nat \<Rightarrow> bool" where
  "locals_apart s src \<longleftrightarrow> (\<forall>nm nm' l l'. local_vars s src nm = Some l \<longrightarrow>
     local_vars s src nm' = Some l' \<longrightarrow> lblock l = lblock l' \<longrightarrow> nm = nm')"

text \<open>The tables of the program, with the names on the stack.\<close>

definition tables_rep :: "host \<Rightarrow> int_prog \<Rightarrow> int_globals \<Rightarrow> emu_state \<Rightarrow> bool" where
  "tables_rep H P g s \<longleftrightarrow> (\<forall>v \<in> set (concat (stack_vars s)). a_free P (fst v)) \<and> fun_rep P s \<and>
     glob_rep H P g s \<and> locals_apart s (curr_source s)"

definition rep :: "host \<Rightarrow> int_prog \<Rightarrow> emu_state \<Rightarrow> int_state \<Rightarrow> bool" where
  "rep H P s st \<longleftrightarrow> stack_inv s \<and> mem_inv s \<and> next_id s + snd (snd st) \<le> 2 ^ 32 \<and>
     list_all2 (list_all2 (var_rel H s)) (stack_vars s) (fst st) \<and>
     distinct (map var_block (concat (stack_vars s))) \<and> tables_rep H P (fst (snd st)) s"

lemma int_cell_cong: "active_mem t i = active_mem s i \<Longrightarrow> int_cell H t i c = int_cell H s i c"
  using int_array_cong [of t i s] raw_cell_cong [of t i s] by (auto simp: int_cell_def split: option.splits)

lemma glob_cell_cong: "active_mem t i = active_mem s i \<Longrightarrow> glob_cell H t i c = glob_cell H s i c"
  using int_cell_cong [of t i s] raw_cell_cong [of t i s] by (auto simp: glob_cell_def split: option.splits)

text \<open>What is known of a block that holds a value, and of any variable's block.\<close>

lemma int_cell_value:
  assumes "int_cell H s i (Some v)"
  obtains x b d where "active_mem s i = Some b" and "bdata b = Some d" and "bsize b = 8"
    and "memtype b \<noteq> MEM_TYPE_FREED" and "ap_fits NUM_TYPE_INT x"
    and "num_from_mem H NUM_TYPE_INT d = Inr (int_num x)" and "num_value NUM_TYPE_INT x = v"
  using assms by (auto simp: int_cell_def int_array_def raw_cell_def cell_at_def)

lemma int_cell_live: "int_cell H s i c \<Longrightarrow> \<exists>b. active_mem s i = Some b \<and> bdata b \<noteq> None"
  by (auto simp: int_cell_def int_array_def raw_cell_def split: option.splits)

lemma glob_cell_live: "glob_cell H s i c \<Longrightarrow> \<exists>b. active_mem s i = Some b \<and> bdata b \<noteq> None"
  by (auto simp: glob_cell_def raw_cell_def dest: int_cell_live split: option.splits)

text \<open>A step that leaves the blocks of the program's names alone and adds variables in new blocks.\<close>

lemma stack_blocks_grow:
  assumes "BlkPtr i \<notin> var_block ` set (concat (stack_vars s))" and "active_mem s i = Some b"
    and "\<And>v. v \<in> set (concat (stack_vars t)) \<Longrightarrow> v \<in> set (concat (stack_vars s)) \<or>
      a_free P (fst v) \<and> (\<forall>j. var_block v = BlkPtr j \<longrightarrow> active_mem s j = None)"
  shows "BlkPtr i \<notin> var_block ` set (concat (stack_vars t))"
proof
  assume "BlkPtr i \<in> var_block ` set (concat (stack_vars t))"
  then obtain v where v: "v \<in> set (concat (stack_vars t))" "var_block v = BlkPtr i" by (metis image_iff)
  from assms(3) [OF v(1)] show False
  proof
    assume "v \<in> set (concat (stack_vars s))"
    then have "var_block v \<in> var_block ` set (concat (stack_vars s))" by (rule imageI)
    with v(2) assms(1) show False by simp
  qed (use v(2) assms(2) in simp)
qed

lemma tables_keep:
  assumes "tables_rep H P g s" and "local_vars t = local_vars s" and "curr_source t = curr_source s"
    and "global_functions t = global_functions s"
    and mem: "\<And>i b. active_mem s i = Some b \<Longrightarrow> BlkPtr i \<notin> var_block ` set (concat (stack_vars s)) \<Longrightarrow>
      active_mem t i = Some b"
    and new: "\<And>v. v \<in> set (concat (stack_vars t)) \<Longrightarrow> v \<in> set (concat (stack_vars s)) \<or>
      a_free P (fst v) \<and> (\<forall>j. var_block v = BlkPtr j \<longrightarrow> active_mem s j = None)"
  shows "tables_rep H P g t"
proof -
  have "fun_rep P t"
    unfolding fun_rep_def
  proof (intro allI impI)
    fix nm f assume "prog_fun P nm = Some f"
    with assms(1) obtain i fid where ft: "isFunctionType (fd_type f)"
      and i: "local_vars s (curr_source s) nm = Some (lvalue_of (BlkPtr i) (fd_type f) 0)"
        "func_block s i fid (fd_type f)" "\<not> fid < NUM_EXTERNAL_FUNCTIONS"
        "global_functions s fid = Some (curr_source s, f)"
        "BlkPtr i \<notin> var_block ` set (concat (stack_vars s))"
      unfolding tables_rep_def fun_rep_def by blast
    from i(2) obtain b where b: "active_mem s i = Some b" by (auto simp: func_block_def)
    have "func_block t i fid (fd_type f)"
      using func_block_cong [of t i s fid "fd_type f"] mem [OF b i(5)] b i(2) by simp
    with i ft stack_blocks_grow [OF i(5) b new] assms(2-4)
    show "isFunctionType (fd_type f) \<and> (\<exists>i fid.
       local_vars t (curr_source t) nm = Some (lvalue_of (BlkPtr i) (fd_type f) 0) \<and>
       func_block t i fid (fd_type f) \<and> \<not> fid < NUM_EXTERNAL_FUNCTIONS \<and>
       global_functions t fid = Some (curr_source t, f) \<and>
       BlkPtr i \<notin> var_block ` set (concat (stack_vars t)))" by metis
  qed
  moreover have "glob_rep H P g t"
    unfolding glob_rep_def
  proof (rule conjI [OF _ ballI])
    show "fst ` set g \<subseteq> set (prog_globals P)" using assms(1) by (simp add: tables_rep_def glob_rep_def)
    fix nm assume "nm \<in> set (prog_globals P)"
    with assms(1) obtain i where nf: "prog_fun P nm = None"
      and i: "local_vars s (curr_source s) nm = Some (lvalue_of (BlkPtr i) IntType 0)"
      "glob_cell H s i (map_of g nm)" "BlkPtr i \<notin> var_block ` set (concat (stack_vars s))"
      unfolding tables_rep_def glob_rep_def by blast
    from glob_cell_live [OF i(2)] obtain b where b: "active_mem s i = Some b" by blast
    have "glob_cell H t i (map_of g nm)"
      using glob_cell_cong [of t i s H "map_of g nm"] mem [OF b i(3)] b i(2) by simp
    with nf i stack_blocks_grow [OF i(3) b new] assms(2,3)
    show "prog_fun P nm = None \<and> (\<exists>i. local_vars t (curr_source t) nm = Some (lvalue_of (BlkPtr i) IntType 0) \<and>
       glob_cell H t i (map_of g nm) \<and> BlkPtr i \<notin> var_block ` set (concat (stack_vars t)))" by metis
  qed
  moreover have "a_free P (fst v)" if "v \<in> set (concat (stack_vars t))" for v
    using new [OF that] assms(1) unfolding tables_rep_def by blast
  ultimately show ?thesis using assms(1-3) by (simp add: tables_rep_def locals_apart_def)
qed

text \<open>The store of a value into the block of a global variable.\<close>

lemma tables_store:
  assumes "tables_rep H P g s" and "nm \<in> set (prog_globals P)"
    and l: "local_vars s (curr_source s) nm = Some (lvalue_of (BlkPtr k) IntType 0)"
    and t: "t = s\<lparr>active_mem := (active_mem s)(k := b)\<rparr>" and c: "int_cell H t k (Some v)"
    and g: "map_of g' = (map_of g)(nm \<mapsto> v)"
  shows "tables_rep H P g' t"
proof -
  have apart: "i \<noteq> k" if "local_vars s (curr_source s) nm' = Some (lvalue_of (BlkPtr i) q 0)" "nm' \<noteq> nm" for i nm' q
    using assms(1) l that unfolding tables_rep_def locals_apart_def
    by (metis blkptr.inject lvalue.simps(1) lvalue_of_def)
  have "fun_rep P t"
    unfolding fun_rep_def
  proof (intro allI impI)
    fix nm' h assume h: "prog_fun P nm' = Some h"
    with assms(1) obtain i fid where i: "isFunctionType (fd_type h)"
        "local_vars s (curr_source s) nm' = Some (lvalue_of (BlkPtr i) (fd_type h) 0)"
        "func_block s i fid (fd_type h)" "\<not> fid < NUM_EXTERNAL_FUNCTIONS"
        "global_functions s fid = Some (curr_source s, h)"
        "BlkPtr i \<notin> var_block ` set (concat (stack_vars s))"
      unfolding tables_rep_def fun_rep_def by blast
    have "prog_fun P nm = None" using assms(1,2) by (simp add: tables_rep_def glob_rep_def)
    then have "i \<noteq> k" using apart [OF i(2)] h by (metis option.distinct(1))
    then have "func_block t i fid (fd_type h)" using i(3) func_block_cong [of t i s] by (simp add: t)
    with i show "isFunctionType (fd_type h) \<and> (\<exists>i fid.
       local_vars t (curr_source t) nm' = Some (lvalue_of (BlkPtr i) (fd_type h) 0) \<and>
       func_block t i fid (fd_type h) \<and> \<not> fid < NUM_EXTERNAL_FUNCTIONS \<and>
       global_functions t fid = Some (curr_source t, h) \<and>
       BlkPtr i \<notin> var_block ` set (concat (stack_vars t)))"
      by (intro conjI exI [of _ i] exI [of _ fid]) (simp_all add: t)
  qed
  moreover have "glob_rep H P g' t"
    unfolding glob_rep_def
  proof (rule conjI [OF _ ballI])
    have "fst ` set g' = dom (map_of g')" "fst ` set g = dom (map_of g)" by (simp_all add: dom_map_of_conv_image_fst)
    then show "fst ` set g' \<subseteq> set (prog_globals P)"
      using assms(1,2) g by (simp add: tables_rep_def glob_rep_def)
    fix nm' assume "nm' \<in> set (prog_globals P)"
    with assms(1) obtain i where nf: "prog_fun P nm' = None"
      and i: "local_vars s (curr_source s) nm' = Some (lvalue_of (BlkPtr i) IntType 0)"
      "glob_cell H s i (map_of g nm')" "BlkPtr i \<notin> var_block ` set (concat (stack_vars s))"
      unfolding tables_rep_def glob_rep_def by blast
    have "glob_cell H t i (map_of g' nm')"
    proof (cases "nm' = nm")
      case True
      then have "i = k" using i(1) l by (simp add: lvalue_of_def)
      with True show ?thesis using c by (simp add: g glob_cell_def)
    next
      case False
      from apart [OF i(1) False] i(2) False show ?thesis
        using glob_cell_cong [of t i s] by (simp add: t g)
    qed
    with nf i show "prog_fun P nm' = None \<and> (\<exists>i. local_vars t (curr_source t) nm' = Some (lvalue_of (BlkPtr i) IntType 0) \<and>
       glob_cell H t i (map_of g' nm') \<and> BlkPtr i \<notin> var_block ` set (concat (stack_vars t)))"
      by (intro conjI exI [of _ i]) (simp_all add: t)
  qed
  ultimately show ?thesis using assms(1) by (simp add: tables_rep_def locals_apart_def t)
qed

lemma frame_pos_names:
  assumes "map fst f = map fst g"
  shows "frame_pos nm n f = frame_pos nm n g"
proof -
  have l: "length f = length g" using assms by (metis length_map)
  have "fst (f ! i) = fst (g ! i)" if "i < length f" for i
    using assms l that by (metis nth_map)
  then have "filter (\<lambda>i. fst (f ! i) = nm) [0..<length f] = filter (\<lambda>i. fst (g ! i) = nm) [0..<length f]"
    by (intro filter_cong) auto
  then show ?thesis by (simp add: frame_pos_def l)
qed

lemma stack_pos_names:
  assumes "list_all2 (\<lambda>f g. map fst f = map fst g) fs gs"
  shows "stack_pos nm fs = stack_pos nm gs"
proof -
  have "map (\<lambda>n. frame_pos nm n (fs ! n)) [0..<length fs] = map (\<lambda>n. frame_pos nm n (gs ! n)) [0..<length fs]"
    using assms by (intro map_cong refl frame_pos_names) (auto simp: list_all2_conv_all_nth)
  then show ?thesis using assms
    by (simp add: stack_pos_def list_all2_lengthD del: map_eq_conv)
qed

lemma var_rel_names:
  "list_all2 (list_all2 (var_rel H s)) fs gs \<Longrightarrow> list_all2 (\<lambda>f g. map fst f = map fst g) fs gs"
proof (erule list_all2_mono)
  fix f g assume "list_all2 (var_rel H s) f g"
  then show "map fst f = map fst g"
    by (induction rule: list_all2_induct) (auto simp: var_rel_def)
qed

lemma list_all2_nth2:
  "list_all2 (list_all2 P) xss yss \<Longrightarrow> n < length xss \<Longrightarrow> i < length (xss ! n) \<Longrightarrow>
   P (xss ! n ! i) (yss ! n ! i)"
  by (meson list_all2_nthD)

lemma distinct_concat_nth:
  assumes "distinct (map g (concat xss))" and "n < length xss" and "i < length (xss ! n)"
    and "m < length xss" and "j < length (xss ! m)" and "g (xss ! n ! i) = g (xss ! m ! j)"
  shows "n = m \<and> i = j"
  using assms
proof (induction xss arbitrary: n m)
  case (Cons xs xss)
  have sep: "g x \<noteq> g y" if "x \<in> set xs" "y \<in> set (concat xss)" for x y
    using Cons.prems(1) that by (auto simp: map_concat)
  have mem: "xss ! l ! k \<in> set (concat xss)" if "l < length xss" "k < length (xss ! l)" for l k
    using that by (auto intro!: bexI [of _ "xss ! l"])
  show ?case
  proof (cases n; cases m)
    assume "n = 0" "m = 0"
    then show ?thesis using Cons.prems nth_eq_iff_index_eq [of "map g xs" i j] by auto
  next
    fix m' assume "n = 0" "m = Suc m'"
    then show ?thesis using Cons.prems sep [of "xs ! i" "xss ! m' ! j"] mem [of m' j] by auto
  next
    fix n' assume "n = Suc n'" "m = 0"
    then show ?thesis using Cons.prems sep [of "xs ! j" "xss ! n' ! i"] mem [of n' i]
      by (auto dest: sym)
  next
    fix n' m' assume "n = Suc n'" "m = Suc m'"
    then show ?thesis using Cons.prems Cons.IH [of n' m'] by auto
  qed
qed simp

lemma concat_nth_mem: "n < length xss \<Longrightarrow> i < length (xss ! n) \<Longrightarrow> xss ! n ! i \<in> set (concat xss)"
  by (auto intro!: bexI [of _ "xss ! n"])

lemma frame_pos_none: "nm \<notin> fst ` set f \<Longrightarrow> frame_pos nm n f = []"
  by (auto simp: frame_pos_def filter_empty_conv)

lemma stack_pos_none: "nm \<notin> fst ` set (concat fs) \<Longrightarrow> stack_pos nm fs = []"
proof (induction fs rule: rev_induct)
  case (snoc f fs)
  then have "nm \<notin> fst ` set f" by auto
  with snoc show ?case by (simp add: stack_pos_snoc frame_pos_none image_Un)
qed (simp add: stack_pos_def)

lemma var_rels_mono:
  assumes "list_all2 (list_all2 (var_rel H s)) fs gs"
    and "\<And>v a. v \<in> set (concat fs) \<Longrightarrow> var_rel H s v a \<Longrightarrow> var_rel H t v a"
  shows "list_all2 (list_all2 (var_rel H t)) fs gs"
proof (rule list_all2_all_nthI)
  show "length fs = length gs" using assms(1) by (rule list_all2_lengthD)
  fix n assume n: "n < length fs"
  have w: "list_all2 (var_rel H s) (fs ! n) (gs ! n)" using assms(1) n by (rule list_all2_nthD)
  show "list_all2 (var_rel H t) (fs ! n) (gs ! n)"
  proof (rule list_all2_all_nthI)
    show "length (fs ! n) = length (gs ! n)" using w by (rule list_all2_lengthD)
    fix i assume i: "i < length (fs ! n)"
    show "var_rel H t (fs ! n ! i) (gs ! n ! i)"
      by (rule assms(2) [OF concat_nth_mem [OF n i] list_all2_nthD [OF w i]])
  qed
qed

section \<open>Variables\<close>

text \<open>A name that the semantics finds is found by the interpreter, in the cell it has.\<close>

lemma rep_lookup:
  assumes "rep H P s st" and "a_lookup (fst st) nm = Some c"
  shows "\<exists>n i k. eval_declref nm s = Inr (lvalue_of (BlkPtr k) IntType 0, s) \<and> int_cell H s k c \<and>
    n < length (stack_vars s) \<and> i < length (stack_vars s ! n) \<and>
    stack_vars s ! n ! i = (nm, lvalue_of (BlkPtr k) IntType 0) \<and>
    last (stack_pos nm (stack_vars s)) = (n, i) \<and> stack_pos nm (stack_vars s) \<noteq> []"
proof -
  let ?ps = "stack_pos nm (stack_vars s)"
  have r: "list_all2 (list_all2 (var_rel H s)) (stack_vars s) (fst st)"
    and inv: "stack_inv s" using assms(1) by (auto simp: rep_def)
  have ps: "?ps = stack_pos nm (fst st)" by (rule stack_pos_names [OF var_rel_names [OF r]])
  with assms(2) have ne: "?ps \<noteq> []" by (auto simp: a_lookup_def)
  obtain n i where l: "last ?ps = (n, i)" by force
  with ne last_stack_pos [where fs = "stack_vars s" and nm = nm] obtain lv where
    b: "n < length (stack_vars s)" "i < length (stack_vars s ! n)" "stack_vars s ! n ! i = (nm, lv)"
    by (auto split: option.splits)
  have "var_rel H s (stack_vars s ! n ! i) (fst st ! n ! i)"
    using r b(1,2) by (rule list_all2_nth2)
  moreover have "snd (fst st ! n ! i) = c"
    using assms(2) ps ne l by (cases "stack_pos nm (fst st)") (auto simp: a_lookup_def)
  ultimately obtain k where k: "lv = lvalue_of (BlkPtr k) IntType 0" "int_cell H s k c"
    using b(3) by (auto simp: var_rel_def)
  have "stack_var_map s nm = Some ?ps" using inv ne by (simp add: stack_inv_def index_entry_def)
  then have "eval_declref nm s = Inr (lv, s)"
    using ne l b by (simp add: eval_declref_def run_simps stack_entry_def)
  with k b l ne show ?thesis by blast
qed
text \<open>A store into the cell of a name is the update of the name.\<close>

lemma rep_update:
  assumes "rep H P s st" and "a_update (fst st) nm v = Some fs'"
    and "a_lookup (fst st) nm = Some c" and "eval_declref nm s = Inr (lvalue_of (BlkPtr k) IntType 0, s)"
    and "t = s\<lparr>active_mem := (active_mem s)(k := b)\<rparr>" and "int_cell H t k (Some v)" and "mem_inv t"
  shows "rep H P t (fs', snd st)"
proof -
  from rep_lookup [OF assms(1,3)] assms(4) obtain n i where
    b: "n < length (stack_vars s)" "i < length (stack_vars s ! n)"
      "stack_vars s ! n ! i = (nm, lvalue_of (BlkPtr k) IntType 0)"
      "last (stack_pos nm (stack_vars s)) = (n, i)" "stack_pos nm (stack_vars s) \<noteq> []"
    by (auto simp: lvalue_of_def)
  have r: "list_all2 (list_all2 (var_rel H s)) (stack_vars s) (fst st)"
    and d: "distinct (map var_block (concat (stack_vars s)))"
    using assms(1) by (auto simp: rep_def)
  have "stack_pos nm (stack_vars s) = stack_pos nm (fst st)"
    by (rule stack_pos_names [OF var_rel_names [OF r]])
  with b assms(2) have fs': "fs' = (fst st)[n := (fst st ! n)[i := (nm, Some v)]]"
    by (cases "stack_pos nm (fst st)") (auto simp: a_update_def)
  have len: "length (fst st) = length (stack_vars s)"
    "\<And>m. m < length (stack_vars s) \<Longrightarrow> length (fst st ! m) = length (stack_vars s ! m)"
    using r by (auto simp: list_all2_conv_all_nth)
  have "var_rel H t (stack_vars s ! m ! j) (fs' ! m ! j)"
    if mj: "m < length (stack_vars s)" "j < length (stack_vars s ! m)" for m j
  proof (cases "m = n \<and> j = i")
    case True
    then show ?thesis using b(1,2,3) len assms(6) by (auto simp: fs' var_rel_def)
  next
    case False
    have o: "var_rel H s (stack_vars s ! m ! j) (fst st ! m ! j)"
      using r mj by (rule list_all2_nth2)
    then obtain q where q: "snd (stack_vars s ! m ! j) = lvalue_of (BlkPtr q) IntType 0"
      by (auto simp: var_rel_def)
    have "q \<noteq> k"
    proof
      assume "q = k"
      then have "var_block (stack_vars s ! m ! j) = var_block (stack_vars s ! n ! i)"
        using q b(3) by (simp add: var_block_def)
      from distinct_concat_nth [OF d mj b(1,2) this] False show False by simp
    qed
    then have "active_mem t q = active_mem s q" by (simp add: assms(5))
    then have "var_rel H t (stack_vars s ! m ! j) (fst st ! m ! j)"
      using o q int_cell_cong [of t q s H] by (auto simp: var_rel_def lvalue_of_def)
    moreover have "fs' ! m ! j = fst st ! m ! j" using False mj len b(1,2) by (auto simp: fs' nth_list_update)
    ultimately show ?thesis by simp
  qed
  then have "list_all2 (list_all2 (var_rel H t)) (stack_vars t) fs'"
    using len b(1,2) by (auto simp: list_all2_conv_all_nth assms(5) fs' nth_list_update)
  moreover have "stack_inv t" "next_id t = next_id s"
    using assms(1) by (simp_all add: assms(5) rep_def stack_inv_def next_id_def)
  moreover have "var_block (stack_vars s ! n ! i) = BlkPtr k"
    by (simp add: b(3) var_block_def lvalue_of_def)
  then have "BlkPtr k \<in> var_block ` set (concat (stack_vars s))"
    using b(1,2) by (metis concat_nth_mem imageI)
  then have "tables_rep H P (fst (snd st)) t"
    using assms(1) by (intro tables_keep [of H P _ s t]) (auto simp: rep_def assms(5))
  ultimately show ?thesis using assms(1,7) by (simp add: rep_def assms(5))
qed

text \<open>A global variable is not on the stack, and found in the table of its file.\<close>

lemma rep_global:
  assumes "rep H P s st" and "nm \<in> set (prog_globals P)"
  obtains k where "eval_declref nm s = Inr (lvalue_of (BlkPtr k) IntType 0, s)"
    and "local_vars s (curr_source s) nm = Some (lvalue_of (BlkPtr k) IntType 0)"
    and "glob_cell H s k (map_of (fst (snd st)) nm)" and "BlkPtr k \<notin> var_block ` set (concat (stack_vars s))"
    and "a_lookup (fst st) nm = None" and "\<And>v. a_update (fst st) nm v = None"
proof -
  from assms obtain k where k: "local_vars s (curr_source s) nm = Some (lvalue_of (BlkPtr k) IntType 0)"
    "glob_cell H s k (map_of (fst (snd st)) nm)" "BlkPtr k \<notin> var_block ` set (concat (stack_vars s))"
    unfolding rep_def tables_rep_def glob_rep_def by blast
  have "a_free P (fst v)" if "v \<in> set (concat (stack_vars s))" for v
    using assms(1) that unfolding rep_def tables_rep_def by blast
  then have "nm \<notin> fst ` set (concat (stack_vars s))" using assms(2) by (force simp: a_free_def)
  then have sp: "stack_pos nm (stack_vars s) = []" by (rule stack_pos_none)
  then have "stack_var_map s nm = None" using assms(1) by (simp add: rep_def stack_inv_def index_entry_def)
  then have "eval_declref nm s = Inr (lvalue_of (BlkPtr k) IntType 0, s)"
    using k(1) by (simp add: eval_declref_def get_nonstack_var_def run_simps)
  moreover have "stack_pos nm (fst st) = []"
    using sp stack_pos_names [OF var_rel_names, of H s "stack_vars s" "fst st" nm] assms(1)
    by (simp add: rep_def)
  then have "a_lookup (fst st) nm = None" "a_update (fst st) nm v = None" for v
    by (simp_all add: a_lookup_def a_update_def)
  ultimately show thesis using k that by blast
qed

lemma globals_in: "rep H P s st \<Longrightarrow> map_of (fst (snd st)) nm = Some v \<Longrightarrow> nm \<in> set (prog_globals P)"
  by (auto simp: rep_def tables_rep_def glob_rep_def dest!: map_of_SomeD)

lemma rep_get:
  assumes "rep H P s st" and "a_get st nm = Some c"
  shows "\<exists>k. eval_declref nm s = Inr (lvalue_of (BlkPtr k) IntType 0, s) \<and> int_cell H s k c"
proof (cases "a_lookup (fst st) nm")
  case None
  with assms(2) obtain v where v: "map_of (fst (snd st)) nm = Some v" "c = Some v" by (auto simp: a_get_def)
  from rep_global [OF assms(1) globals_in [OF assms(1) v(1)]] v show ?thesis by (force simp: glob_cell_def)
next
  case (Some d)
  with assms(2) have "d = c" by (simp add: a_get_def)
  with rep_lookup [OF assms(1) Some] show ?thesis by blast
qed

lemma map_of_put: "map_of g nm = Some w \<Longrightarrow> map_of (a_put nm v g) = (map_of g)(nm \<mapsto> v)"
proof -
  have "map_of (a_put nm v g) x = (if x = nm then map_option (\<lambda>_. v) (map_of g nm) else map_of g x)" for x
    by (induction g) (auto simp: a_put_def)
  then show "map_of g nm = Some w \<Longrightarrow> map_of (a_put nm v g) = (map_of g)(nm \<mapsto> v)" by (simp add: fun_eq_iff)
qed

lemma rep_set:
  assumes "rep H P s st" and "a_set st nm v = Some st'" and "a_get st nm = Some c"
    and "eval_declref nm s = Inr (lvalue_of (BlkPtr k) IntType 0, s)"
    and t: "t = s\<lparr>active_mem := (active_mem s)(k := b)\<rparr>" and "int_cell H t k (Some v)" and "mem_inv t"
  shows "rep H P t st'"
proof (cases "a_lookup (fst st) nm")
  case (Some d)
  then obtain fs' where u: "a_update (fst st) nm v = Some fs'"
    by (auto simp: a_lookup_def a_update_def split: list.splits prod.splits)
  with assms(2) have "st' = (fs', snd st)" by (simp add: a_set_def)
  with rep_update [OF assms(1) u Some assms(4-7)] show ?thesis by simp
next
  case None
  with assms(3) obtain w where w: "map_of (fst (snd st)) nm = Some w" by (auto simp: a_get_def)
  obtain k' where k': "eval_declref nm s = Inr (lvalue_of (BlkPtr k') IntType 0, s)"
    and l: "local_vars s (curr_source s) nm = Some (lvalue_of (BlkPtr k') IntType 0)"
    and out: "BlkPtr k' \<notin> var_block ` set (concat (stack_vars s))"
    and u: "a_update (fst st) nm v = None"
    by (rule rep_global [OF assms(1) globals_in [OF assms(1) w]]) blast
  from k' assms(4) have k: "k' = k" by (simp add: lvalue_of_def)
  have st': "st' = (fst st, a_put nm v (fst (snd st)), snd (snd st))"
    using assms(2) u w by (simp add: a_set_def)
  have tab: "tables_rep H P (a_put nm v (fst (snd st))) t"
    by (rule tables_store [OF _ globals_in [OF assms(1) w] l [unfolded k] t assms(6) map_of_put [OF w]])
      (use assms(1) in \<open>simp add: rep_def\<close>)
  have keep: "var_rel H t x a" if "x \<in> set (concat (stack_vars s))" "var_rel H s x a" for x a
  proof -
    from that(2) obtain i where i: "snd x = lvalue_of (BlkPtr i) IntType 0" "int_cell H s i (snd a)"
      by (auto simp: var_rel_def)
    have "var_block x \<in> var_block ` set (concat (stack_vars s))" using that(1) by (rule imageI)
    then have "i \<noteq> k" using out i(1) by (auto simp: k var_block_def lvalue_of_def)
    then show ?thesis using that(2) i int_cell_cong [of t i s H] by (auto simp: var_rel_def t lvalue_of_def)
  qed
  have "list_all2 (list_all2 (var_rel H s)) (stack_vars s) (fst st)" using assms(1) by (simp add: rep_def)
  then have "list_all2 (list_all2 (var_rel H t)) (stack_vars s) (fst st)" by (rule var_rels_mono [OF _ keep])
  moreover have "stack_inv t" "next_id t = next_id s"
    using assms(1) by (simp_all add: t rep_def stack_inv_def next_id_def)
  ultimately show ?thesis using assms(1,7) tab by (simp add: rep_def st' t)
qed

section \<open>Cells\<close>

lemma int_cell_load:
  assumes "int_cell H s k (Some v)"
  obtains x where "\<forall>ev. load_at H ev (lvalue_of (BlkPtr k) IntType 0) s = Inr (int_num x, s)"
    and "ap_fits NUM_TYPE_INT x" and "num_value NUM_TYPE_INT x = v"
proof -
  from assms obtain x b d where b: "active_mem s k = Some b" "bdata b = Some d" "bsize b = 8"
    "memtype b \<noteq> MEM_TYPE_FREED" and x: "ap_fits NUM_TYPE_INT x"
    "num_from_mem H NUM_TYPE_INT d = Inr (int_num x)" "num_value NUM_TYPE_INT x = v" by (rule int_cell_value)
  have "load_at H ev (lvalue_of (BlkPtr k) IntType 0) s = Inr (int_num x, s)" for ev
    using b x(2) by (simp add: load_at_def load_def run_simps load_loc_def lvalue_of_def block_data_def
        load_num_def bytes_in_num_type_def)
  with x that show thesis by blast
qed

lemma int_cell_store:
  assumes "llvm_host H" and "int_cell H s k c" and "ap_fits NUM_TYPE_INT x"
  obtains b where "block_write H (BlkPtr k) (int_num x) 0 s
      = Inr ((), s\<lparr>active_mem := (active_mem s)(k := Some b)\<rparr>)"
    and "int_cell H (s\<lparr>active_mem := (active_mem s)(k := Some b)\<rparr>) k (Some (num_value NUM_TYPE_INT x))"
proof -
  from assms(2) consider (array) d where "int_array H s k [d]" | (raw) d where "raw_cell s k d"
    by (auto simp: int_cell_def split: option.splits)
  then obtain b where "block_write H (BlkPtr k) (int_num x) 0 s
      = Inr ((), s\<lparr>active_mem := (active_mem s)(k := Some b)\<rparr>)"
    and "int_array H (s\<lparr>active_mem := (active_mem s)(k := Some b)\<rparr>) k [Some x]"
  proof cases
    case array
    from int_array_store [OF assms(1) array, of 0 "Some x"] assms(3) that show thesis
      by (auto simp: int_val_def)
  next
    case raw
    from raw_cell_store [OF assms(1) raw, of "Some x"] assms(3) that show thesis by (auto simp: int_val_def)
  qed
  with that show thesis by (auto simp: int_cell_def)
qed

lemma set_get: "a_set st nm v = Some st' \<Longrightarrow> \<exists>c. a_get st nm = Some c"
  by (auto simp: a_set_def a_get_def a_update_def a_lookup_def split: option.splits list.splits prod.splits if_splits)

text \<open>What a store of a number into a variable's cell leaves.\<close>

lemma sim_store:
  assumes "llvm_host H" and "rep H P s st" and "a_set st nm (num_value NUM_TYPE_INT x) = Some st'"
    and "ap_fits NUM_TYPE_INT x"
  obtains k t c where "eval_declref nm s = Inr (lvalue_of (BlkPtr k) IntType 0, s)"
    and "block_write H (BlkPtr k) (int_num x) 0 s = Inr ((), t)" and "rep H P t st'"
    and "a_get st nm = Some c" and "int_cell H s k c"
proof -
  from set_get [OF assms(3)] obtain c where c: "a_get st nm = Some c" by blast
  from rep_get [OF assms(2) c] obtain k where l: "eval_declref nm s = Inr (lvalue_of (BlkPtr k) IntType 0, s)"
    and k: "int_cell H s k c" by blast
  from int_cell_store [OF assms(1) k assms(4)] obtain b where
    w: "block_write H (BlkPtr k) (int_num x) 0 s = Inr ((), s\<lparr>active_mem := (active_mem s)(k := Some b)\<rparr>)"
    and i: "int_cell H (s\<lparr>active_mem := (active_mem s)(k := Some b)\<rparr>) k (Some (num_value NUM_TYPE_INT x))"
    by blast
  have "mem_inv (s\<lparr>active_mem := (active_mem s)(k := Some b)\<rparr>)"
    using preservesD [OF mx_block_write w] assms(2) by (auto simp: rep_def mem_ext_def)
  from rep_set [OF assms(2,3) c l refl i this] that [OF l w _ c k] show thesis by blast
qed

section \<open>Frames\<close>

lemma rep_cong:
  assumes "rep H P s st" and "active_mem t = active_mem s" and "id_counter t = id_counter s"
    and "stack_inv t" and "list_all2 (list_all2 (var_rel H s)) (stack_vars t) fs"
    and "distinct (map var_block (concat (stack_vars t)))" and "tables_rep H P (fst (snd st)) t"
  shows "rep H P t (fs, snd st)"
proof -
  have v: "var_rel H t = var_rel H s"
    using int_cell_cong [of t _ s H] assms(2) by (intro ext) (auto simp: var_rel_def)
  have "mem_inv t" "next_id t = next_id s"
    using assms(1-3) mem_ext_cong [of t s] by (auto simp: rep_def mem_ext_def next_id_def)
  with assms show ?thesis by (simp add: rep_def v)
qed

lemma sim_push: "rep H P s st \<Longrightarrow> rep H P (s\<lparr>stack_vars := stack_vars s @ [[]]\<rparr>) (a_push st)"
  unfolding a_push_def
  by (rule rep_cong) (auto simp: rep_def stack_inv_frame intro!: list_all2_appendI elim!: tables_keep)

text \<open>Popping variables whose blocks are live and different succeeds.\<close>

lemma pop_vars_run:
  assumes "mem_inv s" and "\<And>v. v \<in> set vs \<Longrightarrow> \<exists>i b. var_block v = BlkPtr i \<and>
      active_mem s i = Some b \<and> bdata b \<noteq> None"
    and "distinct (map var_block vs)"
    and "\<And>nm. \<exists>P Q. stack_var_map s nm = index_entry (P @ Q) \<and> length Q = length (filter (\<lambda>v. fst v = nm) vs)"
  shows "\<exists>t. forM vs pop_stack_var s = Inr ((), t) \<and> id_counter t = id_counter s \<and>
    (\<forall>j. BlkPtr j \<notin> var_block ` set vs \<longrightarrow> active_mem t j = active_mem s j)"
  using assms
proof (induction vs arbitrary: s)
  case Nil
  then show ?case by (simp add: run_simps)
next
  case (Cons v vs)
  obtain i b where i: "lblock (snd v) = BlkPtr i" "active_mem s i = Some b" "bdata b \<noteq> None"
    using Cons.prems(2) [of v] by (auto simp: var_block_def)
  note bid = mem_invD(1) [OF Cons.prems(1) i(2)]
  obtain P Q where pq: "stack_var_map s (fst v) = index_entry (P @ Q)"
    "length Q = length (filter (\<lambda>w. fst w = fst v) (v # vs))" using Cons.prems(4) by blast
  then obtain Q' q where q: "Q = Q' @ [q]" by (cases Q rule: rev_cases) auto
  let ?u = "s\<lparr>stack_var_map := (stack_var_map s)(fst v := index_entry (butlast (P @ Q))),
      active_mem := (active_mem s)(i := Some (b\<lparr>memtype := MEM_TYPE_FREED, bdata := None\<rparr>))\<rparr>"
  have u: "pop_stack_var v s = Inr ((), ?u)"
    using pop_stack_var_run [of s v "P @ Q'" q i b] i pq(1) q bid
    by (simp add: index_entry_def butlast_append)
  have mi: "mem_inv ?u"
    using preservesD [OF mx_pop_stack_var u] Cons.prems(1) by (simp add: mem_ext_def)
  have "\<exists>t. forM vs pop_stack_var ?u = Inr ((), t) \<and> id_counter t = id_counter ?u \<and>
    (\<forall>j. BlkPtr j \<notin> var_block ` set vs \<longrightarrow> active_mem t j = active_mem ?u j)"
  proof (rule Cons.IH [OF mi])
    show "\<exists>i b. var_block w = BlkPtr i \<and> active_mem ?u i = Some b \<and> bdata b \<noteq> None" if w: "w \<in> set vs" for w
    proof -
      obtain j c where j: "var_block w = BlkPtr j" "active_mem s j = Some c" "bdata c \<noteq> None"
        using Cons.prems(2) [of w] w by auto
      have "var_block w \<noteq> var_block v" using Cons.prems(3) w by (auto simp: image_iff dest: sym)
      then have "j \<noteq> i" using i(1) j(1) by (auto simp: var_block_def)
      with j show ?thesis by auto
    qed
    show "distinct (map var_block vs)" using Cons.prems(3) by simp
    show "\<exists>P Q. stack_var_map ?u nm = index_entry (P @ Q) \<and>
        length Q = length (filter (\<lambda>w. fst w = nm) vs)" for nm
    proof (cases "nm = fst v")
      case True
      then show ?thesis using pq(2) q by (intro exI [of _ P] exI [of _ Q']) (simp add: butlast_append)
    next
      case False
      then show ?thesis using Cons.prems(4) [of nm] by auto
    qed
  qed
  then obtain t where "forM vs pop_stack_var ?u = Inr ((), t)" "id_counter t = id_counter s"
    "\<And>j. BlkPtr j \<notin> var_block ` set vs \<Longrightarrow> active_mem t j = active_mem ?u j" by auto
  moreover have "var_block v = BlkPtr i" by (simp add: var_block_def i(1))
  ultimately show ?case using u by (intro exI [of _ t]) (auto simp: run_simps)
qed

lemma list_all2_in: "list_all2 P xs ys \<Longrightarrow> x \<in> set xs \<Longrightarrow> \<exists>y. P x y"
  by (induction rule: list_all2_induct) auto

lemma list_all2_snoc: "list_all2 P (xs @ [x]) (ys @ [y]) \<longleftrightarrow> list_all2 P xs ys \<and> P x y"
  by (metis list_all2_rev rev.simps(2) rev_rev_ident list_all2_Cons append_Nil rev_append)

lemma var_rel_live:
  assumes "var_rel H s v a"
  shows "\<exists>i b. var_block v = BlkPtr i \<and> active_mem s i = Some b \<and> bdata b \<noteq> None"
  using assms int_cell_live by (fastforce simp: var_rel_def var_block_def lvalue_of_def)

lemma sim_pop:
  assumes "rep H P s st" and "fst st \<noteq> []"
  shows "\<exists>t. pop_stack_frame s = Inr ((), t) \<and> rep H P t (a_pop st)"
proof -
  have r: "list_all2 (list_all2 (var_rel H s)) (stack_vars s) (fst st)" and si: "stack_inv s"
    and mi: "mem_inv s" and d: "distinct (map var_block (concat (stack_vars s)))"
    using assms(1) by (auto simp: rep_def)
  obtain gs g where g: "fst st = gs @ [g]" using assms(2) by (metis rev_exhaust)
  with r have "stack_vars s \<noteq> []" by auto
  then obtain fs f where f: "stack_vars s = fs @ [f]" by (metis rev_exhaust)
  have rf: "list_all2 (list_all2 (var_rel H s)) fs gs" and rl: "list_all2 (var_rel H s) f g"
    using r unfolding f g list_all2_snoc by simp_all
  let ?s = "s\<lparr>stack_vars := fs\<rparr>"
  have "\<exists>t. forM f pop_stack_var ?s = Inr ((), t) \<and> id_counter t = id_counter ?s \<and>
    (\<forall>j. BlkPtr j \<notin> var_block ` set f \<longrightarrow> active_mem t j = active_mem ?s j)"
  proof (rule pop_vars_run)
    show "mem_inv ?s" using mi mem_ext_cong [of ?s s] by (simp add: mem_ext_def)
    show "\<exists>i b. var_block v = BlkPtr i \<and> active_mem ?s i = Some b \<and> bdata b \<noteq> None" if "v \<in> set f" for v
      using list_all2_in [OF rl that] var_rel_live [of H s v] by auto
    show "distinct (map var_block f)" using d f by simp
    show "\<exists>P Q. stack_var_map ?s nm = index_entry (P @ Q) \<and> length Q = length (filter (\<lambda>v. fst v = nm) f)" for nm
      using si by (intro exI [of _ "stack_pos nm fs"] exI [of _ "frame_pos nm (length fs) f"])
        (simp add: stack_inv_def f stack_pos_snoc length_frame_pos)
  qed
  then obtain t where t: "forM f pop_stack_var ?s = Inr ((), t)" "id_counter t = id_counter s"
    "\<And>j. BlkPtr j \<notin> var_block ` set f \<Longrightarrow> active_mem t j = active_mem s j" by auto
  have p: "pop_stack_frame s = Inr ((), t)" using t(1) f by (simp add: pop_stack_frame_def run_simps)
  have st: "stack_vars t = fs" using pop_vars_rest [OF t(1)] by simp
  have keep: "var_rel H t v a" if "v \<in> set (concat fs)" "var_rel H s v a" for v a
  proof -
    from that(2) obtain i where i: "snd v = lvalue_of (BlkPtr i) IntType 0" "int_cell H s i (snd a)"
      by (auto simp: var_rel_def)
    have "BlkPtr i \<notin> var_block ` set f"
    proof
      assume "BlkPtr i \<in> var_block ` set f"
      then have "var_block v \<in> var_block ` set f" using i(1) by (simp add: var_block_def lvalue_of_def)
      moreover have "var_block v \<in> var_block ` set (concat fs)" using that(1) by simp
      ultimately show False using d by (auto simp: f)
    qed
    then show ?thesis using that(2) i t(3) int_cell_cong [of t i s H]
      by (auto simp: var_rel_def lvalue_of_def)
  qed
  have "list_all2 (list_all2 (var_rel H t)) fs gs" by (rule var_rels_mono [OF rf keep])
  moreover have "mem_inv t" using preservesD [OF mx_pop_stack_frame p] mi by (simp add: mem_ext_def)
  moreover have "stack_inv t" by (rule stack_inv_pop [OF si p])
  moreover have "next_id t = next_id s" using t(2) by (simp add: next_id_def)
  moreover have "tables_rep H P (fst (snd st)) t"
  proof (rule tables_keep [of H P _ s t])
    show "active_mem t i = Some b"
      if "active_mem s i = Some b" "BlkPtr i \<notin> var_block ` set (concat (stack_vars s))" for i b
    proof -
      have "BlkPtr i \<notin> var_block ` set f" using that(2) by (auto simp: f)
      with t(3) that(1) show ?thesis by simp
    qed
  qed (use assms(1) preservesD [OF sp_pop p] in \<open>auto simp: rep_def same_program_def st f\<close>)
  ultimately have "rep H P t (a_pop st)" using assms(1) d by (simp add: rep_def st a_pop_def g f)
  with p show ?thesis by blast
qed

section \<open>Declarations\<close>

lemma sim_declare:
  assumes "llvm_host H" and "rep H P s st" and "\<And>x. c = Some x \<Longrightarrow> ap_fits NUM_TYPE_INT x"
    and "a_declare P nm (map_option (num_value NUM_TYPE_INT) c) st = Some st'"
  shows "\<exists>t. bindM (block_of_value H MEM_TYPE_STACK (int_val H c))
      (\<lambda>p. add_stack_var nm (lvalue_of p (obj_type H (int_val H c)) 0)) s = Inr ((), t) \<and>
    rep H P t st'"
proof -
  from assms(4) have k: "0 < snd (snd st)" and pn: "a_free P nm" by (auto simp: a_declare_def split: if_splits)
  have r: "list_all2 (list_all2 (var_rel H s)) (stack_vars s) (fst st)" and si: "stack_inv s"
    and mi: "mem_inv s" and d: "distinct (map var_block (concat (stack_vars s)))"
    and nx: "next_id s + snd (snd st) \<le> 2 ^ 32"
    using assms(2) by (auto simp: rep_def)
  let ?i = "id_counter s"
  have nz: "?i \<noteq> 0" using nx k by (auto simp: next_id_def)
  from int_array_new [OF assms(1) nz assms(3), where t = MEM_TYPE_STACK] obtain b where
    bv: "block_of_value H MEM_TYPE_STACK (int_val H c) s = Inr (BlkPtr ?i,
      s\<lparr>id_counter := ?i + 1, active_mem := (active_mem s)(?i := Some b)\<rparr>)"
    and ia: "int_array H (s\<lparr>id_counter := ?i + 1, active_mem := (active_mem s)(?i := Some b)\<rparr>) ?i [c]"
    by (auto simp: Let_def)
  define u where "u = s\<lparr>id_counter := ?i + 1, active_mem := (active_mem s)(?i := Some b)\<rparr>"
  note bv = bv [folded u_def] and ia = ia [folded u_def]
  have mu: "mem_inv u" using preservesD [OF mem_emu.pres_block_of_value(2) bv] mi by (simp add: mem_ext_def)
  have nu: "next_id u = Suc (next_id s)"
    using next_id_new [OF nz] nz by (simp add: u_def) (simp add: next_id_def)
  have su: "stack_vars u = stack_vars s" "stack_inv u" using si by (simp_all add: u_def stack_inv_def)
  from assms(4) obtain gs g where g: "fst st = gs @ [g]"
    by (metis a_declare_def option.distinct(1) rev_exhaust)
  let ?fs = "gs @ [g @ [(nm, map_option (num_value NUM_TYPE_INT) c)]]"
  have st': "st' = (?fs, fst (snd st), snd (snd st) - 1)"
    using assms(4) by (simp add: a_declare_def g split: if_splits)
  from r g have "stack_vars s \<noteq> []" by auto
  then obtain fs f where f: "stack_vars s = fs @ [f]" by (metis rev_exhaust)
  let ?l = "lvalue_of (BlkPtr ?i) IntType 0"
  obtain t where t: "add_stack_var nm ?l u = Inr ((), t)" "stack_vars t = fs @ [f @ [(nm, ?l)]]"
    and tu: "active_mem t = active_mem u" "id_counter t = id_counter u"
    using add_stack_var_run [of u fs f nm ?l] su f by auto
  have old: "var_block v \<noteq> BlkPtr ?i \<and> var_rel H u v a" if "var_rel H s v a" for v a
  proof -
    from that obtain j where j: "snd v = lvalue_of (BlkPtr j) IntType 0" "int_cell H s j (snd a)"
      by (auto simp: var_rel_def)
    then obtain blk where "active_mem s j = Some blk"
      using int_cell_live by blast
    from mem_invD(3) [OF mi this] have "j \<noteq> ?i" using nz by (auto simp: next_id_def)
    then have "int_cell H u j (snd a)" using j(2) int_cell_cong [of u j s H] by (simp add: u_def)
    with that j \<open>j \<noteq> ?i\<close> show ?thesis by (auto simp: var_rel_def var_block_def lvalue_of_def)
  qed
  have ru: "list_all2 (list_all2 (var_rel H u)) (stack_vars s) (fst st)"
    using r by (rule list_all2_mono) (erule list_all2_mono, use old in blast)
  have new: "var_rel H u (nm, ?l) (nm, map_option (num_value NUM_TYPE_INT) c)"
    using ia by (cases c) (auto simp: var_rel_def int_cell_def)
  have rt: "list_all2 (list_all2 (var_rel H u)) (stack_vars t) ?fs"
    using ru new unfolding t(2) f g list_all2_snoc by simp
  have fresh: "BlkPtr ?i \<notin> var_block ` set (concat (stack_vars s))"
  proof
    assume "BlkPtr ?i \<in> var_block ` set (concat (stack_vars s))"
    then obtain w h where h: "h \<in> set (stack_vars s)" "w \<in> set h" "var_block w = BlkPtr ?i" by auto
    from list_all2_in [OF r h(1)] obtain h' where "list_all2 (var_rel H s) h h'" by blast
    from list_all2_in [OF this h(2)] old h(3) show False by blast
  qed
  have "distinct (map var_block (concat (stack_vars t)))"
    using d fresh by (auto simp: t(2) f var_block_def lvalue_of_def image_iff)
  moreover have "stack_inv t" by (rule stack_inv_add [OF su(2) t(1)])
  moreover have none: "active_mem s ?i = None"
    using mem_invD(3) [OF mi] nz by (cases "active_mem s ?i") (force simp: next_id_def)+
  have fu: "tables_rep H P (fst (snd st)) u"
    using assms(2) none by (intro tables_keep [of H P _ s u]) (auto simp: rep_def u_def)
  moreover have "rep H P u (fst st, fst (snd st), snd (snd st) - 1)"
    using ru su mu nu nx d k fu by (simp add: rep_def)
  moreover have "tables_rep H P (fst (snd st)) t"
  proof (rule tables_keep [of H P _ s t])
    show "active_mem t i = Some b" if "active_mem s i = Some b" for i b
      using that none tu(1) by (auto simp: u_def)
    show "v \<in> set (concat (stack_vars s)) \<or> a_free P (fst v) \<and> (\<forall>j. var_block v = BlkPtr j \<longrightarrow> active_mem s j = None)"
      if "v \<in> set (concat (stack_vars t))" for v
      using that pn none by (auto simp: t(2) f var_block_def lvalue_of_def)
  qed (use assms(2) preservesD [OF program_emu.push t(1)] in \<open>auto simp: rep_def same_program_def u_def\<close>)
  ultimately have "rep H P t st'"
    using rep_cong [of H P u "(fst st, fst (snd st), snd (snd st) - 1)" t ?fs] tu rt by (simp add: st')
  with bv t(1) show ?thesis by (auto simp: run_simps)
qed
end
