(* ===== verification/IntSim.thy ===== *)
theory IntSim
  imports IntRel
begin

text \<open>
  The interpreter evaluates expressions as \<open>IntSem\<close> says, calls included: from a state that
  represents an abstract one, with enough fuel, every expression the semantics gives a value
  to is evaluated to this number, in a state that represents the abstract state after it. The
  frames of the callers (\<open>gs\<close>) and of the arguments already evaluated for a call (\<open>hs\<close>)
  stay as they are.
\<close>

section \<open>Evaluation with enough fuel\<close>

definition runs :: "host \<Rightarrow> (interp_fns \<Rightarrow> 'a emu) \<Rightarrow> emu_state \<Rightarrow> 'a \<Rightarrow> emu_state \<Rightarrow> bool" where
  "runs H m s p t \<longleftrightarrow> eventually (\<lambda>n. m (interp H n) s = Inr (p, t)) sequentially"

lemma runs_bind:
  assumes "runs H m s x t" and "runs H (\<lambda>ev. f ev x) t y u"
  shows "runs H (\<lambda>ev. bindM (m ev) (f ev)) s y u"
  using eventually_conj [OF assms [unfolded runs_def]] unfolding runs_def
  by (rule eventually_mono) (simp add: run_simps)

lemma runs_seq: "runs H m s x t \<Longrightarrow> runs H k t y u \<Longrightarrow> runs H (\<lambda>ev. seqM (m ev) (k ev)) s y u"
  unfolding seqM_def by (rule runs_bind)

lemma runs_const: "m s = Inr (x, t) \<Longrightarrow> runs H (\<lambda>_. m) s x t"
  by (simp add: runs_def)

lemma runs_ret [simp]: "runs H (\<lambda>ev. ret x) s y t \<longleftrightarrow> x = y \<and> t = s"
  by (auto simp: runs_def run_simps)

lemma runs_cong: "(\<And>ev. m ev s = k ev s) \<Longrightarrow> runs H m s x t = runs H k s x t"
  by (simp add: runs_def)

text \<open>A step under a result of the interpreter that is known with enough fuel.\<close>

lemma runs_mono:
  "runs H m s x t \<Longrightarrow> (\<And>ev. m ev s = Inr (x, t) \<Longrightarrow> k ev u = Inr (y, w)) \<Longrightarrow> runs H k u y w"
  unfolding runs_def by (elim eventually_mono)

lemma runs_mono2:
  assumes "runs H m s x t" and "runs H m' s' x' t'"
    and "\<And>ev. m ev s = Inr (x, t) \<Longrightarrow> m' ev s' = Inr (x', t') \<Longrightarrow> k ev u = Inr (y, w)"
  shows "runs H k u y w"
  using eventually_conj [OF assms(1,2) [unfolded runs_def]] assms(3) unfolding runs_def
  by (elim eventually_mono) blast

lemma runs_step:
  assumes "eventually (\<lambda>n. f (interp H (Suc n)) = Inr (p, t)) sequentially"
  shows "eventually (\<lambda>n. f (interp H n) = Inr (p, t)) sequentially"
  using assms by (rule eventually_sequentially_Suc [THEN iffD1])

lemma runs_stmt: "runs H (\<lambda>ev. exec_stmt H ev c) s p t \<Longrightarrow> runs H (\<lambda>ev. run_stmt ev c) s p t"
  unfolding runs_def by (rule runs_step) (simp add: interp_step_def)

lemma runs_rexpr: "runs H (\<lambda>ev. eval_rexpr H ev e) s p t \<Longrightarrow> runs H (\<lambda>ev. rexpr ev e) s p t"
  unfolding runs_def by (rule runs_step) (simp add: interp_step_def)

lemma runs_lexpr: "runs H (\<lambda>ev. eval_lexpr H ev e) s p t \<Longrightarrow> runs H (\<lambda>ev. lexpr ev e) s p t"
  unfolding runs_def by (rule runs_step) (simp add: interp_step_def)

lemma runs_rvalue: "runs H (\<lambda>ev. rexpr ev e) s (Val v) t \<Longrightarrow> runs H (\<lambda>ev. rvalue ev e) s v t"
  by (erule runs_mono) (simp add: rvalue_def run_simps)

lemma runs_declref:
  "eval_declref nm s = Inr (l, t) \<Longrightarrow> runs H (\<lambda>ev. lexpr ev (DeclRefExpr nm q)) s l t"
  by (rule runs_lexpr, rule runs_cong [THEN iffD1, OF _ runs_const]) (simp_all add: eval_lexpr_def)

lemma runs_preserves: "(\<And>n. preserves R (m (interp H n))) \<Longrightarrow> runs H m s p t \<Longrightarrow> R s t"
  unfolding runs_def eventually_sequentially by (blast intro: preservesD)

text \<open>The expression evaluates to the number \<open>v\<close> of type \<open>int\<close>.\<close>

definition evals_int :: "host \<Rightarrow> expr \<Rightarrow> emu_state \<Rightarrow> int \<Rightarrow> emu_state \<Rightarrow> bool" where
  "evals_int H e s v t \<longleftrightarrow> (\<exists>x. ap_fits NUM_TYPE_INT x \<and> num_value NUM_TYPE_INT x = v \<and>
     runs H (\<lambda>ev. rexpr ev e) s (Val (int_num x)) t)"

lemma evals_intI:
  "runs H (\<lambda>ev. eval_rexpr H ev e) s (Val (int_num x)) t \<Longrightarrow> ap_fits NUM_TYPE_INT x \<Longrightarrow>
   num_value NUM_TYPE_INT x = v \<Longrightarrow> evals_int H e s v t"
  unfolding evals_int_def using runs_rexpr by blast

lemma evals_intE:
  assumes "evals_int H e s v t"
  obtains x where "ap_fits NUM_TYPE_INT x" and "num_value NUM_TYPE_INT x = v"
    and "runs H (\<lambda>ev. rexpr ev e) s (Val (int_num x)) t"
    and "runs H (\<lambda>ev. rvalue ev e) s (int_num x) t"
  using assms runs_rvalue unfolding evals_int_def by blast

lemma declref_nameD: "declref_name e = Some nm \<Longrightarrow> \<exists>q. e = DeclRefExpr nm q"
  by (cases e) auto

section \<open>Operators\<close>

lemma sim_read:
  assumes "rep H P s st" and "a_get st nm = Some (Some v)"
  shows "evals_int H (ImplicitCastExpr CK_LValueToRValue (DeclRefExpr nm q) q') s v s"
proof -
  from rep_get [OF assms] obtain k where l: "eval_declref nm s = Inr (lvalue_of (BlkPtr k) IntType 0, s)"
    and c: "int_cell H s k (Some v)" by blast
  from c obtain x where x: "\<forall>ev. load_at H ev (lvalue_of (BlkPtr k) IntType 0) s = Inr (int_num x, s)"
    "ap_fits NUM_TYPE_INT x" "num_value NUM_TYPE_INT x = v" by (rule int_cell_load)
  show ?thesis
    by (rule evals_intI [OF _ x(2,3)], rule runs_mono [OF runs_declref [OF l, where q = q]])
      (simp add: eval_rexpr_def eval_cast_def run_simps x(1))
qed

lemma sim_unary:
  assumes "llvm_host H" and "evals_int H e s v t"
  shows "evals_int H (UnaryOperator UO_Minus e q) s (wrap32 (- v)) t"
    and "evals_int H (UnaryOperator UO_LNot e q) s (if v = 0 then 1 else 0) t"
proof -
  from assms(2) obtain x where x: "ap_fits NUM_TYPE_INT x" "num_value NUM_TYPE_INT x = v"
    and e: "runs H (\<lambda>ev. rvalue ev e) s (int_num x) t" by (rule evals_intE)
  from unary_result [OF assms(1) x(1)] obtain y z where
    y: "num_neg H NUM_TYPE_INT STATUS_DEFINED x = int_num y" "ap_fits NUM_TYPE_INT y"
      "num_value NUM_TYPE_INT y = wrap32 (- v)"
    and z: "num_lnot H NUM_TYPE_INT STATUS_DEFINED x = int_num z" "ap_fits NUM_TYPE_INT z"
      "num_value NUM_TYPE_INT z = (if v = 0 then 1 else 0)"
    by (auto simp: wrap32_def x(2))
  show "evals_int H (UnaryOperator UO_Minus e q) s (wrap32 (- v)) t"
    by (rule evals_intI [OF _ y(2,3)], rule runs_mono [OF e])
      (simp add: eval_rexpr_def eval_unary_def run_simps generic_neg_def y(1))
  show "evals_int H (UnaryOperator UO_LNot e q) s (if v = 0 then 1 else 0) t"
    by (rule evals_intI [OF _ z(2,3)], rule runs_mono [OF e])
      (simp add: eval_rexpr_def eval_unary_def run_simps generic_lnot_def z(1))
qed

lemma sim_binary:
  assumes "llvm_host H" and r: "evals_int H r s b t" and l: "evals_int H l t a u"
    and "a_binary op a b = Some c"
  shows "evals_int H (BinaryOperator op l r) s c u"
proof -
  from r obtain y where y: "ap_fits NUM_TYPE_INT y" "num_value NUM_TYPE_INT y = b"
    and er: "runs H (\<lambda>ev. rexpr ev r) s (Val (int_num y)) t" by (rule evals_intE)
  from l obtain x where x: "ap_fits NUM_TYPE_INT x" "num_value NUM_TYPE_INT x = a"
    and el: "runs H (\<lambda>ev. rvalue ev l) t (int_num x) u" by (rule evals_intE)
  show ?thesis
  proof (cases "arith_op op")
    case (Some k)
    with assms(4) have d: "k = OpDiv \<longrightarrow> num_value NUM_TYPE_INT y \<noteq> 0" and c: "c = wrap32 (int_op k a b)"
      by (auto simp: a_binary_def y split: if_splits)
    obtain z where z: "num_method H k NUM_TYPE_INT STATUS_DEFINED x STATUS_DEFINED y = int_num z"
      "ap_fits NUM_TYPE_INT z" "num_value NUM_TYPE_INT z = c"
      using host_method_value [OF assms(1) x(1) y(1) d] by (metis c wrap32_def x(2) y(2))
    have dz: "num_doop H k (int_num x) (int_num y) = Inr (int_num z)"
      using z(1) by (simp add: num_of_apint_def num_doop_num)
    show ?thesis
    proof (rule evals_intI [OF _ z(2,3)], rule runs_mono2 [OF er el])
      fix ev assume "rexpr ev r s = Inr (Val (int_num y), t)" "rvalue ev l t = Inr (int_num x, u)"
      then show "eval_rexpr H ev (BinaryOperator op l r) s = Inr (Val (int_num z), u)"
        using Some dz
        by (cases op) (auto simp: eval_rexpr_def eval_binary_def eval_arith_def run_simps Let_def)
    qed
  next
    case None
    with assms(4) obtain p where p: "compare_op op = Some p" "c = (if p a b then 1 else 0)"
      by (auto simp: a_binary_def split: option.splits)
    let ?z = "ap_new H 32 (if p a b then 1 else 0) True"
    have nc: "num_compare H op x y = p a b"
      using num_compare_value [OF assms(1) x(1) y(1) p(1)] by (simp add: x y)
    have z: "ap_fits NUM_TYPE_INT ?z" "num_value NUM_TYPE_INT ?z = c"
      using bool_value [OF assms(1), of "p a b"] p(2) by simp_all
    show ?thesis
    proof (rule evals_intI [OF _ z], rule runs_mono2 [OF er el])
      fix ev assume ev: "rexpr ev r s = Inr (Val (int_num y), t)" "rvalue ev l t = Inr (int_num x, u)"
      then have "eval_compare H ev op l (Val (int_num y)) t = Inr (Val (int_num ?z), u)"
        by (simp add: eval_compare_def run_simps nc Let_def)
      then show "eval_rexpr H ev (BinaryOperator op l r) s = Inr (Val (int_num ?z), u)"
        using ev p(1) by (cases op) (auto simp: eval_rexpr_def eval_binary_def run_simps)
    qed
  qed
qed

lemma sim_assign:
  assumes "llvm_host H" and r: "evals_int H r s b t" and "rep H P t st"
    and "a_assign op nm b st = Some (c, st')"
  shows "\<exists>u. evals_int H (BinaryOperator op (DeclRefExpr nm q) r) s c u \<and> rep H P u st'"
proof -
  from r obtain y where y: "ap_fits NUM_TYPE_INT y" "num_value NUM_TYPE_INT y = b"
    and er: "runs H (\<lambda>ev. rexpr ev r) s (Val (int_num y)) t" by (rule evals_intE)
  show ?thesis
  proof (cases "op = BO_Assign")
    case True
    with assms(4) have u: "a_set st nm b = Some st'" and c: "c = b"
      by (auto simp: a_assign_def split: option.splits)
    obtain z where z: "emu_cast_to H (int_num y) IntType = Inr (int_num z)" "ap_fits NUM_TYPE_INT z"
      "num_value NUM_TYPE_INT z = b" using int_cast_self [OF assms(1) y(1)] y(2) by metis
    from sim_store [OF assms(1,3) _ z(2)] u z(3) obtain k v where
      l: "eval_declref nm t = Inr (lvalue_of (BlkPtr k) IntType 0, t)"
      and w: "block_write H (BlkPtr k) (int_num z) 0 t = Inr ((), v)" and rp: "rep H P v st'"
      by metis
    have "evals_int H (BinaryOperator op (DeclRefExpr nm q) r) s c v"
      by (rule evals_intI [OF _ z(2)], rule runs_mono2 [OF er runs_declref [OF l, where q = q]])
        (simp_all add: True c z eval_rexpr_def eval_binary_def eval_assign_def run_simps lvalue_of_def
          w [unfolded lvalue_of_def])
    with rp show ?thesis by blast
  next
    case False
    with assms(4) obtain k a where k: "compound_op op = Some k" and a: "a_get st nm = Some (Some a)"
      and c: "c = wrap32 (int_op k a b)" and u: "a_set st nm c = Some st'"
      by (auto simp: a_assign_def Let_def split: option.splits)
    from rep_get [OF assms(3) a] obtain i where l: "eval_declref nm t = Inr (lvalue_of (BlkPtr i) IntType 0, t)"
      and ic: "int_cell H t i (Some a)" by blast
    from ic obtain x blk d where blk: "active_mem t i = Some blk" "bdata blk = Some d" "bsize blk = 8"
      and x: "ap_fits NUM_TYPE_INT x" "num_from_mem H NUM_TYPE_INT d = Inr (int_num x)"
      and xv: "num_value NUM_TYPE_INT x = a" by (rule int_cell_value)
    have kd: "k = OpDiv \<longrightarrow> num_value NUM_TYPE_INT y \<noteq> 0" using k by (cases op) auto
    obtain z where z: "num_method H k NUM_TYPE_INT STATUS_DEFINED x STATUS_DEFINED y = int_num z"
      "ap_fits NUM_TYPE_INT z" "num_value NUM_TYPE_INT z = c"
      using host_method_value [OF assms(1) x(1) y(1) kd] by (metis c wrap32_def xv y(2))
    from sim_store [OF assms(1,3) _ z(2)] u z(3) obtain i' v where
      l': "eval_declref nm t = Inr (lvalue_of (BlkPtr i') IntType 0, t)"
      and w: "block_write H (BlkPtr i') (int_num z) 0 t = Inr ((), v)" and rp: "rep H P v st'"
      by metis
    have "i' = i" using l l' by (simp add: lvalue_of_def)
    note w = w [unfolded this]
    have "evals_int H (BinaryOperator op (DeclRefExpr nm q) r) s c v"
    proof (rule evals_intI [OF _ z(2,3)], rule runs_mono2 [OF er runs_declref [OF l, where q = q]])
      fix ev :: interp_fns
      assume ev: "rexpr ev r s = Inr (Val (int_num y), t)"
        "lexpr ev (DeclRefExpr nm q) t = Inr (lvalue_of (BlkPtr i) IntType 0, t)"
      then have "eval_compound_assign H ev k (DeclRefExpr nm q) (Val (int_num y)) t = Inr (Val (int_num z), v)"
        using blk x by (simp add: eval_compound_assign_def run_simps lvalue_of_def block_data_def z(1) w Let_def)
      then show "eval_rexpr H ev (BinaryOperator op (DeclRefExpr nm q) r) s = Inr (Val (int_num z), v)"
        using ev k by (cases op) (auto simp: eval_rexpr_def eval_binary_def run_simps)
    qed
    with rp show ?thesis by blast
  qed
qed

section \<open>Frames around the ones in view\<close>

lemma stack_pos_append:
  "stack_pos nm (gs @ fs) = stack_pos nm gs @ map (\<lambda>p. (fst p + length gs, snd p)) (stack_pos nm fs)"
proof (induction fs rule: rev_induct)
  case Nil
  show ?case by (simp add: stack_pos_def)
next
  case (snoc f fs)
  have "frame_pos nm (length gs + length fs) f
      = map (\<lambda>p. (fst p + length gs, snd p)) (frame_pos nm (length fs) f)"
    by (simp add: frame_pos_def)
  with snoc show ?case unfolding append_assoc [symmetric] stack_pos_snoc by (simp add: add.commute)
qed

lemma stack_pos_context:
  "nm \<notin> fst ` set (concat hs) \<Longrightarrow> stack_pos nm (gs @ fs @ hs)
     = stack_pos nm gs @ map (\<lambda>p. (fst p + length gs, snd p)) (stack_pos nm fs)"
  by (simp add: stack_pos_append stack_pos_none)

lemma last_stack_pos_less:
  assumes "stack_pos nm fs \<noteq> []" and "last (stack_pos nm fs) = (n, i)"
  shows "n < length fs"
  using last_stack_pos [where fs = fs and nm = nm] assms by (auto split: option.splits)

lemma a_lookup_context:
  assumes "a_lookup fs nm = Some c" and "nm \<notin> fst ` set (concat hs)"
  shows "a_lookup (gs @ fs @ hs) nm = Some c"
proof -
  from assms(1) have ne: "stack_pos nm fs \<noteq> []" by (auto simp: a_lookup_def)
  obtain n i where l: "last (stack_pos nm fs) = (n, i)" by force
  let ?ps = "stack_pos nm (gs @ fs @ hs)"
  have ps: "?ps \<noteq> []" "last ?ps = (n + length gs, i)"
    using ne l by (simp_all add: stack_pos_context [OF assms(2)] last_map)
  have "a_lookup fs nm = Some (snd (fs ! n ! i))" using ne l by (cases "stack_pos nm fs") (auto simp: a_lookup_def)
  moreover have "a_lookup (gs @ fs @ hs) nm = Some (snd ((gs @ fs @ hs) ! (n + length gs) ! i))"
    using ps by (cases ?ps) (auto simp: a_lookup_def)
  ultimately show ?thesis using last_stack_pos_less [OF ne l] assms(1) by (simp add: nth_append)
qed

lemma a_update_context:
  assumes "a_update fs nm v = Some fs'" and "nm \<notin> fst ` set (concat hs)"
  shows "a_update (gs @ fs @ hs) nm v = Some (gs @ fs' @ hs)"
proof -
  from assms(1) have ne: "stack_pos nm fs \<noteq> []" by (auto simp: a_update_def)
  obtain n i where l: "last (stack_pos nm fs) = (n, i)" by force
  let ?ps = "stack_pos nm (gs @ fs @ hs)"
  have ps: "?ps \<noteq> []" "last ?ps = (n + length gs, i)"
    using ne l by (simp_all add: stack_pos_context [OF assms(2)] last_map)
  have n: "n < length fs" by (rule last_stack_pos_less [OF ne l])
  have "fs' = fs[n := (fs ! n)[i := (nm, Some v)]]"
    using ne l assms(1) by (cases "stack_pos nm fs") (auto simp: a_update_def)
  moreover have "a_update (gs @ fs @ hs) nm v = Some ((gs @ fs @ hs)
      [n + length gs := ((gs @ fs @ hs) ! (n + length gs))[i := (nm, Some v)]])"
    using ps by (cases ?ps) (auto simp: a_update_def)
  ultimately show ?thesis using n by (simp add: nth_append list_update_append)
qed

text \<open>A global variable is found only if no frame has its name, which the relation says.\<close>

lemma a_get_context:
  assumes "rep H P s (gs @ fst st @ hs, snd st)" and "a_get st nm = Some c" and "nm \<notin> fst ` set (concat hs)"
  shows "a_get (gs @ fst st @ hs, snd st) nm = Some c"
proof (cases "a_lookup (fst st) nm")
  case None
  with assms(2) obtain v where v: "map_of (fst (snd st)) nm = Some v" "c = Some v" by (auto simp: a_get_def)
  then have "nm \<in> set (prog_globals P)" using globals_in [OF assms(1)] by simp
  from rep_global [OF assms(1) this] have "a_lookup (gs @ fst st @ hs) nm = None" by auto
  with v show ?thesis by (simp add: a_get_def)
next
  case (Some d)
  with a_lookup_context [OF Some assms(3)] assms(2) show ?thesis by (simp add: a_get_def)
qed

lemma a_set_context:
  assumes "rep H P s (gs @ fst st @ hs, snd st)" and "a_set st nm v = Some st'" and "nm \<notin> fst ` set (concat hs)"
  shows "a_set (gs @ fst st @ hs, snd st) nm v = Some (gs @ fst st' @ hs, snd st')"
proof (cases "a_update (fst st) nm v")
  case None
  with assms(2) obtain w where w: "map_of (fst (snd st)) nm = Some w"
    and st': "st' = (fst st, a_put nm v (fst (snd st)), snd (snd st))"
    by (auto simp: a_set_def split: if_splits)
  then have "nm \<in> set (prog_globals P)" using globals_in [OF assms(1)] by simp
  from rep_global [OF assms(1) this] have "a_update (gs @ fst st @ hs) nm v = None" by auto
  with w st' show ?thesis by (simp add: a_set_def)
next
  case (Some fs')
  with a_update_context [OF Some assms(3)] assms(2) show ?thesis by (auto simp: a_set_def)
qed

lemma a_assign_context:
  assumes "rep H P s (gs @ fst st @ hs, snd st)" and "a_assign op nm b st = Some (c, st')"
    and "nm \<notin> fst ` set (concat hs)"
  shows "a_assign op nm b (gs @ fst st @ hs, snd st) = Some (c, gs @ fst st' @ hs, snd st')"
proof (cases "op = BO_Assign")
  case True
  with assms(2) a_set_context [OF assms(1) _ assms(3)] show ?thesis
    by (auto simp: a_assign_def split: option.splits)
next
  case False
  with assms(2) obtain k a where k: "compound_op op = Some k" "a_get st nm = Some (Some a)"
    "a_set st nm (wrap32 (int_op k a b)) = Some st'" "c = wrap32 (int_op k a b)"
    by (auto simp: a_assign_def split: option.splits)
  with a_get_context [OF assms(1) k(2) assms(3)] a_set_context [OF assms(1) k(3) assms(3)] False
  show ?thesis by (simp add: a_assign_def)
qed

section \<open>Calls\<close>

text \<open>The simulation of the function bodies, below any frames.\<close>

definition call_sim :: "host \<Rightarrow> int_prog \<Rightarrow> int_call \<Rightarrow> bool" where
  "call_sim H P call \<longleftrightarrow> (\<forall>f vs k v k' s gs. call f vs k = Some (v, k') \<longrightarrow>
     rep H P s (gs @ [zip (map fst (fd_params f)) (map Some vs)], k) \<longrightarrow>
     (\<exists>body x t g. fd_body f = Some body \<and> runs H (\<lambda>ev. run_stmt ev body) s (Val (int_num x)) t \<and>
       ap_fits NUM_TYPE_INT x \<and> num_value NUM_TYPE_INT x = v \<and> rep H P t (gs @ [g], k')))"

text \<open>What a function's name leads to.\<close>

lemma callee_run:
  assumes "rep H P s st" and "prog_fun P nm = Some f"
  obtains i b fid where "eval_declref nm s = Inr (lvalue_of (BlkPtr i) (fd_type f) 0, s)"
    and "active_mem s i = Some b" and "memtype b \<noteq> MEM_TYPE_EXTERN"
    and "\<forall>ev. load_at H ev (lvalue_of (BlkPtr i) (fd_type f) 0) s = Inr (func_of_id fid (fd_type f), s)"
    and "\<not> fid < NUM_EXTERNAL_FUNCTIONS" and "global_functions s fid = Some (curr_source s, f)"
    and "isFunctionType (fd_type f)"
proof -
  from assms obtain i fid where ft: "isFunctionType (fd_type f)"
    and i: "local_vars s (curr_source s) nm = Some (lvalue_of (BlkPtr i) (fd_type f) 0)"
      "func_block s i fid (fd_type f)" "\<not> fid < NUM_EXTERNAL_FUNCTIONS"
      "global_functions s fid = Some (curr_source s, f)"
    unfolding rep_def tables_rep_def fun_rep_def by blast
  have "a_free P (fst v)" if "v \<in> set (concat (stack_vars s))" for v
    using assms(1) that unfolding rep_def tables_rep_def by blast
  then have nm: "nm \<notin> fst ` set (concat (stack_vars s))" using assms(2) by (force simp: a_free_def)
  from i(2) obtain b where b: "active_mem s i = Some b" "memtype b \<noteq> MEM_TYPE_EXTERN"
    by (auto simp: func_block_def)
  have "stack_var_map s nm = None"
    using assms(1) stack_pos_none [OF nm] by (simp add: rep_def stack_inv_def index_entry_def)
  then have "eval_declref nm s = Inr (lvalue_of (BlkPtr i) (fd_type f) 0, s)"
    using i(1) by (simp add: eval_declref_def get_nonstack_var_def run_simps)
  moreover have "load_at H ev (lvalue_of (BlkPtr i) (fd_type f) 0) s = Inr (func_of_id fid (fd_type f), s)" for ev
    using load_function [OF i(2) ft, of H "rexpr ev"] i(4) by (simp add: load_at_def func_of_id_def)
  ultimately show thesis using that b i(3,4) ft by blast
qed

lemma a_calleeD:
  assumes "a_callee P callee args = Some f"
  obtains nm q q' where "callee = ImplicitCastExpr CK_FunctionToPointerDecay (DeclRefExpr nm q') q"
    and "prog_fun P nm = Some f" and "length (fd_params f) = length args"
    and "list_all (\<lambda>p. a_free P (fst p)) (fd_params f)"
    and "args_apart [] (map fst (fd_params f)) args"
  using assms that
  by (auto simp: a_callee_def list_all_iff split: expr.splits option.splits if_splits dest!: declref_nameD)

lemma arg_names_zip:
  "length (fd_params f) = length args \<Longrightarrow> arg_names f args = zip (map fst (fd_params f)) args"
  by (rule nth_equalityI) (auto simp: arg_names_def)

lemma runs_in_frame:
  assumes "runs H m (s\<lparr>stack_vars := stack_vars s @ [[]]\<rparr>) p t" and "pop_stack_frame t = Inr ((), u)"
  shows "runs H (\<lambda>ev. in_frame (m ev)) s p u"
  unfolding in_frame_def
  by (rule runs_seq [OF runs_const [where m = add_stack_frame]])
    (auto simp: add_stack_frame_run intro!: runs_bind [OF assms(1)] runs_seq [OF runs_const [where m = pop_stack_frame, OF assms(2)]])

lemma runs_in_source:
  assumes "runs H m s p t" and "src = curr_source s" and "same_program s t"
  shows "runs H (\<lambda>ev. in_source src (m ev)) s p t"
  using assms(1)
proof (rule runs_mono)
  fix ev assume "m ev s = Inr (p, t)"
  moreover have "s\<lparr>curr_source := src\<rparr> = s" "t\<lparr>curr_source := curr_source s\<rparr> = t"
    using assms(2,3) by (simp_all add: same_program_def)
  ultimately show "in_source src (m ev) s = Inr (p, t)"
    by (simp add: in_source_def run_simps)
qed

text \<open>A call, once its arguments and its body have been run.\<close>

lemma sim_call:
  assumes "rep H P s (gs @ fs, k)" and "a_callee P callee args = Some f" and "fd_body f = Some body"
    and "runs H (\<lambda>ev. forM (zip (map fst (fd_params f)) args) (value_arg H ev))
      (s\<lparr>stack_vars := stack_vars s @ [[]]\<rparr>) () t"
    and "runs H (\<lambda>ev. run_stmt ev body) t p u" and "pop_stack_frame u = Inr ((), w)"
  shows "runs H (\<lambda>ev. rexpr ev (CallExpr callee args)) s p w"
proof -
  from assms(2) obtain nm q q' where c: "callee = ImplicitCastExpr CK_FunctionToPointerDecay (DeclRefExpr nm q') q"
    and nm: "prog_fun P nm = Some f" and len: "length (fd_params f) = length args" by (rule a_calleeD)
  from assms(1) nm obtain i b fid where d: "eval_declref nm s = Inr (lvalue_of (BlkPtr i) (fd_type f) 0, s)"
    and b: "active_mem s i = Some b" "memtype b \<noteq> MEM_TYPE_EXTERN"
    and ld: "\<forall>ev. load_at H ev (lvalue_of (BlkPtr i) (fd_type f) 0) s = Inr (func_of_id fid (fd_type f), s)"
    and fid: "\<not> fid < NUM_EXTERNAL_FUNCTIONS" "global_functions s fid = Some (curr_source s, f)"
    and ft: "isFunctionType (fd_type f)" by (rule callee_run)
  let ?p = "ptr_of_mem_ptr (BlkPtr i) 0 (QPointer (fd_type f))"
  have callee: "runs H (\<lambda>ev. rvalue ev callee) s ?p s"
    by (rule runs_rvalue, rule runs_rexpr, rule runs_mono [OF runs_declref [OF d, where q = q']])
      (simp add: c eval_rexpr_def eval_cast_def run_simps lvalue_of_def ft)
  have sp: "same_program (s\<lparr>stack_vars := stack_vars s @ [[]]\<rparr>) t"
    using assms(4) by (rule runs_preserves [rotated])
      (rule sp.pres_forM, rule program_emu.pres_value_arg [OF program_emu.interp_preserves])
  have su: "same_program t u"
    using assms(5) by (rule runs_preserves [rotated])
      (rule program_emu.ev_preservesD [OF program_emu.interp_preserves])
  have "runs H (\<lambda>ev. in_source (curr_source s) (run_stmt ev body)) t p u"
    by (rule runs_in_source [OF assms(5) _ su]) (use sp in \<open>simp add: same_program_def\<close>)
  from runs_seq [OF assms(4) this]
  have "runs H (\<lambda>ev. call_body H ev fid args) (s\<lparr>stack_vars := stack_vars s @ [[]]\<rparr>) p u"
    by (rule runs_mono) (simp add: call_body_def fid run_simps assms(3) arg_names_zip [OF len])
  from runs_in_frame [OF this assms(6)]
  have body: "runs H (\<lambda>ev. in_frame (call_body H ev fid args)) s p w" .
  have "runs H (\<lambda>ev. eval_call H ev callee args) s p w"
    by (rule runs_mono2 [OF callee body])
      (use b ld ft in \<open>simp add: eval_call_def run_simps ptr_of_mem_ptr_def func_of_id_def lvalue_of_def\<close>)
  then show ?thesis by (intro runs_rexpr) (simp add: eval_rexpr_def)
qed

section \<open>Expressions\<close>

text \<open>An argument becomes the variable of its parameter.\<close>

lemma sim_value_arg:
  assumes "llvm_host H" and "evals_int H e s v t" and "rep H P t (fs @ [g], w, k)" and "k \<noteq> 0" and "a_free P nm"
  shows "\<exists>u. runs H (\<lambda>ev. value_arg H ev (nm, e)) s () u \<and> rep H P u (fs @ [g @ [(nm, Some v)]], w, k - 1)"
proof -
  from assms(2) obtain x where x: "ap_fits NUM_TYPE_INT x" "num_value NUM_TYPE_INT x = v"
    and e: "runs H (\<lambda>ev. rvalue ev e) s (int_num x) t" by (rule evals_intE)
  have "a_declare P nm (map_option (num_value NUM_TYPE_INT) (Some x)) (fs @ [g], w, k)
      = Some (fs @ [g @ [(nm, Some v)]], w, k - 1)"
    using assms(4,5) by (simp add: a_declare_def x(2))
  from sim_declare [OF assms(1,3) _ this] x(1) obtain u where
    u: "bindM (block_of_value H MEM_TYPE_STACK (int_val H (Some x)))
      (\<lambda>p. add_stack_var nm (lvalue_of p (obj_type H (int_val H (Some x))) 0)) t = Inr ((), u)"
    "rep H P u (fs @ [g @ [(nm, Some v)]], w, k - 1)" by blast
  have "runs H (\<lambda>ev. value_arg H ev (nm, e)) s () u"
    by (rule runs_mono [OF e]) (use u(1) in \<open>simp add: value_arg_def run_bind push_arg_def int_val_def\<close>)
  with u(2) show ?thesis by blast
qed

lemma sim_expr_args:
  assumes "llvm_host H"
  shows "a_eval P call e st = Some (v, st') \<Longrightarrow> call_sim H P call \<Longrightarrow>
    rep H P s (gs @ fst st @ hs, snd st) \<Longrightarrow> fst ` set (concat hs) \<inter> set (expr_names e) = {} \<Longrightarrow>
    \<exists>t. evals_int H e s v t \<and> rep H P t (gs @ fst st' @ hs, snd st')"
  and "a_args P call es st = Some (vs, st') \<Longrightarrow> call_sim H P call \<Longrightarrow>
    rep H P s ((gs @ fst st @ hs) @ [g], snd st) \<Longrightarrow>
    fst ` set (concat hs) \<inter> set (concat (map expr_names es)) = {} \<Longrightarrow> length ns = length es \<Longrightarrow>
    list_all (a_free P) ns \<Longrightarrow> args_apart seen ns es \<Longrightarrow> set seen = fst ` set g \<Longrightarrow>
    \<exists>t. runs H (\<lambda>ev. forM (zip ns es) (value_arg H ev)) s () t \<and>
      rep H P t ((gs @ fst st' @ hs) @ [g @ zip ns (map Some vs)], snd st')"
proof (induction P call e st and P call es st arbitrary: v st' s hs and vs st' s hs g ns seen
    rule: a_eval_a_args.induct)
  case (1 P call i st)
  then have f: "ap_fits NUM_TYPE_INT i" "v = num_value NUM_TYPE_INT i" "st' = st"
    by (auto split: if_splits)
  have "evals_int H (IntegerLiteral i) s v s"
    by (rule evals_intI [OF _ f(1)])
      (simp_all add: eval_rexpr_def literal_value [OF assms(1) f(1)] run_simps f(2))
  with "1.prems"(3) f(3) show ?case by blast
next
  case (2 P call e st)
  from "2.prems"(1) have e: "a_eval P call e st = Some (v, st')" by simp
  have "fst ` set (concat hs) \<inter> set (expr_names e) = {}" using "2.prems"(4) by simp
  from "2.IH" [OF e "2.prems"(2,3) this] obtain t where
    t: "evals_int H e s v t" "rep H P t (gs @ fst st' @ hs, snd st')" by blast
  then obtain x where x: "ap_fits NUM_TYPE_INT x" "num_value NUM_TYPE_INT x = v"
    and e: "runs H (\<lambda>ev. rexpr ev e) s (Val (int_num x)) t" by (auto elim: evals_intE)
  have "evals_int H (ParenExpr e) s v t"
    by (rule evals_intI [OF _ x]) (use e in \<open>simp add: eval_rexpr_def\<close>)
  with t(2) show ?case by blast
next
  case (3 P call ck e q st)
  then obtain nm where nm: "declref_name e = Some nm" "ck = CK_LValueToRValue"
    and l: "a_get st nm = Some (Some v)" and st': "st' = st"
    by (auto split: option.splits if_splits)
  from declref_nameD [OF nm(1)] obtain q' where e: "e = DeclRefExpr nm q'" by blast
  have "nm \<notin> fst ` set (concat hs)" using "3.prems"(4) by (auto simp: e)
  from sim_read [OF "3.prems"(3), of nm v q' q] a_get_context [OF "3.prems"(3) l this] nm(2) "3.prems"(3) st'
  show ?case by (auto simp: e)
next
  case (4 P call op e q st)
  then obtain w st1 where w: "a_eval P call e st = Some (w, st1)" by (auto split: option.splits)
  have "fst ` set (concat hs) \<inter> set (expr_names e) = {}" using "4.prems"(4) by simp
  from "4.IH" [OF w "4.prems"(2,3) this] obtain t where
    t: "evals_int H e s w t" "rep H P t (gs @ fst st1 @ hs, snd st1)" by blast
  from sim_unary [OF assms(1) t(1)] t(2) "4.prems"(1) w show ?case
    by (cases op) auto
next
  case (5 P call op l r st)
  then obtain b st1 where r: "a_eval P call r st = Some (b, st1)" by (auto split: option.splits)
  have names: "fst ` set (concat hs) \<inter> set (expr_names l) = {}" "fst ` set (concat hs) \<inter> set (expr_names r) = {}"
    using "5.prems"(4) by auto
  from "5.IH"(1) [OF r "5.prems"(2,3) names(2)] obtain t where
    t: "evals_int H r s b t" "rep H P t (gs @ fst st1 @ hs, snd st1)" by blast
  show ?case
  proof (cases "declref_name l")
    case (Some nm)
    from declref_nameD [OF this] obtain q where q: "l = DeclRefExpr nm q" by blast
    from "5.prems"(1) r Some have a: "a_assign op nm b st1 = Some (v, st')" by simp
    have "nm \<notin> fst ` set (concat hs)" using names(1) by (auto simp: q)
    from a_assign_context [OF t(2) a this] sim_assign [OF assms t(1,2), of op nm v _ q] show ?thesis
      by (simp add: q)
  next
    case None
    with "5.prems"(1) r obtain a where l: "a_eval P call l st1 = Some (a, st')" and c: "a_binary op a b = Some v"
      by (auto split: option.splits)
    from "5.IH"(2) [OF r refl None l "5.prems"(2) t(2) names(1)] obtain u where
      u: "evals_int H l t a u" "rep H P u (gs @ fst st' @ hs, snd st')" by blast
    from sim_binary [OF assms t(1) u(1) c] u(2) show ?thesis by blast
  qed
next
  case (6 P call callee args st)
  then obtain f vs st1 k' where f: "a_callee P callee args = Some f"
    and vs: "a_args P call args st = Some (vs, st1)" and c: "call f vs (snd st1) = Some (v, k')"
    and st': "st' = (fst st1, k')" by (auto split: option.splits)
  from f obtain nm q q' where len: "length (fd_params f) = length args"
    and ns: "list_all (a_free P) (map fst (fd_params f))"
    and ap: "args_apart [] (map fst (fd_params f)) args"
    by (rule a_calleeD) (simp add: list.pred_map o_def)
  have rp: "rep H P (s\<lparr>stack_vars := stack_vars s @ [[]]\<rparr>) ((gs @ fst st @ hs) @ [[]], snd st)"
    using sim_push [OF "6.prems"(3)] by (simp add: a_push_def)
  have names: "fst ` set (concat hs) \<inter> set (concat (map expr_names args)) = {}"
    using "6.prems"(4) by simp
  from "6.IH" [OF f vs "6.prems"(2) rp names _ ns ap] len obtain t where
    t: "runs H (\<lambda>ev. forM (zip (map fst (fd_params f)) args) (value_arg H ev))
      (s\<lparr>stack_vars := stack_vars s @ [[]]\<rparr>) () t"
    "rep H P t ((gs @ fst st1 @ hs) @ [zip (map fst (fd_params f)) (map Some vs)], snd st1)" by auto
  from "6.prems"(2) c t(2) obtain body x u g where b: "fd_body f = Some body"
    and x: "runs H (\<lambda>ev. run_stmt ev body) t (Val (int_num x)) u" "ap_fits NUM_TYPE_INT x"
      "num_value NUM_TYPE_INT x = v" and u: "rep H P u ((gs @ fst st1 @ hs) @ [g], k')"
    unfolding call_sim_def by meson
  from sim_pop [OF u] obtain w where w: "pop_stack_frame u = Inr ((), w)"
    "rep H P w (gs @ fst st' @ hs, snd st')" by (auto simp: a_pop_def st' simp del: append_assoc)
  from sim_call [OF "6.prems"(3) f b t(1) x(1) w(1)]
  have "evals_int H (CallExpr callee args) s v w" using x(2,3) by (auto simp: evals_int_def)
  with w(2) show ?case by blast
next
  case (16 P call st)
  then show ?case by auto
next
  case (17 P call e es st)
  then obtain v st1 vs' st2 where e: "a_eval P call e st = Some (v, st1)" and k: "snd (snd st1) \<noteq> 0"
    and es: "a_args P call es (fst st1, fst (snd st1), snd (snd st1) - 1) = Some (vs', st')" and vs: "vs = v # vs'"
    by (auto split: option.splits if_splits)
  from "17.prems"(5) obtain nm ns' where ns: "ns = nm # ns'" "length ns' = length es" by (cases ns) auto
  have ap: "fst ` set g \<inter> set (expr_names e) = {}" "args_apart (nm # seen) ns' es"
    using "17.prems"(7,8) by (auto simp: ns list_all_iff)
  have rp: "rep H P s (gs @ fst st @ (hs @ [g]), snd st)" using "17.prems"(3) by simp
  have hd: "fst ` set (concat hs) \<inter> set (expr_names e) = {}"
    and tl: "fst ` set (concat hs) \<inter> set (concat (map expr_names es)) = {}"
    using "17.prems"(4) by (auto simp only: list.map concat.simps set_append)
  from ap(1) hd have "fst ` set (concat (hs @ [g])) \<inter> set (expr_names e) = {}"
    by (simp only: concat_append set_append image_Un Int_Un_distrib2 concat.simps append_Nil2 Un_empty_right)
  from "17.IH"(1) [OF e "17.prems"(2) rp this] obtain t where
    t: "evals_int H e s v t" "rep H P t ((gs @ fst st1 @ hs) @ [g], snd st1)" by auto
  have "a_free P nm" using "17.prems"(6) by (simp add: ns)
  from sim_value_arg [OF assms t(1) _ k this, of "gs @ fst st1 @ hs" g "fst (snd st1)"] t(2) obtain u where
    u: "runs H (\<lambda>ev. value_arg H ev (nm, e)) s () u"
      "rep H P u ((gs @ fst st1 @ hs) @ [g @ [(nm, Some v)]], fst (snd st1), snd (snd st1) - 1)" by auto
  have "\<exists>w. runs H (\<lambda>ev. forM (zip ns' es) (value_arg H ev)) u () w \<and>
      rep H P w ((gs @ fst st' @ hs) @ [(g @ [(nm, Some v)]) @ zip ns' (map Some vs')], snd st')"
    by (rule "17.IH"(2) [OF e refl k es "17.prems"(2) _ tl ns(2) _ ap(2)])
      (use u(2) "17.prems"(6,8) in \<open>auto simp: ns\<close>)
  then obtain w where w: "runs H (\<lambda>ev. forM (zip ns' es) (value_arg H ev)) u () w"
    "rep H P w ((gs @ fst st' @ hs) @ [(g @ [(nm, Some v)]) @ zip ns' (map Some vs')], snd st')" by blast
  have "runs H (\<lambda>ev. forM (zip ns (e # es)) (value_arg H ev)) s () w"
    unfolding ns zip_Cons_Cons forM.simps by (rule runs_bind [OF u(1), where f = "\<lambda>ev _. forM (zip ns' es) (value_arg H ev)"]) (rule w(1))
  with w(2) show ?case by (auto simp: ns vs)
qed auto

text \<open>With no arguments under way.\<close>

lemma sim_expr:
  assumes "llvm_host H" and "call_sim H P call" and "a_eval P call e st = Some (v, st')"
    and "rep H P s (gs @ fst st, snd st)"
  obtains t where "evals_int H e s v t" and "rep H P t (gs @ fst st', snd st')"
  using sim_expr_args(1) [OF assms(1,3,2), of s gs "[]"] assms(4) by auto

section \<open>Declarations\<close>

lemma load_uninit: "load_at H ev (lvalue_of NullBlk IntType 0) s = Inr (int_val H None, s)"
  by (simp add: load_at_def load_def lvalue_of_def run_simps load_loc_def load_num_def int_val_def)

lemma a_declare_context:
  "a_declare P nm c st = Some st' \<Longrightarrow>
   a_declare P nm c (gs @ fst st, snd st) = Some (gs @ fst st', snd st')"
  by (auto simp: a_declare_def butlast_append split: if_splits)

text \<open>An initializer is evaluated twice; the variable gets the second value.\<close>

lemma sim_init_decl:
  assumes "llvm_host H" and "call_sim H P call" and "rep H P s (gs @ fst st, snd st)"
    and "vd_type v = IntType" and "vd_init v = Some e"
    and "a_eval P call e st = Some (w', st1)" and "a_eval P call e st1 = Some (w, st2)"
    and "a_declare P (vd_name v) (Some w) st2 = Some st'"
  shows "\<exists>t. runs H (\<lambda>ev. exec_decl H ev (VarDecl v)) s () t \<and> rep H P t (gs @ fst st', snd st')"
proof -
  from sim_expr [OF assms(1,2,6) assms(3)] obtain t1 where
    t1: "evals_int H e s w' t1" "rep H P t1 (gs @ fst st1, snd st1)" .
  from sim_expr [OF assms(1,2,7) t1(2)] obtain t2 where
    t2: "evals_int H e t1 w t2" "rep H P t2 (gs @ fst st2, snd st2)" .
  from t1(1) obtain x1 where e1: "runs H (\<lambda>ev. rexpr ev e) s (Val (int_num x1)) t1" by (rule evals_intE)
  from t2(1) obtain x2 where x2: "ap_fits NUM_TYPE_INT x2" "num_value NUM_TYPE_INT x2 = w"
    and e2: "runs H (\<lambda>ev. rvalue ev e) t1 (int_num x2) t2" by (rule evals_intE)
  obtain z where z: "emu_cast_to H (int_num x2) IntType = Inr (int_num z)" "ap_fits NUM_TYPE_INT z"
    "num_value NUM_TYPE_INT z = w" using int_cast_self [OF assms(1) x2(1)] x2(2) by metis
  from a_declare_context [OF assms(8), of gs] sim_declare [OF assms(1) t2(2), of "Some z" "vd_name v"] z obtain t where
    t: "bindM (block_of_value H MEM_TYPE_STACK (int_val H (Some z)))
    (\<lambda>p. add_stack_var (vd_name v) (lvalue_of p (obj_type H (int_val H (Some z))) 0)) t2 = Inr ((), t)"
    "rep H P t (gs @ fst st', snd st')" by auto
  have "runs H (\<lambda>ev. exec_decl H ev (VarDecl v)) s () t"
  proof (rule runs_mono2 [OF e1 e2])
    fix ev assume "rexpr ev e s = Inr (Val (int_num x1), t1)" "rvalue ev e t1 = Inr (int_num x2, t2)"
    then show "exec_decl H ev (VarDecl v) s = Inr ((), t)"
      unfolding exec_decl_def decl.case assms(4,5) option.case
      using t(1) z(1) by (simp add: run_simps delete_value_def int_val_def)
  qed
  with t(2) show ?thesis by blast
qed

lemma sim_decl:
  assumes "llvm_host H" and "call_sim H P call" and "a_decl P call dl st = Some st'"
    and "rep H P s (gs @ fst st, snd st)"
  shows "\<exists>t. runs H (\<lambda>ev. exec_decl H ev dl) s () t \<and> rep H P t (gs @ fst st', snd st')"
proof (cases dl)
  case NonVarDecl
  with assms(3,4) show ?thesis by (auto simp: a_decl_def exec_decl_def)
next
  case (VarDecl v)
  with assms(3) have ty: "vd_type v = IntType" by (auto simp: a_decl_def split: if_splits)
  show ?thesis
  proof (cases "vd_init v")
    case None
    with assms(3) VarDecl ty have "a_declare P (vd_name v) None st = Some st'" by (simp add: a_decl_def)
    from a_declare_context [OF this, of gs] sim_declare [OF assms(1,4), of None "vd_name v"] obtain t where
      t: "bindM (block_of_value H MEM_TYPE_STACK (int_val H None))
      (\<lambda>p. add_stack_var (vd_name v) (lvalue_of p (obj_type H (int_val H None)) 0)) s = Inr ((), t)"
      "rep H P t (gs @ fst st', snd st')" by auto
    have "exec_decl H ev dl s = Inr ((), t)" for ev
      unfolding exec_decl_def VarDecl decl.case None option.case ty
      using t(1) by (simp add: run_bind load_uninit)
    with t(2) show ?thesis by (auto simp: runs_def)
  next
    case (Some e)
    with assms(3) VarDecl ty obtain w st1 st2 w' where
      e: "a_eval P call e st = Some (w', st1)" "a_eval P call e st1 = Some (w, st2)"
      and dc: "a_declare P (vd_name v) (Some w) st2 = Some st'"
      by (auto simp: a_decl_def a_init_def split: option.splits if_splits)
    from sim_init_decl [OF assms(1,2,4) ty Some e dc] VarDecl show ?thesis by simp
  qed
qed

end
