(* ===== verification/IntStmt.thy ===== *)
theory IntStmt
  imports IntSim
begin

text \<open>
  Statements: the interpreter executes every statement of the \<open>int\<close> fragment as the semantics
  of \<open>IntSem\<close> says, and with this the bodies of functions, so that the simulation of
  expressions holds for calls of every depth.
\<close>

section \<open>Simulation\<close>

text \<open>The pointer a statement returns: null, the value of a \<open>return\<close>, or \<open>BREAK_POINTER\<close>.\<close>

definition ret_rel :: "int_result \<Rightarrow> evptr \<Rightarrow> bool" where
  "ret_rel r p \<longleftrightarrow> (case r of
     Norm \<Rightarrow> p = NullVal
   | Ret v \<Rightarrow> \<exists>x. p = Val (int_num x) \<and> ap_fits NUM_TYPE_INT x \<and> num_value NUM_TYPE_INT x = v
   | Brk \<Rightarrow> p = BreakPtr)"

definition simulates :: "host \<Rightarrow> int_prog \<Rightarrow> (interp_fns \<Rightarrow> evptr emu) \<Rightarrow>
    (int_state \<Rightarrow> (int_result \<times> int_state) option) \<Rightarrow> bool" where
  "simulates H P m f \<longleftrightarrow> (\<forall>s gs st r st'. f st = Some (r, st') \<longrightarrow> rep H P s (gs @ fst st, snd st) \<longrightarrow>
     (\<exists>p t. runs H m s p t \<and> ret_rel r p \<and> rep H P t (gs @ fst st', snd st')))"

lemma simulatesI:
  "(\<And>s gs st r st'. f st = Some (r, st') \<Longrightarrow> rep H P s (gs @ fst st, snd st) \<Longrightarrow>
     \<exists>p t. runs H m s p t \<and> ret_rel r p \<and> rep H P t (gs @ fst st', snd st')) \<Longrightarrow> simulates H P m f"
  by (auto simp: simulates_def)

lemma simulatesE:
  assumes "simulates H P m f" and "f st = Some (r, st')" and "rep H P s (gs @ fst st, snd st)"
  obtains p t where "runs H m s p t" and "ret_rel r p" and "rep H P t (gs @ fst st', snd st')"
  using assms unfolding simulates_def by blast

lemma ret_rel_simps [simp]:
  "ret_rel Norm p \<longleftrightarrow> p = NullVal" "ret_rel Brk p \<longleftrightarrow> p = BreakPtr"
  by (auto simp: ret_rel_def)

lemma ret_rel_null: "ret_rel r p \<Longrightarrow> p = NullVal \<longleftrightarrow> r = Norm"
  by (cases r) (auto simp: ret_rel_def)

text \<open>Execution keeps the number of frames.\<close>

lemma runs_frames:
  assumes "runs H m s p t" and "\<And>n. preserves stack_ext (m (interp H n))"
    and "rep H P s (gs @ fs, k)" and "rep H P t (gs @ fs', k')" and "fs \<noteq> []"
  shows "length fs' = length fs"
proof -
  have l: "length (stack_vars s) = length gs + length fs" "length (stack_vars t) = length gs + length fs'"
    using assms(3,4) by (auto simp: rep_def dest!: list_all2_lengthD)
  then have "stack_vars s \<noteq> []" using assms(5) by auto
  then obtain f r where f: "stack_vars s = r @ [f]" by (metis rev_exhaust)
  from assms(1,2) have "stack_ext s t" by (rule runs_preserves [rotated])
  with f obtain g where "stack_vars t = r @ [f @ g]" by (auto simp: stack_ext_def)
  with f l show ?thesis by simp
qed

section \<open>Sequences, frames and loops\<close>

lemma sim_stmts:
  assumes "\<And>c. simulates H P (\<lambda>ev. run_stmt ev c) (ex c)"
  shows "simulates H P (\<lambda>ev. exec_stmts ev ss) (a_stmts ex ss)"
proof (induction ss)
  case Nil
  show ?case by (rule simulatesI) auto
next
  case (Cons c ss)
  show ?case
  proof (rule simulatesI)
    fix s gs st r st' assume a: "a_stmts ex (c # ss) st = Some (r, st')" and rp: "rep H P s (gs @ fst st, snd st)"
    then obtain r1 st1 where c: "ex c st = Some (r1, st1)" by (auto split: option.splits)
    from simulatesE [OF assms c rp] obtain p t where
      t: "runs H (\<lambda>ev. run_stmt ev c) s p t" "ret_rel r1 p" "rep H P t (gs @ fst st1, snd st1)" .
    show "\<exists>p t. runs H (\<lambda>ev. exec_stmts ev (c # ss)) s p t \<and> ret_rel r p \<and> rep H P t (gs @ fst st', snd st')"
    proof (cases "r1 = Norm")
      case True
      with a c have "a_stmts ex ss st1 = Some (r, st')" by simp
      from simulatesE [OF Cons this t(3)] obtain q u where
        u: "runs H (\<lambda>ev. exec_stmts ev ss) t q u" "ret_rel r q" "rep H P u (gs @ fst st', snd st')" .
      have "runs H (\<lambda>ev. exec_stmts ev (c # ss)) s q u"
        unfolding exec_stmts.simps using t(1,2) u(1) True by (intro runs_bind) auto
      with u show ?thesis by blast
    next
      case False
      with a c have e: "r = r1" "st' = st1" by auto
      have "runs H (\<lambda>ev. exec_stmts ev (c # ss)) s p t"
        unfolding exec_stmts.simps using t(1) ret_rel_null [OF t(2)] False by (intro runs_bind) auto
      with t e show ?thesis by blast
    qed
  qed
qed

lemma sim_frame:
  assumes "simulates H P m f" and "\<And>n. preserves stack_ext (m (interp H n))"
  shows "simulates H P (\<lambda>ev. in_frame (m ev)) (a_frame f)"
proof (rule simulatesI)
  fix s gs st r st' assume a: "a_frame f st = Some (r, st')" and rp: "rep H P s (gs @ fst st, snd st)"
  then obtain st1 where f: "f (a_push st) = Some (r, st1)" and st': "st' = a_pop st1"
    by (auto simp: a_frame_def split: option.splits)
  let ?s = "s\<lparr>stack_vars := stack_vars s @ [[]]\<rparr>"
  have rs: "rep H P ?s (gs @ fst (a_push st), snd (a_push st))"
    using sim_push [OF rp] by (simp add: a_push_def)
  from simulatesE [OF assms(1) f rs] obtain p t where
    t: "runs H m ?s p t" "ret_rel r p" "rep H P t (gs @ fst st1, snd st1)" .
  from runs_frames [OF t(1) assms(2) rs t(3)] have ne: "fst st1 \<noteq> []" by (auto simp: a_push_def)
  then have "fst (gs @ fst st1, snd st1) \<noteq> []" by simp
  from sim_pop [OF t(3) this] ne obtain u where
    u: "pop_stack_frame t = Inr ((), u)" "rep H P u (gs @ fst st', snd st')"
    by (auto simp: a_pop_def st' butlast_append)
  from runs_in_frame [OF t(1) u(1)] t(2) u(2)
  show "\<exists>p t. runs H (\<lambda>ev. in_frame (m ev)) s p t \<and> ret_rel r p \<and> rep H P t (gs @ fst st', snd st')" by blast
qed

lemma runs_expr:
  assumes "llvm_host H" and "call_sim H P call" and "a_eval P call e st = Some (v, st')"
    and "rep H P s (gs @ fst st, snd st)"
  obtains x t where "runs H (\<lambda>ev. rexpr ev e) s (Val (int_num x)) t"
    and "runs H (\<lambda>ev. rvalue ev e) s (int_num x) t"
    and "ap_fits NUM_TYPE_INT x" and "num_value NUM_TYPE_INT x = v" and "rep H P t (gs @ fst st', snd st')"
proof -
  from sim_expr [OF assms] obtain t where "evals_int H e s v t" "rep H P t (gs @ fst st', snd st')" .
  with that show thesis by (auto elim: evals_intE)
qed

lemma int_is_zero:
  assumes "llvm_host H" and "ap_fits NUM_TYPE_INT x"
  shows "is_scalar_zero H (int_num x) s = Inr (num_value NUM_TYPE_INT x = 0, s)"
  using llvm_host.eq64 [OF assms(1), of x 0] num_value_zero [OF assms(2)] assms(2)
  by (simp add: is_scalar_zero_def run_simps ap_fits_def)

text \<open>The value of a condition, compared with 0.\<close>

lemma runs_condition:
  assumes "llvm_host H" and "call_sim H P call" and "a_eval P call e st = Some (v, st')"
    and "rep H P s (gs @ fst st, snd st)"
  obtains t where "runs H (\<lambda>ev. bindM (rvalue ev e) (is_scalar_zero H)) s (v = 0) t"
    and "rep H P t (gs @ fst st', snd st')"
proof -
  from runs_expr [OF assms] obtain x t where r: "runs H (\<lambda>ev. rvalue ev e) s (int_num x) t"
    and x: "ap_fits NUM_TYPE_INT x" "num_value NUM_TYPE_INT x = v" and t: "rep H P t (gs @ fst st', snd st')"
    by blast
  have "runs H (\<lambda>ev. is_scalar_zero H (int_num x)) t (v = 0) t"
    by (rule runs_const) (simp add: int_is_zero [OF assms(1) x(1)] x(2))
  with r have "runs H (\<lambda>ev. bindM (rvalue ev e) (is_scalar_zero H)) s (v = 0) t"
    by (rule runs_bind [where f = "\<lambda>_. is_scalar_zero H"])
  with t that show thesis by blast
qed

lemma sim_loop:
  assumes "llvm_host H" and "call_sim H P call" and "\<And>c. simulates H P (\<lambda>ev. run_stmt ev c) (ex c)"
  shows "a_loop ex (a_eval P call) n e k b st = Some (r, st') \<Longrightarrow> rep H P s (gs @ fst st, snd st) \<Longrightarrow>
    \<exists>p t. runs H (\<lambda>ev. for_loop H ev n (Some e) (Some k) b) s p t \<and> ret_rel r p \<and>
      rep H P t (gs @ fst st', snd st')"
proof (induction n arbitrary: s st)
  case (Suc n)
  then obtain v st1 where v: "a_eval P call e st = Some (v, st1)" by (auto split: option.splits)
  from runs_condition [OF assms(1,2) v Suc.prems(2)] obtain t where
    cond: "runs H (\<lambda>ev. bindM (rvalue ev e) (is_scalar_zero H)) s (v = 0) t"
    and t: "rep H P t (gs @ fst st1, snd st1)" .
  let ?k = "\<lambda>ev z. if z then ret NullVal
       else bindM (run_stmt ev b) (\<lambda>r. if r \<noteq> NullVal then ret r
         else seqM (rexpr ev k) (for_loop H ev n (Some e) (Some k) b))"
  have step: "for_loop H ev (Suc n) (Some e) (Some k) b
      = bindM (bindM (rvalue ev e) (is_scalar_zero H)) (?k ev)" for ev
    by (simp add: bindM_assoc cong: if_cong)
  have "\<exists>p u. runs H (\<lambda>ev. ?k ev (v = 0)) t p u \<and> ret_rel r p \<and> rep H P u (gs @ fst st', snd st')"
  proof (cases "v = 0")
    case True
    with Suc.prems v t show ?thesis by auto
  next
    case False
    with Suc.prems(1) v obtain r1 st2 where b: "ex b st1 = Some (r1, st2)"
      by (auto split: option.splits)
    from simulatesE [OF assms(3) b t] obtain p u where
      u: "runs H (\<lambda>ev. run_stmt ev b) t p u" "ret_rel r1 p" "rep H P u (gs @ fst st2, snd st2)" .
    show ?thesis
    proof (cases r1)
      case Brk
      with Suc.prems(1) v b False show ?thesis by simp
    next
      case (Ret w)
      with Suc.prems(1) v b False have "r = r1" "st' = st2" by auto
      moreover have "runs H (\<lambda>ev. ?k ev (v = 0)) t p u"
        unfolding if_not_P [OF False] by (rule runs_bind [OF u(1)]) (use ret_rel_null [OF u(2)] Ret in simp)
      ultimately show ?thesis using u by blast
    next
      case Norm
      with Suc.prems(1) v b False obtain w st3 where w: "a_eval P call k st2 = Some (w, st3)"
        and l: "a_loop ex (a_eval P call) n e k b st3 = Some (r, st')" by (auto split: option.splits)
      from runs_expr [OF assms(1,2) w u(3)] obtain y t2 where
        t2: "runs H (\<lambda>ev. rexpr ev k) u (Val (int_num y)) t2" "rep H P t2 (gs @ fst st3, snd st3)" by blast
      from Suc.IH [OF l t2(2)] obtain q t3 where
        t3: "runs H (\<lambda>ev. for_loop H ev n (Some e) (Some k) b) t2 q t3" "ret_rel r q"
          "rep H P t3 (gs @ fst st', snd st')" by blast
      have "runs H (\<lambda>ev. ?k ev (v = 0)) t q t3"
        unfolding if_not_P [OF False]
        by (rule runs_bind [OF u(1)]) (use u(2) Norm runs_seq [OF t2(1) t3(1)] in simp)
      with t3 show ?thesis by blast
    qed
  qed
  then obtain p u where u: "runs H (\<lambda>ev. ?k ev (v = 0)) t p u" "ret_rel r p"
    "rep H P u (gs @ fst st', snd st')" by blast
  have "runs H (\<lambda>ev. for_loop H ev (Suc n) (Some e) (Some k) b) s p u"
    unfolding step by (rule runs_bind [OF cond, where f = ?k]) (rule u(1))
  with u show ?case by blast
qed simp

lemma fuel_interp [simp]: "fuel (interp H n) = n"
  by (induction n) (simp_all add: interp_step_def)

lemma loop_more_fuel:
  "n \<le> m \<Longrightarrow> for_loop H ev n c i b s = Inr r \<Longrightarrow> for_loop H ev m c i b s = Inr r"
  using le_for_loop [of ev ev n m H c i b]
  by (simp add: le_ev_def le_fuel_refl) (metis Inl_Inr_False le_fuel_def)

text \<open>A \<open>for\<close> statement, from what holds of its loop.\<close>

lemma sim_for_loop:
  assumes "\<And>c. simulates H P (\<lambda>ev. run_stmt ev c) (ex c)"
    and "simulates H P (\<lambda>ev. for_loop H ev n (Some e) (Some k) b) L"
  shows "simulates H P (\<lambda>ev. exec_for H ev (Some i) (Some e) (Some k) b)
    (a_frame (\<lambda>st. case ex i st of None \<Rightarrow> None | Some (r, st') \<Rightarrow> if r = Norm then L st' else None))"
proof -
  let ?m = "\<lambda>ev. bindM (run_stmt ev i) (\<lambda>r.
       if r = NullVal then for_loop H ev (fuel ev) (Some e) (Some k) b else ret r)"
  have "simulates H P ?m (\<lambda>st. case ex i st of None \<Rightarrow> None | Some (r, st') \<Rightarrow> if r = Norm then L st' else None)"
  proof (rule simulatesI)
    fix s gs st r st'
    assume a: "(case ex i st of None \<Rightarrow> None | Some (r, st') \<Rightarrow> if r = Norm then L st' else None) = Some (r, st')"
      and rp: "rep H P s (gs @ fst st, snd st)"
    then obtain st1 where i: "ex i st = Some (Norm, st1)" and l: "L st1 = Some (r, st')"
      by (auto split: option.splits if_splits)
    from simulatesE [OF assms(1) i rp] obtain p t where
      t: "runs H (\<lambda>ev. run_stmt ev i) s p t" "ret_rel Norm p" "rep H P t (gs @ fst st1, snd st1)" .
    from simulatesE [OF assms(2) l t(3)] obtain q u where
      u: "runs H (\<lambda>ev. for_loop H ev n (Some e) (Some k) b) t q u" "ret_rel r q"
        "rep H P u (gs @ fst st', snd st')" by blast
    have "runs H (\<lambda>ev. for_loop H ev (fuel ev) (Some e) (Some k) b) t q u"
      using u(1) unfolding runs_def
      by (rule eventually_rev_mp) (rule eventually_sequentiallyI [of n], use loop_more_fuel in fastforce)
    then have "runs H ?m s q u" using t by (intro runs_bind [OF t(1)]) simp
    with u show "\<exists>p t. runs H ?m s p t \<and> ret_rel r p \<and> rep H P t (gs @ fst st', snd st')" by blast
  qed
  from sim_frame [OF this] show ?thesis
    unfolding exec_for_def option.case
    using stack_emu.interp_preserves [of H]
    by (blast intro: sx.pres_bind sx.pres_if sx.pres_ret stack_emu.pres_for_loop stack_emu.ev_preservesD(3))
qed

lemma sim_for:
  assumes "llvm_host H" and "call_sim H P call" and "\<And>c. simulates H P (\<lambda>ev. run_stmt ev c) (ex c)"
  shows "simulates H P (\<lambda>ev. exec_for H ev (Some i) (Some e) (Some k) b)
    (a_frame (a_for ex (a_eval P call) n i e k b))"
proof -
  have "simulates H P (\<lambda>ev. for_loop H ev n (Some e) (Some k) b) (a_loop ex (a_eval P call) n e k b)"
    by (rule simulatesI) (rule sim_loop [OF assms])
  from sim_for_loop [OF assms(3) this] show ?thesis by (simp add: a_for_def [abs_def])
qed

lemma sim_decls:
  assumes "llvm_host H" and "call_sim H P call"
  shows "a_decls P call ds st = Some st' \<Longrightarrow> rep H P s (gs @ fst st, snd st) \<Longrightarrow>
    \<exists>t. runs H (\<lambda>ev. forM ds (exec_decl H ev)) s () t \<and> rep H P t (gs @ fst st', snd st')"
proof (induction ds arbitrary: s st)
  case (Cons d ds)
  then obtain st1 where d: "a_decl P call d st = Some st1" and ds: "a_decls P call ds st1 = Some st'"
    by (auto split: option.splits)
  from sim_decl [OF assms d Cons.prems(2)] obtain t where
    t: "runs H (\<lambda>ev. exec_decl H ev d) s () t" "rep H P t (gs @ fst st1, snd st1)" by blast
  from Cons.IH [OF ds t(2)] obtain u where
    u: "runs H (\<lambda>ev. forM ds (exec_decl H ev)) t () u" "rep H P u (gs @ fst st', snd st')" by blast
  have "runs H (\<lambda>ev. forM (d # ds) (exec_decl H ev)) s () u"
    unfolding forM.simps by (rule runs_bind [OF t(1) u(1)])
  with u(2) show ?case by blast
qed (auto simp: runs_def run_simps)

section \<open>Calls and statements\<close>

text \<open>The bodies of functions, from the statements.\<close>

lemma sim_bodies:
  assumes "\<And>c. simulates H P (\<lambda>ev. run_stmt ev c) (ex c)"
  shows "call_sim H P (a_call ex)"
  unfolding call_sim_def
proof (intro allI impI)
  fix f :: function_decl
  fix vs :: "int list"
  fix k v k' s gs
  let ?g = "zip (map fst (fd_params f)) (map Some vs)"
  assume a: "a_call ex f vs k = Some (v, k')" and rp: "rep H P s (gs @ [?g], k)"
  then obtain b st' where b: "fd_body f = Some b" and e: "ex b ([?g], k) = Some (Ret v, st')"
    and k': "k' = snd st'" by (auto simp: a_call_def split: option.splits int_result.splits)
  from simulatesE [OF assms e, of s gs] rp obtain p t where
    t: "runs H (\<lambda>ev. run_stmt ev b) s p t" "ret_rel (Ret v) p" "rep H P t (gs @ fst st', snd st')" by auto
  have "length (fst st') = length [?g]"
    using t(1) stack_emu.ev_preservesD(3) [OF stack_emu.interp_preserves] rp t(3)
    by (rule runs_frames) simp
  then obtain g where "fst st' = [g]" by (cases "fst st'") auto
  with b t k' show "\<exists>body x t g. fd_body f = Some body \<and> runs H (\<lambda>ev. run_stmt ev body) s (Val (int_num x)) t \<and>
      ap_fits NUM_TYPE_INT x \<and> num_value NUM_TYPE_INT x = v \<and> rep H P t (gs @ [g], k')"
    by (auto simp: ret_rel_def)
qed

lemma sim_if:
  assumes "llvm_host H" and "call_sim H P call" and "\<And>c. simulates H P (\<lambda>ev. run_stmt ev c) (ex c)"
    and "a_eval P call e st = Some (v, st1)" and "rep H P s (gs @ fst st, snd st)"
    and "(if v \<noteq> 0 then ex th st1
      else (case el of None \<Rightarrow> Some (Norm, st1) | Some c \<Rightarrow> ex c st1)) = Some (r, st')"
  shows "\<exists>p u. runs H (\<lambda>ev. exec_if H ev e th el) s p u \<and> ret_rel r p \<and> rep H P u (gs @ fst st', snd st')"
proof -
  from runs_condition [OF assms(1,2,4,5)] obtain t where
    cond: "runs H (\<lambda>ev. bindM (rvalue ev e) (is_scalar_zero H)) s (v = 0) t"
    and t: "rep H P t (gs @ fst st1, snd st1)" .
  let ?k = "\<lambda>ev z. if z then (case el of None \<Rightarrow> ret NullVal | Some s \<Rightarrow> run_stmt ev s) else run_stmt ev th"
  have "\<exists>p u. runs H (\<lambda>ev. ?k ev (v = 0)) t p u \<and> ret_rel r p \<and> rep H P u (gs @ fst st', snd st')"
  proof (cases "v = 0")
    case True
    show ?thesis
    proof (cases el)
      case None
      with True assms(6) t show ?thesis by auto
    next
      case (Some c)
      with True assms(6) have "ex c st1 = Some (r, st')" by simp
      from simulatesE [OF assms(3) this t] obtain p u where
        "runs H (\<lambda>ev. run_stmt ev c) t p u" "ret_rel r p" "rep H P u (gs @ fst st', snd st')" .
      with True Some show ?thesis by (intro exI [of _ p] exI [of _ u]) simp
    qed
  next
    case False
    with assms(6) have "ex th st1 = Some (r, st')" by simp
    from simulatesE [OF assms(3) this t] obtain p u where
      "runs H (\<lambda>ev. run_stmt ev th) t p u" "ret_rel r p" "rep H P u (gs @ fst st', snd st')" .
    with False show ?thesis by (intro exI [of _ p] exI [of _ u]) simp
  qed
  then obtain p u where u: "runs H (\<lambda>ev. ?k ev (v = 0)) t p u" "ret_rel r p"
    "rep H P u (gs @ fst st', snd st')" by blast
  have "exec_if H ev e th el = bindM (bindM (rvalue ev e) (is_scalar_zero H)) (?k ev)" for ev
    by (simp add: exec_if_def bindM_assoc)
  then have "runs H (\<lambda>ev. exec_if H ev e th el) s p u"
    by (simp only:) (rule runs_bind [OF cond, where f = ?k], rule u(1))
  with u show ?thesis by blast
qed

text \<open>The search for a label does not change the state it starts in.\<close>

lemma sim_find:
  assumes "llvm_host H" and "call_sim H P call" and "ap_fits NUM_TYPE_INT x"
  shows "a_find (a_eval P call) (num_value NUM_TYPE_INT x) ss st = Some found \<Longrightarrow>
    rep H P s (gs @ fst st, snd st) \<Longrightarrow>
    \<exists>t. runs H (\<lambda>ev. find_case H ev (int_num x) ss) s found t \<and> rep H P t (gs @ fst st, snd st)"
proof (induction ss arbitrary: s)
  case Nil
  then show ?case by auto
next
  case (Cons c ss)
  show ?case
  proof (cases "\<exists>e sub. c = CaseStmt e sub")
    case True
    then obtain e sub where c: "c = CaseStmt e sub" by blast
    with Cons.prems(1) obtain w where e: "a_eval P call e st = Some (w, st)"
      and f: "(if w = num_value NUM_TYPE_INT x then Some (c # ss)
        else a_find (a_eval P call) (num_value NUM_TYPE_INT x) ss st) = Some found"
      by (auto split: option.splits if_splits)
    from runs_expr [OF assms(1,2) e Cons.prems(2)] obtain y t where
      r: "runs H (\<lambda>ev. rvalue ev e) s (int_num y) t" and y: "ap_fits NUM_TYPE_INT y" "num_value NUM_TYPE_INT y = w"
      and t: "rep H P t (gs @ fst st, snd st)" by blast
    have eq: "num_equals H (int_num x) (int_num y) = Inr (w = num_value NUM_TYPE_INT x)"
      using host_compare(4) [OF assms(1,3) y(1)] y(2) by (auto simp: num_equals_def res_bind_def)
    show ?thesis
    proof (cases "w = num_value NUM_TYPE_INT x")
      case True
      have "runs H (\<lambda>ev. find_case H ev (int_num x) (c # ss)) s (c # ss) t"
        by (rule runs_mono [OF r]) (simp add: c run_simps eq True)
      with f True t show ?thesis by auto
    next
      case False
      with f Cons.IH [OF _ t] obtain u where
        u: "runs H (\<lambda>ev. find_case H ev (int_num x) ss) t found u" "rep H P u (gs @ fst st, snd st)" by auto
      have "runs H (\<lambda>ev. find_case H ev (int_num x) (c # ss)) s found u"
        by (rule runs_mono2 [OF r u(1)]) (simp add: c run_simps eq False)
      with u(2) show ?thesis by blast
    qed
  next
    case False
    then have "a_find (a_eval P call) (num_value NUM_TYPE_INT x) ss st = Some found"
      using Cons.prems(1) by (cases c) auto
    from Cons.IH [OF this Cons.prems(2)] obtain t where
      t: "runs H (\<lambda>ev. find_case H ev (int_num x) ss) s found t" "rep H P t (gs @ fst st, snd st)" by blast
    have "find_case H ev (int_num x) (c # ss) = find_case H ev (int_num x) ss" for ev
      using False by (cases c) auto
    with t show ?thesis by (intro exI [of _ t]) simp
  qed
qed

lemma default_label: "is_default_label = is_default"
proof
  show "is_default_label c = is_default c" for c by (cases c) simp_all
qed

lemma sim_switch:
  assumes "llvm_host H" and "call_sim H P call" and "\<And>c. simulates H P (\<lambda>ev. run_stmt ev c) (ex c)"
  shows "simulates H P (\<lambda>ev. exec_switch H ev e b) (a_frame (a_switch ex (a_eval P call) e b))"
proof -
  let ?from = "\<lambda>ss found. if found = [] then dropWhile (\<lambda>s. \<not> is_default s) ss else found"
  let ?m = "\<lambda>ev. switch_body H ev e b"
  have "simulates H P ?m (a_switch ex (a_eval P call) e b)"
  proof (rule simulatesI)
    fix s gs st r st' assume a: "a_switch ex (a_eval P call) e b st = Some (r, st')"
      and rp: "rep H P s (gs @ fst st, snd st)"
    then obtain ss v st1 found r2 where b: "b = CompoundStmt ss" and v: "a_eval P call e st = Some (v, st1)"
      and fd: "a_find (a_eval P call) v ss st1 = Some found"
      and f: "a_stmts ex (?from ss found) st1 = Some (r2, st')" and r: "r = (if r2 = Brk then Norm else r2)"
      by (auto simp: a_switch_def default_label split: stmt.splits option.splits if_splits)
    from runs_expr [OF assms(1,2) v rp] obtain x t where x: "runs H (\<lambda>ev. rvalue ev e) s (int_num x) t"
      "ap_fits NUM_TYPE_INT x" "num_value NUM_TYPE_INT x = v" "rep H P t (gs @ fst st1, snd st1)" by blast
    from sim_find [OF assms(1,2) x(2) _ x(4)] fd x(3) obtain u where
      u: "runs H (\<lambda>ev. find_case H ev (int_num x) ss) t found u" "rep H P u (gs @ fst st1, snd st1)" by blast
    from simulatesE [OF sim_stmts [OF assms(3)] f u(2)] obtain q w where
      w: "runs H (\<lambda>ev. exec_stmts ev (?from ss found)) u q w" "ret_rel r2 q" "rep H P w (gs @ fst st', snd st')" .
    let ?q = "if q = BreakPtr then NullVal else q"
    have "runs H (\<lambda>ev. bindM (find_case H ev (int_num x) ss) (\<lambda>found.
          bindM (exec_stmts ev (?from ss found)) (\<lambda>r. ret (if r = BreakPtr then NullVal else r)))) t ?q w"
      by (rule runs_bind [OF u(1)], rule runs_bind [OF w(1)]) simp
    from x(1) this have "runs H ?m s ?q w"
      by (rule runs_mono2) (simp add: switch_body_def b run_bind Let_def)
    moreover have "ret_rel r ?q" using w(2) by (cases r2) (auto simp: r ret_rel_def)
    ultimately show "\<exists>p t. runs H ?m s p t \<and> ret_rel r p \<and> rep H P t (gs @ fst st', snd st')"
      using w(3) by blast
  qed
  from sim_frame [OF this stack_emu.pres_switch_body [OF stack_emu.interp_preserves]]
  show ?thesis by (simp add: exec_switch_def)
qed

lemma sim_stmt:
  assumes "llvm_host H"
  shows "simulates H P (\<lambda>ev. run_stmt ev c) (a_exec P n c)"
proof (induction n arbitrary: c)
  case 0
  show ?case by (rule simulatesI) simp
next
  case (Suc n)
  note call = sim_bodies [OF Suc]
  show ?case
  proof (rule simulatesI)
    fix s gs st r st' assume a: "a_exec P (Suc n) c st = Some (r, st')" and rp: "rep H P s (gs @ fst st, snd st)"
    have "\<exists>p t. runs H (\<lambda>ev. exec_stmt H ev c) s p t \<and> ret_rel r p \<and> rep H P t (gs @ fst st', snd st')"
    proof (cases c)
      case (CompoundStmt ss)
      have "simulates H P (\<lambda>ev. in_frame (exec_stmts ev ss)) (a_frame (a_stmts (a_exec P n) ss))"
        by (rule sim_frame [OF sim_stmts [OF Suc]])
          (rule stack_emu.pres_exec_stmts [OF stack_emu.interp_preserves])
      from simulatesE [OF this _ rp] a CompoundStmt show ?thesis
        by (simp add: exec_stmt_def) blast
    next
      case (DeclStmt ds)
      with a have "a_decls P (a_call (a_exec P n)) ds st = Some st'" and r: "r = Norm"
        by (auto split: option.splits)
      from sim_decls [OF assms call this(1) rp] obtain t where
        t: "runs H (\<lambda>ev. forM ds (exec_decl H ev)) s () t" "rep H P t (gs @ fst st', snd st')" by blast
      have "runs H (\<lambda>ev. exec_stmt H ev c) s NullVal t"
        unfolding exec_stmt_def DeclStmt stmt.case by (rule runs_seq [OF t(1)]) simp
      with t(2) r show ?thesis by auto
    next
      case (ExprStmt e)
      with a obtain v where v: "a_eval P (a_call (a_exec P n)) e st = Some (v, st')" and r: "r = Norm"
        by (auto split: option.splits)
      from runs_expr [OF assms call v rp] obtain x t where
        t: "runs H (\<lambda>ev. rexpr ev e) s (Val (int_num x)) t" "rep H P t (gs @ fst st', snd st')" by blast
      have "runs H (\<lambda>ev. exec_stmt H ev c) s NullVal t"
        unfolding exec_stmt_def ExprStmt stmt.case by (rule runs_seq [OF t(1)]) simp
      with t(2) r show ?thesis by auto
    next
      case (ReturnStmt ro)
      with a obtain e v where e: "ro = Some e" and v: "a_eval P (a_call (a_exec P n)) e st = Some (v, st')"
        and r: "r = Ret v" by (auto split: option.splits)
      from runs_expr [OF assms call v rp] obtain x t where
        t: "runs H (\<lambda>ev. rexpr ev e) s (Val (int_num x)) t" "ap_fits NUM_TYPE_INT x"
          "num_value NUM_TYPE_INT x = v" "rep H P t (gs @ fst st', snd st')" by blast
      have "runs H (\<lambda>ev. exec_stmt H ev c) s (Val (int_num x)) t"
        unfolding exec_stmt_def ReturnStmt stmt.case e option.case by (rule t(1))
      with t r show ?thesis by (auto simp: ret_rel_def)
    next
      case (IfStmt e th el)
      with a obtain v st1 where v: "a_eval P (a_call (a_exec P n)) e st = Some (v, st1)"
        and i: "(if v \<noteq> 0 then a_exec P n th st1
          else (case el of None \<Rightarrow> Some (Norm, st1) | Some s \<Rightarrow> a_exec P n s st1)) = Some (r, st')"
        by (auto split: option.splits)
      from sim_if [OF assms call Suc v rp i] show ?thesis by (simp add: exec_stmt_def IfStmt)
    next
      case (ForStmt i e k b)
      with a obtain i' e' k' where j: "i = Some i'" "e = Some e'" "k = Some k'"
        and f: "a_frame (a_for (a_exec P n) (a_eval P (a_call (a_exec P n))) n i' e' k' b) st = Some (r, st')"
        by (auto split: option.splits)
      from simulatesE [OF sim_for [OF assms call Suc] f rp] show ?thesis
        by (simp add: exec_stmt_def ForStmt j) blast
    next
      case NullStmt
      with a rp show ?thesis by (auto simp: exec_stmt_def)
    next
      case (SwitchStmt e b)
      with a have "a_frame (a_switch (a_exec P n) (a_eval P (a_call (a_exec P n))) e b) st = Some (r, st')"
        by simp
      from simulatesE [OF sim_switch [OF assms call Suc] this rp] show ?thesis
        by (simp add: exec_stmt_def SwitchStmt) blast
    next
      case (CaseStmt e c')
      with a have "a_exec P n c' st = Some (r, st')" by simp
      from simulatesE [OF Suc this rp] show ?thesis by (simp add: exec_stmt_def CaseStmt) blast
    next
      case (DefaultStmt c')
      with a have "a_exec P n c' st = Some (r, st')" by simp
      from simulatesE [OF Suc this rp] show ?thesis by (simp add: exec_stmt_def DefaultStmt) blast
    next
      case BreakStmt
      with a rp show ?thesis by (auto simp: exec_stmt_def)
    next
      case (UnsupportedStmt nm)
      with a show ?thesis by simp
    qed
    then show "\<exists>p t. runs H (\<lambda>ev. run_stmt ev c) s p t \<and> ret_rel r p \<and> rep H P t (gs @ fst st', snd st')"
      using runs_stmt by blast
  qed
qed

end
