(* ===== verification/LoadProps.thy ===== *)
theory LoadProps
  imports IntRel
begin

text \<open>
  Loading a source file of functions and \<open>int\<close> variables: after all definitions of functions are
  stored, and after the pass over all declarations, every function is found under its name and
  its id, and every variable under its name, in a block of the memory (\<open>file_table\<close>). A
  declaration of a function has its definition in the same file.
\<close>

section \<open>The table of functions\<close>

definition fun_entry :: "emu_state \<Rightarrow> function_decl \<Rightarrow> bool" where
  "fun_entry s f \<longleftrightarrow> (\<exists>i fid. local_vars s 0 (fd_name f) = Some (lvalue_of (BlkPtr i) (fd_type f) 0) \<and>
     func_block s i fid (fd_type f) \<and> \<not> fid < NUM_EXTERNAL_FUNCTIONS \<and>
     global_functions s fid = Some (0, f))"

definition var_entry :: "emu_state \<Rightarrow> string \<Rightarrow> bool" where
  "var_entry s nm \<longleftrightarrow> (\<exists>i d. local_vars s 0 nm = Some (lvalue_of (BlkPtr i) IntType 0) \<and> raw_cell s i d)"

definition file_table :: "emu_state \<Rightarrow> function_decl list \<Rightarrow> string list \<Rightarrow> bool" where
  "file_table s ds vs \<longleftrightarrow> mem_inv s \<and> next_id s = 3 + length ds + length vs \<and>
     unat (fid_counter s) = 3 + length ds \<and>
     stack_vars s = [] \<and> stack_var_map s = (\<lambda>_. None) \<and> curr_source s = 0 \<and>
     (\<forall>nm. nm \<notin> fd_name ` set ds \<union> set vs \<longrightarrow> local_vars s 0 nm = None) \<and> locals_apart s 0 \<and>
     (\<forall>fid. unat (fid_counter s) \<le> unat fid \<longrightarrow> global_functions s fid = None) \<and>
     (\<forall>f \<in> set ds. fun_entry s f \<and> isFunctionType (fd_type f) \<and>
       (fd_external_linkage f \<and> fd_name f = ''main'' \<longrightarrow> main_source s = Some 0)) \<and>
     (\<forall>nm \<in> set vs. var_entry s nm)"

lemma file_table_init: "file_table init_state [] []"
  using mem_inv_init
  by (simp add: file_table_def init_state_def next_id_def block_id_defs NUM_EXTERNAL_FUNCTIONS_def locals_apart_def)

text \<open>A name of the table has a live block.\<close>

lemma file_table_live:
  assumes "file_table s ds vs" and "local_vars s 0 nm = Some l"
  shows "\<exists>i. lblock l = BlkPtr i \<and> active_mem s i \<noteq> None"
proof -
  have "nm \<in> fd_name ` set ds \<union> set vs" using assms by (auto simp: file_table_def)
  then show ?thesis
  proof
    assume "nm \<in> fd_name ` set ds"
    then obtain f where "f \<in> set ds" "nm = fd_name f" by blast
    with assms show ?thesis by (fastforce simp: file_table_def fun_entry_def func_block_def lvalue_of_def)
  next
    assume "nm \<in> set vs"
    with assms have "var_entry s nm" by (simp add: file_table_def)
    with assms(2) show ?thesis by (auto simp: var_entry_def raw_cell_def lvalue_of_def)
  qed
qed

lemma locals_apart_insert:
  assumes "locals_apart s src" and "local_vars t src = map_insert (local_vars s src) nm l"
    and "\<And>nm' l'. local_vars s src nm' = Some l' \<Longrightarrow> lblock l' \<noteq> lblock l"
  shows "locals_apart t src"
proof (cases "local_vars s src nm")
  case None
  then have "local_vars t src = (local_vars s src)(nm := Some l)" using assms(2) by (simp add: map_insert_def)
  with assms(1) assms(3) [symmetric] assms(3) show ?thesis unfolding locals_apart_def by (auto split: if_splits)
next
  case (Some l')
  with assms(1,2) show ?thesis by (simp add: locals_apart_def map_insert_def)
qed

lemma file_table_fresh:
  assumes "file_table s ds vs" and "id_counter s \<noteq> 0"
  shows "active_mem s (id_counter s) = None"
    and "local_vars s 0 nm = Some l \<Longrightarrow> lblock l \<noteq> BlkPtr (id_counter s)"
proof -
  have mi: "mem_inv s" using assms(1) by (simp add: file_table_def)
  show none: "active_mem s (id_counter s) = None"
    using mem_invD(3) [OF mi] assms(2) by (cases "active_mem s (id_counter s)") (force simp: next_id_def)+
  show "local_vars s 0 nm = Some l \<Longrightarrow> lblock l \<noteq> BlkPtr (id_counter s)"
    using file_table_live [OF assms(1)] none by fastforce
qed

lemma mem_inv_put:
  assumes "mem_inv s" and "active_mem s i = Some c" and "bid b = i" and "block_ok b"
  shows "mem_inv (s\<lparr>active_mem := (active_mem s)(i := Some b)\<rparr>)"
proof -
  have "next_id (s\<lparr>active_mem := (active_mem s)(i := Some b)\<rparr>) = next_id s" by (simp add: next_id_def)
  then show ?thesis using assms mem_invD [OF assms(1)] unfolding mem_inv_def by auto
qed

section \<open>Storing the definitions\<close>

lemma mem_inv_func:
  assumes "mem_inv s" and "id_counter s \<noteq> 0" and "func_block t (id_counter s) fid q"
    and "t = s\<lparr>id_counter := id_counter s + 1, active_mem := (active_mem s)(id_counter s := Some b)\<rparr>"
  shows "mem_inv t"
proof -
  have n: "next_id t = Suc (unat (id_counter s))" "next_id s = unat (id_counter s)"
    using next_id_new [OF assms(2)] assms(2) by (simp_all add: assms(4)) (simp add: next_id_def)
  have "bid b = id_counter s" "block_ok b"
    using assms(3) by (auto simp: func_block_def block_ok_def assms(4))
  then show ?thesis using assms(1) n mem_invD [OF assms(1)]
    by (fastforce simp: mem_inv_def assms(4))
qed

lemma store_entry:
  assumes "file_table s ds []" and "fd_is_definition f" and "isFunctionType (fd_type f)"
    and "fd_name f \<notin> fd_name ` set ds" and "4 + length ds < 2 ^ 32"
  shows "\<exists>t. StoreFuncImpl H f 0 s = Inr ((), t) \<and> file_table t (ds @ [f]) []"
proof -
  from assms(1) have mi: "mem_inv s" and n: "next_id s = 3 + length ds" and u: "unat (fid_counter s) = 3 + length ds"
    and old: "\<And>g. g \<in> set ds \<Longrightarrow> fun_entry s g"
    and fresh: "\<And>fid. unat (fid_counter s) \<le> unat fid \<Longrightarrow> global_functions s fid = None"
    by (auto simp: file_table_def)
  have nz: "id_counter s \<noteq> 0" "fid_counter s \<noteq> 0" using n u assms(5) by (auto simp: next_id_def)
  have lv: "local_vars s 0 (fd_name f) = None" using assms(1,4) by (auto simp: file_table_def)
  obtain b where r: "StoreFuncImpl H f 0 s = Inr ((), stored f 0 b s)"
    and fb: "func_block (stored f 0 b s) (id_counter s) (fid_counter s) (fd_type f)"
    by (rule StoreFuncImpl_run [OF lv assms(2,3) nz(2,1)])
  let ?t = "stored f 0 b s"
  let ?u = "s\<lparr>id_counter := id_counter s + 1, active_mem := (active_mem s)(id_counter s := Some b)\<rparr>"
  note none = file_table_fresh(1) [OF assms(1) nz(1)]
  note t = stored_fields [of f 0 b s]
  have "mem_inv ?u"
    by (rule mem_inv_func [OF mi nz(1) _ refl, where fid = "fid_counter s" and q = "fd_type f"])
      (use fb in \<open>simp add: func_block_def t\<close>)
  then have "mem_inv ?t" using mem_ext_cong [of ?t ?u] by (simp add: mem_ext_def t)
  moreover have "next_id ?t = Suc (unat (id_counter s))"
    using next_id_new [OF nz(1), of "active_mem s"] by (auto simp: next_id_def t split: if_splits)
  then have "next_id ?t = 3 + length (ds @ [f]) + length ([] :: string list)" using n nz(1) by (simp add: next_id_def)
  moreover have f1: "unat (fid_counter s + 1) = Suc (unat (fid_counter s))"
    using u assms(5) by (simp add: unat_word_ariths)
  then have "unat (fid_counter ?t) = 3 + length (ds @ [f])" using u by (simp add: t)
  moreover have "locals_apart ?t 0"
  proof (rule locals_apart_insert [of s])
    show "local_vars ?t 0 = map_insert (local_vars s 0) (fd_name f) (lvalue_of (BlkPtr (id_counter s)) (fd_type f) 0)"
      by (simp add: t)
    show "lblock l' \<noteq> lblock (lvalue_of (BlkPtr (id_counter s)) (fd_type f) 0)"
      if "local_vars s 0 nm' = Some l'" for nm' l'
      using file_table_fresh(2) [OF assms(1) nz(1) that] by (simp add: lvalue_of_def)
  qed (use assms(1) in \<open>simp add: file_table_def\<close>)
  moreover have "\<forall>nm. nm \<notin> fd_name ` set (ds @ [f]) \<union> set [] \<longrightarrow> local_vars ?t 0 nm = None"
    using assms(1) lv by (simp add: file_table_def t map_insert_def)
  moreover have gn: "global_functions s (fid_counter s) = None" by (rule fresh) simp
  have "global_functions ?t fid = None" if "unat (fid_counter ?t) \<le> unat fid" for fid
  proof -
    have "unat fid \<noteq> unat (fid_counter s)" "unat (fid_counter s) \<le> unat fid" using that f1 by (simp_all add: t)
    then show ?thesis using fresh [of fid] gn by (auto simp: t map_insert_def)
  qed
  moreover have "fun_entry ?t g" if "g \<in> set ds" for g
  proof -
    from old [OF that] obtain i fid where
      g: "local_vars s 0 (fd_name g) = Some (lvalue_of (BlkPtr i) (fd_type g) 0)"
       "func_block s i fid (fd_type g)" "\<not> fid < NUM_EXTERNAL_FUNCTIONS" "global_functions s fid = Some (0, g)"
      by (auto simp: fun_entry_def)
    have "i \<noteq> id_counter s" using g(2) none by (auto simp: func_block_def)
    then have "func_block ?t i fid (fd_type g)"
      using g(2) func_block_cong [of ?t i s] by (simp add: t)
    moreover have "fd_name g \<noteq> fd_name f" using assms(4) that by (auto simp: image_iff)
    moreover have "fid \<noteq> fid_counter s" using g(4) gn by auto
    ultimately show ?thesis using g lv gn
      unfolding fun_entry_def t map_insert_def by (intro exI [of _ i] exI [of _ fid]) simp
  qed
  moreover have "\<not> fid_counter s < NUM_EXTERNAL_FUNCTIONS"
    using u by (simp add: word_less_nat_alt NUM_EXTERNAL_FUNCTIONS_def)
  then have "fun_entry ?t f"
    using fb lv gn unfolding fun_entry_def t map_insert_def
    by (intro exI [of _ "id_counter s"] exI [of _ "fid_counter s"]) simp
  moreover have "stack_vars ?t = []" "stack_var_map ?t = (\<lambda>_. None)" "curr_source ?t = 0"
    using assms(1) by (simp_all add: file_table_def t)
  moreover have "isFunctionType (fd_type g) \<and>
      (fd_external_linkage g \<and> fd_name g = ''main'' \<longrightarrow> main_source ?t = Some 0)" if "g \<in> set (ds @ [f])" for g
    using that assms(1,3) by (auto simp: file_table_def t)
  ultimately have "file_table ?t (ds @ [f]) []" unfolding file_table_def by (simp add: ball_Un)
  with r show ?thesis by blast
qed

text \<open>All declarations of a file: only the definitions of functions are stored.\<close>

lemma file_funs_simps [simp]:
  "file_funs [] = []" "file_funs (TopFunction f # fs) = f # file_funs fs"
  "file_funs (TopVar v # fs) = file_funs fs" "file_funs (TopOtherValue x # fs) = file_funs fs"
  "file_funs (TopOther x # fs) = file_funs fs"
  by (simp_all add: file_funs_def)

lemma file_vars_simps [simp]:
  "file_vars [] = []" "file_vars (TopFunction f # fs) = file_vars fs"
  "file_vars (TopVar v # fs) = (if vd_extern_storage v then file_vars fs else v # file_vars fs)"
  "file_vars (TopOtherValue x # fs) = file_vars fs" "file_vars (TopOther x # fs) = file_vars fs"
  by (simp_all add: file_vars_def)

lemma store_file:
  "file_table s ds [] \<Longrightarrow> distinct (map fd_name (ds @ filter fd_is_definition (file_funs fs))) \<Longrightarrow>
   \<forall>f \<in> set (file_funs fs). isFunctionType (fd_type f) \<Longrightarrow>
   3 + length (ds @ filter fd_is_definition (file_funs fs)) < 2 ^ 32 \<Longrightarrow>
   \<exists>t. StoreFuncImpls H 0 fs s = Inr ((), t) \<and>
     file_table t (ds @ filter fd_is_definition (file_funs fs)) []"
proof (induction fs arbitrary: s ds)
  case Nil
  then show ?case by (simp add: run_simps)
next
  case (Cons d fs)
  show ?case
  proof (cases "\<exists>f. d = TopFunction f \<and> fd_is_definition f")
    case True
    then obtain f where f: "d = TopFunction f" "fd_is_definition f" by blast
    have "\<exists>t. StoreFuncImpl H f 0 s = Inr ((), t) \<and> file_table t (ds @ [f]) []"
      by (rule store_entry [OF Cons.prems(1) f(2)]) (use Cons.prems f in auto)
    then obtain t where t: "StoreFuncImpl H f 0 s = Inr ((), t)" "file_table t (ds @ [f]) []" by blast
    from Cons.IH [OF t(2)] Cons.prems f obtain u where
      "StoreFuncImpls H 0 fs t = Inr ((), u)" "file_table u (ds @ filter fd_is_definition (file_funs (d # fs))) []"
      by auto
    with t(1) f(1) show ?thesis by (auto simp: run_simps)
  next
    case False
    then have k: "filter fd_is_definition (file_funs (d # fs)) = filter fd_is_definition (file_funs fs)"
      and r: "(case d of TopFunction f \<Rightarrow> StoreFuncImpl H f 0 | _ \<Rightarrow> ret ()) s = Inr ((), s)"
      and e: "set (file_funs fs) \<subseteq> set (file_funs (d # fs))"
      by (cases d; auto simp: StoreFuncImpl_def run_simps)+
    from Cons.IH [OF Cons.prems(1)] Cons.prems(2-4) e obtain u where
      "StoreFuncImpls H 0 fs s = Inr ((), u)" "file_table u (ds @ filter fd_is_definition (file_funs fs)) []"
      unfolding k by blast
    with r show ?thesis unfolding k by (auto simp: run_simps)
  qed
qed

section \<open>The pass over the declarations\<close>

lemma file_table_memory:
  assumes "file_table s ds vs" and "t = s\<lparr>active_mem := (active_mem s)(i := b)\<rparr>" and "mem_inv t"
    and "\<And>j fid q. func_block s j fid q \<Longrightarrow> func_block t j fid q"
    and "local_vars s 0 nm = Some (lvalue_of (BlkPtr i) q 0)" and "q \<noteq> IntType"
  shows "file_table t ds vs"
proof -
  have "fun_entry t f" if "fun_entry s f" for f
    using that assms(4) by (auto simp: fun_entry_def assms(2)) (metis assms(2))
  moreover have "var_entry t x" if "var_entry s x" for x
  proof -
    from that obtain j d where j: "local_vars s 0 x = Some (lvalue_of (BlkPtr j) IntType 0)" "raw_cell s j d"
      by (auto simp: var_entry_def)
    have "j \<noteq> i"
    proof
      assume "j = i"
      then have "x = nm" using assms(1,5) j(1) by (auto simp: file_table_def locals_apart_def lvalue_of_def)
      with assms(5,6) j(1) show False by (simp add: lvalue_of_def)
    qed
    then have "raw_cell t j d" using j(2) raw_cell_cong [of t j s] by (simp add: assms(2))
    with j(1) show ?thesis by (auto simp: var_entry_def assms(2))
  qed
  ultimately show ?thesis using assms(1,3) by (auto simp: file_table_def assms(2) next_id_def locals_apart_def)
qed

text \<open>Each declaration has a definition of the same name and type.\<close>

definition all_defined :: "function_decl list \<Rightarrow> function_decl list \<Rightarrow> bool" where
  "all_defined ds fs \<longleftrightarrow> (\<forall>f \<in> set fs. \<exists>d \<in> set ds. fd_name d = fd_name f \<and> fd_type d = fd_type f)"

lemma setup_function_table:
  assumes "file_table s ds vs" and "d \<in> set ds" and "fd_name d = fd_name f" and "fd_type d = fd_type f"
  shows "\<exists>t. setup_function H f 0 s = Inr ((), t) \<and> file_table t ds vs"
proof -
  from assms have "fun_entry s d" and c: "curr_source s = 0" and mi: "mem_inv s"
    and ft: "isFunctionType (fd_type f)" by (auto simp: file_table_def)
  then obtain i fid where e: "local_vars s 0 (fd_name f) = Some (lvalue_of (BlkPtr i) (fd_type f) 0)"
    "func_block s i fid (fd_type f)" "global_functions s fid = Some (0, d)"
    using assms(3,4) by (auto simp: fun_entry_def)
  obtain b where b: "setup_function H f 0 s = Inr ((), s\<lparr>active_mem := (active_mem s)(i := Some b)\<rparr>)"
    and fb: "\<And>j fid q. func_block s j fid q \<Longrightarrow>
      func_block (s\<lparr>active_mem := (active_mem s)(i := Some b)\<rparr>) j fid q"
    by (rule setup_function_run [of s f i "fd_type f" fid H 0]) (use e c in auto)
  let ?t = "s\<lparr>active_mem := (active_mem s)(i := Some b)\<rparr>"
  have "bid b = i" "block_ok b" using fb [OF e(2)] by (auto simp: func_block_def block_ok_def)
  moreover obtain c where "active_mem s i = Some c" using e(2) by (auto simp: func_block_def)
  ultimately have "mem_inv ?t" using mem_inv_put [OF mi] by blast
  moreover have "fd_type f \<noteq> IntType" using ft by auto
  ultimately have "file_table ?t ds vs" using file_table_memory [OF assms(1) refl _ fb e(1)] by blast
  with b show ?thesis by blast
qed

lemma setup_var_table:
  assumes "file_table s ds vs" and "\<not> vd_extern_storage v" and "vd_type v = IntType"
    and "vd_name v \<notin> fd_name ` set ds \<union> set vs" and "3 + length ds + length vs < 2 ^ 32"
  shows "\<exists>t. setup_var H v 0 s = Inr ((), t) \<and> file_table t ds (vs @ [vd_name v])"
proof -
  let ?i = "id_counter s"
  have mi: "mem_inv s" and n: "next_id s = 3 + length ds + length vs"
    and lv: "local_vars s 0 (vd_name v) = None" using assms(1,4) by (auto simp: file_table_def)
  have nz: "?i \<noteq> 0" using n assms(5) by (auto simp: next_id_def)
  let ?b = "fresh_block H ?i MEM_TYPE_GLOBAL 8"
  let ?u = "s\<lparr>id_counter := ?i + 1, active_mem := (active_mem s)(?i := Some ?b)\<rparr>"
  let ?l = "lvalue_of (BlkPtr ?i) IntType 0"
  let ?t = "?u\<lparr>local_vars := (local_vars s)(0 := (local_vars s 0)(vd_name v := Some ?l)),
    global_vars := (if vd_external_linkage v then map_insert (global_vars s) (vd_name v) 0 else global_vars s)\<rparr>"
  have b: "block_of_size H MEM_TYPE_GLOBAL 8 s = Inr (BlkPtr ?i, ?u)"
    using nz by (simp add: block_of_size_run PTRDIFF_MAX_def)
  have ins: "map_insert (local_vars s 0) (vd_name v) ?l = (local_vars s 0)(vd_name v := Some ?l)"
    by (simp add: map_insert_def lv)
  have r: "setup_var H v 0 s = Inr ((), ?t)"
    using assms(2,3) b
    by (simp add: setup_var_def run_simps add_local_def add_global_def ins bytes_in_num_type_def)
  note fresh = file_table_fresh [OF assms(1) nz]
  have mu: "mem_inv ?u" using preservesD [OF mx_block_of_size b] mi by (simp add: mem_ext_def)
  obtain d where rc: "raw_cell ?u ?i d" using raw_cell_new [OF nz, of MEM_TYPE_GLOBAL H] by auto
  have old: "active_mem ?t j = active_mem s j" if "active_mem s j \<noteq> None" for j
    using that fresh(1) by auto
  have "mem_inv ?t" using mu mem_ext_cong [of ?t ?u] by (simp add: mem_ext_def)
  moreover have "next_id ?t = 3 + length ds + length (vs @ [vd_name v])"
    using next_id_new [OF nz, of "active_mem s"] n nz by (auto simp: next_id_def split: if_splits)
  moreover have "\<forall>nm. nm \<notin> fd_name ` set ds \<union> set (vs @ [vd_name v]) \<longrightarrow> local_vars ?t 0 nm = None"
    using assms(1) by (simp add: file_table_def)
  moreover have "locals_apart ?t 0"
  proof (rule locals_apart_insert [of s])
    show "local_vars ?t 0 = map_insert (local_vars s 0) (vd_name v) ?l" by (simp add: ins)
    show "lblock l' \<noteq> lblock ?l" if "local_vars s 0 nm' = Some l'" for nm' l'
      using fresh(2) [OF that] by (simp add: lvalue_of_def)
  qed (use assms(1) in \<open>simp add: file_table_def\<close>)
  moreover have "fun_entry ?t f \<and> isFunctionType (fd_type f) \<and>
      (fd_external_linkage f \<and> fd_name f = ''main'' \<longrightarrow> main_source ?t = Some 0)" if "f \<in> set ds" for f
  proof -
    from that assms(1) have f: "fun_entry s f" "isFunctionType (fd_type f)"
      "fd_external_linkage f \<and> fd_name f = ''main'' \<longrightarrow> main_source s = Some 0" by (auto simp: file_table_def)
    from f(1) obtain i fid where e: "local_vars s 0 (fd_name f) = Some (lvalue_of (BlkPtr i) (fd_type f) 0)"
      "func_block s i fid (fd_type f)" "\<not> fid < NUM_EXTERNAL_FUNCTIONS" "global_functions s fid = Some (0, f)"
      by (auto simp: fun_entry_def)
    have "active_mem s i \<noteq> None" using e(2) by (auto simp: func_block_def)
    from func_block_cong [OF old [OF this]] e lv have "fun_entry ?t f"
      unfolding fun_entry_def by (intro exI [of _ i] exI [of _ fid]) auto
    with f(2,3) show ?thesis by simp
  qed
  moreover have "var_entry ?t nm" if "nm \<in> set (vs @ [vd_name v])" for nm
  proof (cases "nm = vd_name v")
    case True
    have "raw_cell ?t ?i d" using rc raw_cell_cong [of ?t ?i ?u] by simp
    with True show ?thesis unfolding var_entry_def by (intro exI [of _ ?i] exI [of _ d]) simp
  next
    case False
    with that assms(1) have "var_entry s nm" by (simp add: file_table_def)
    then obtain j e where j: "local_vars s 0 nm = Some (lvalue_of (BlkPtr j) IntType 0)" "raw_cell s j e"
      by (auto simp: var_entry_def)
    have "active_mem s j \<noteq> None" using j(2) by (auto simp: raw_cell_def)
    from raw_cell_cong [OF old [OF this]] j False show ?thesis
      unfolding var_entry_def by (intro exI [of _ j] exI [of _ e]) simp
  qed
  ultimately have "file_table ?t ds (vs @ [vd_name v])" using assms(1) unfolding file_table_def by simp
  with r show ?thesis by blast
qed

lemma setup_file:
  "file_table s ds vs \<Longrightarrow> all_defined ds (file_funs fs) \<Longrightarrow>
   \<forall>v \<in> set (file_vars fs). vd_type v = IntType \<Longrightarrow>
   distinct (map fd_name ds @ vs @ map vd_name (file_vars fs)) \<Longrightarrow>
   3 + length ds + length vs + length (file_vars fs) \<le> 2 ^ 32 \<Longrightarrow>
   \<exists>t. forM fs (\<lambda>d. SetupVar H d 0) s = Inr ((), t) \<and>
     file_table t ds (vs @ map vd_name (file_vars fs))"
proof (induction fs arbitrary: s vs)
  case (Cons d fs)
  show ?case
  proof (cases d)
    case (TopFunction f)
    from Cons.prems(2) TopFunction obtain e where e: "e \<in> set ds" "fd_name e = fd_name f" "fd_type e = fd_type f"
      by (auto simp: all_defined_def)
    from setup_function_table [OF Cons.prems(1) this, of H] obtain t where
      t: "setup_function H f 0 s = Inr ((), t)" "file_table t ds vs" by blast
    from Cons.IH [OF t(2)] Cons.prems(2-5) TopFunction t(1) show ?thesis
      by (auto simp: run_simps SetupVar_def all_defined_def)
  next
    case (TopVar v)
    show ?thesis
    proof (cases "vd_extern_storage v")
      case True
      with Cons.IH [OF Cons.prems(1)] Cons.prems(2-5) TopVar show ?thesis
        by (auto simp: run_simps SetupVar_def setup_var_def)
    next
      case False
      have "\<exists>t. setup_var H v 0 s = Inr ((), t) \<and> file_table t ds (vs @ [vd_name v])"
        by (rule setup_var_table [OF Cons.prems(1) False]) (use Cons.prems(3-5) TopVar False in auto)
      then obtain t where t: "setup_var H v 0 s = Inr ((), t)" "file_table t ds (vs @ [vd_name v])" by blast
      from Cons.IH [OF t(2)] Cons.prems(2-5) TopVar False t(1) show ?thesis
        by (auto simp: run_simps SetupVar_def)
    qed
  qed (use Cons.IH [OF Cons.prems(1)] Cons.prems(2-5) in \<open>auto simp: run_simps SetupVar_def\<close>)
qed (auto simp: run_simps)

lemma file_table_flag: "file_table (s\<lparr>static_init := x\<rparr>) ds vs \<longleftrightarrow> file_table s ds vs"
  by (simp add: file_table_def fun_entry_def func_block_def mem_inv_def next_id_def locals_apart_def
      var_entry_def raw_cell_def)

text \<open>Startup, up to the initialization of the variables.\<close>

lemma startup_file:
  assumes "distinct (map fd_name (filter fd_is_definition (file_funs fs)) @ map vd_name (file_vars fs))"
    and "\<forall>f \<in> set (file_funs fs). isFunctionType (fd_type f)"
    and "\<forall>v \<in> set (file_vars fs). vd_type v = IntType"
    and "all_defined (filter fd_is_definition (file_funs fs)) (file_funs fs)"
    and "4 + length (filter fd_is_definition (file_funs fs)) + length (file_vars fs) \<le> 2 ^ 32"
    and "\<exists>f \<in> set (file_funs fs). fd_is_definition f \<and> fd_external_linkage f \<and> fd_name f = ''main''"
  obtains t where "\<And>ev. cinterp_main H ev [fs] init_state = seqM (forM fs (init_decl H ev 0))
      (seqM (modifyM (\<lambda>s. s\<lparr>static_init := False\<rparr>)) (RunProgram H ev)) t"
    and "file_table t (filter fd_is_definition (file_funs fs)) (map vd_name (file_vars fs))"
    and "main_source t = Some 0"
proof -
  let ?ds = "filter fd_is_definition (file_funs fs)"
  have "3 + length ([] @ ?ds) < 2 ^ 32" "distinct (map fd_name ([] @ ?ds))" using assms(1,5) by simp_all
  from store_file [OF file_table_init this(2) assms(2) this(1), of H] obtain s where
    s: "StoreFuncImpls H 0 fs init_state = Inr ((), s)" "file_table s ?ds []" by auto
  have m: "main_source s = Some 0" using s(2) assms(6) by (auto simp: file_table_def)
  let ?s = "s\<lparr>static_init := True\<rparr>"
  have c: "?s\<lparr>curr_source := 0\<rparr> = ?s" using s(2) by (simp add: file_table_def)
  have "file_table ?s ?ds []" by (simp add: file_table_flag s(2))
  from setup_file [OF this assms(4,3), of H] assms(1,5) obtain t where
    t: "forM fs (\<lambda>d. SetupVar H d 0) ?s = Inr ((), t)" "file_table t ?ds (map vd_name (file_vars fs))" by auto
  have "cinterp_main H ev [fs] init_state = seqM (forM fs (init_decl H ev 0))
      (seqM (modifyM (\<lambda>s. s\<lparr>static_init := False\<rparr>)) (RunProgram H ev)) t" for ev
    using s(1) m c t(1)
    by (cases "forM fs (init_decl H ev 0) t")
      (auto simp: cinterp_main_def InitializeVars_def seqM_def bindM_assoc run_simps)
  moreover have "main_source t = Some 0" using t(2) assms(6) by (auto simp: file_table_def)
  ultimately show thesis using that t(2) by blast
qed

end
