(* ===== verification/CommandLine.thy ===== *)
theory CommandLine
  imports Startup
begin

text \<open>
  The process (\<open>main\<close> in \<open>main.cpp\<close>): the arguments, the directory of syntax trees, the source
  file, and then the program. What the operating system and Clang answer is the record
  \<open>os_env\<close>: the entries of a directory, or none if it cannot be opened, and the declarations
  Clang gives for a tree of a directory or for a C file, or none for a null pointer.
\<close>

record os_env =
  opendir :: "string \<Rightarrow> string list option"
  load_ast :: "string \<Rightarrow> string \<Rightarrow> top_decl list option"
  load_c :: "string \<Rightarrow> top_decl list option"

text \<open>\<open>strstr(text, part) != NULL\<close>\<close>

fun strstr :: "string \<Rightarrow> string \<Rightarrow> bool" where
  "strstr [] part \<longleftrightarrow> part = []"
| "strstr (c # cs) part \<longleftrightarrow> take (length part) (c # cs) = part \<or> strstr cs part"

text \<open>\<open>ast_list\<close>: the trees of the directory in the order it lists them, then the C file.\<close>

definition ast_list :: "os_env \<Rightarrow> string \<Rightarrow> string list \<Rightarrow> string \<Rightarrow> top_decl list option list" where
  "ast_list W dir entries file =
     map (load_ast W dir) (filter (\<lambda>name. strstr name ''.ast'') entries) @ [load_c W file]"

text \<open>
  The loop over the units. On a null unit \<open>err_exit\<close> calls \<open>debug_dump\<close>, which looks into
  \<open>sources[0]\<close>: this is set unless the unit is the first.
\<close>

fun take_units :: "bool \<Rightarrow> top_decl list option list \<Rightarrow> top_decl list list res" where
  "take_units first [] = Inr []"
| "take_units first (u # us) = (case u of
     None \<Rightarrow> if first then Inl (HostUB ''sources[0] is not set'')
       else Inl (ErrExit ''There was a problem reading an AST file, quitting'')
   | Some c \<Rightarrow> res_bind (take_units False us) (\<lambda>cs. Inr (c # cs)))"

text \<open>The exit status of the process, where no exit function is called.\<close>

definition cinterp :: "host \<Rightarrow> interp_fns \<Rightarrow> os_env \<Rightarrow> string list \<Rightarrow> int emu" where
  "cinterp H ev W argv =
     (if length argv < 3 then ret 1
      else (case opendir W (argv ! 1) of
          None \<Rightarrow> ret 1
        | Some entries \<Rightarrow>
            bindM (lift (take_units True (ast_list W (argv ! 1) entries (argv ! 2)))) (\<lambda>sources.
            seqM (cinterp_main H ev sources) (ret 0))))"

section \<open>The sources that are loaded\<close>

text \<open>A directory without syntax trees: the C file is the only source.\<close>

lemma cinterp_single:
  assumes "3 \<le> length argv" and "opendir W (argv ! 1) = Some entries"
    and "list_all (\<lambda>name. \<not> strstr name ''.ast'') entries" and "load_c W (argv ! 2) = Some file"
  shows "cinterp H ev W argv s = seqM (cinterp_main H ev [file]) (ret 0) s"
proof -
  have "filter (\<lambda>name. strstr name ''.ast'') entries = []"
    using assms(3) by (simp add: list_all_iff filter_empty_conv)
  then show ?thesis using assms(1,2,4) by (simp add: cinterp_def ast_list_def run_simps res_bind_def)
qed

end
