(* ===== verification/IntProgram.thy ===== *)
theory IntProgram
  imports IntStmt LoadProps CommandLine
begin

text \<open>
  Whole programs: from the loading of one file of functions and variables to \<open>do_exit\<close>, and the
  properties that compare expressions, statements and programs with the semantics of \<open>IntSem\<close>.
\<close>

section \<open>The state after loading\<close>

text \<open>With enough fuel the process ends with \<open>e\<close>.\<close>

definition runs_to :: "host \<Rightarrow> (interp_fns \<Rightarrow> emu_error + 'a) \<Rightarrow> emu_error \<Rightarrow> bool" where
  "runs_to H m e \<longleftrightarrow> eventually (\<lambda>n. m (interp H n) = Inl e) sequentially"

lemma file_funD:
  "prog_fun (file_prog fs) nm = Some f \<Longrightarrow>
   f \<in> set (filter fd_is_definition (file_funs fs)) \<and> fd_name f = nm"
  unfolding file_prog_def by (auto dest: map_of_SomeD)

lemma file_fun_None:
  "nm \<notin> fd_name ` set (filter fd_is_definition (file_funs fs)) \<Longrightarrow> prog_fun (file_prog fs) nm = None"
  by (auto simp: file_prog_def map_of_eq_None_iff)

text \<open>The table of the file represents a world without initialized variables.\<close>

lemma rep_start:
  assumes t: "file_table s (filter fd_is_definition (file_funs fs)) (map vd_name (file_vars fs))"
    and d: "distinct (map fd_name (filter fd_is_definition (file_funs fs)) @ map vd_name (file_vars fs))"
    and "3 + length (filter fd_is_definition (file_funs fs)) + length (file_vars fs) + k \<le> 2 ^ 32"
  shows "rep H (file_prog fs) s ([], [], k)"
proof -
  have n: "next_id s = 3 + length (filter fd_is_definition (file_funs fs)) + length (file_vars fs)"
    and c: "curr_source s = 0" and m: "stack_var_map s = (\<lambda>_. None)" and sv: "stack_vars s = []"
    and e: "\<And>f. f \<in> set (filter fd_is_definition (file_funs fs)) \<Longrightarrow> fun_entry s f \<and> isFunctionType (fd_type f)"
    using t by (simp_all add: file_table_def)
  have v: "var_entry s nm" if "nm \<in> set (map vd_name (file_vars fs))" for nm
    using t that unfolding file_table_def by blast
  have "fun_rep (file_prog fs) s"
    unfolding fun_rep_def
  proof (intro allI impI)
    fix nm f assume "prog_fun (file_prog fs) nm = Some f"
    from file_funD [OF this] e have "fun_entry s f" "isFunctionType (fd_type f)" "fd_name f = nm" by auto
    then show "isFunctionType (fd_type f) \<and> (\<exists>i fid.
       local_vars s (curr_source s) nm = Some (lvalue_of (BlkPtr i) (fd_type f) 0) \<and>
       func_block s i fid (fd_type f) \<and> \<not> fid < NUM_EXTERNAL_FUNCTIONS \<and>
       global_functions s fid = Some (curr_source s, f) \<and>
       BlkPtr i \<notin> var_block ` set (concat (stack_vars s)))"
      by (auto simp: fun_entry_def c sv)
  qed
  moreover have "glob_rep H (file_prog fs) [] s"
    unfolding glob_rep_def
  proof (rule conjI [OF _ ballI])
    fix nm assume "nm \<in> set (prog_globals (file_prog fs))"
    then have nm: "nm \<in> set (map vd_name (file_vars fs))" by (simp add: file_prog_def)
    then have "prog_fun (file_prog fs) nm = None" using d by (intro file_fun_None) auto
    with v [OF nm] show "prog_fun (file_prog fs) nm = None \<and> (\<exists>i.
       local_vars s (curr_source s) nm = Some (lvalue_of (BlkPtr i) IntType 0) \<and>
       glob_cell H s i (map_of [] nm) \<and> BlkPtr i \<notin> var_block ` set (concat (stack_vars s)))"
      by (auto simp: var_entry_def glob_cell_def c sv)
  qed simp
  moreover have "mem_inv s" "locals_apart s 0" using t by (simp_all add: file_table_def)
  ultimately show ?thesis using assms(3) n m
    by (simp add: rep_def tables_rep_def stack_inv_def stack_pos_def index_entry_def sv c)
qed

section \<open>The global variables\<close>

text \<open>\<open>InitializeVar\<close>, once the value is there, gives the variable its value.\<close>

lemma sim_init_var:
  assumes "llvm_host H" and rp: "rep H P s ([], g, k)" and "nm \<in> set (prog_globals P)"
    and "map_of g nm = None" and x: "ap_fits NUM_TYPE_INT x"
  obtains loc b bs t where "local_vars s (curr_source s) nm = Some loc" and "get_block (lblock loc) s = Inr (b, s)"
    and "dump_repr H (int_num x) = Inr bs" and "store_bytes b (loffset loc) bs s = Inr ((), t)"
    and "rep H P t ([], g @ [(nm, num_value NUM_TYPE_INT x)], k)" and "same_program s t"
proof -
  obtain i where l: "local_vars s (curr_source s) nm = Some (lvalue_of (BlkPtr i) IntType 0)"
    and gc: "glob_cell H s i (map_of g nm)" by (rule rep_global [OF rp assms(3)]) auto
  with assms(4) obtain d where "raw_cell s i d" by (auto simp: glob_cell_def)
  from raw_cell_init [OF assms(1) this x] obtain bs b e where bs: "dump_repr H (int_num x) = Inr bs"
    and b: "active_mem s i = Some b"
    and st: "store_bytes b 0 bs s = Inr ((), s\<lparr>active_mem := (active_mem s)(i := Some (b\<lparr>bdata := Some e\<rparr>))\<rparr>)"
    and rc: "raw_cell (s\<lparr>active_mem := (active_mem s)(i := Some (b\<lparr>bdata := Some e\<rparr>))\<rparr>) i e"
    and ce: "cell_at H e 0 (Some x)" by blast
  let ?t = "s\<lparr>active_mem := (active_mem s)(i := Some (b\<lparr>bdata := Some e\<rparr>))\<rparr>"
  let ?g = "g @ [(nm, num_value NUM_TYPE_INT x)]"
  have sv: "stack_vars s = []" and mi: "mem_inv s" using rp by (simp_all add: rep_def)
  have "int_cell H ?t i (Some (num_value NUM_TYPE_INT x))" using rc ce by (auto simp: int_cell_def)
  moreover have "map_of ?g = (map_of g)(nm \<mapsto> num_value NUM_TYPE_INT x)"
    using assms(4) by (auto simp: fun_eq_iff map_add_def split: option.splits)
  moreover have "tables_rep H P g s" using rp by (simp add: rep_def)
  ultimately have "tables_rep H P ?g ?t" using tables_store [OF _ assms(3) l refl] by blast
  moreover have "bid (b\<lparr>bdata := Some e\<rparr>) = i" "block_ok (b\<lparr>bdata := Some e\<rparr>)"
    using rc by (auto simp: raw_cell_def block_ok_def)
  then have "mem_inv ?t" by (rule mem_inv_put [OF mi b])
  moreover have "stack_inv ?t" "next_id ?t = next_id s"
    using rp by (simp_all add: rep_def stack_inv_def next_id_def)
  ultimately have "rep H P ?t ([], ?g, k)" using rp sv by (simp add: rep_def)
  moreover have "get_block (lblock (lvalue_of (BlkPtr i) IntType 0)) s = Inr (b, s)"
    using b by (simp add: lvalue_of_def run_simps)
  moreover have "same_program s ?t" by (simp add: same_program_def)
  ultimately show thesis using that l bs st by (simp add: lvalue_of_def)
qed

lemma sim_globals:
  assumes "llvm_host H" and "call_sim H P call"
  shows "a_globals (a_eval P call) vs w = Some w' \<Longrightarrow> rep H P s ([], w) \<Longrightarrow> curr_source s = 0 \<Longrightarrow>
    vd_name ` set vs \<subseteq> set (prog_globals P) \<Longrightarrow> \<forall>v \<in> set vs. \<not> vd_extern_storage v \<Longrightarrow>
    \<exists>t. runs H (\<lambda>ev. forM vs (\<lambda>v. InitializeVar H ev v 0)) s () t \<and> rep H P t ([], w') \<and> same_program s t"
proof (induction vs arbitrary: s w)
  case Nil
  then show ?case by (auto simp: same_program_def)
next
  case (Cons v vs)
  then obtain e y st where i: "vd_init v = Some e" and e: "a_eval P call e ([], w) = Some (y, st)"
    and ty: "vd_type v = IntType" and nm: "map_of (fst (snd st)) (vd_name v) = None"
    and rest: "a_globals (a_eval P call) vs (fst (snd st) @ [(vd_name v, y)], snd (snd st)) = Some w'"
    by (auto split: option.splits if_splits)
  have "rep H P s ([] @ fst ([], w), snd ([], w))" using Cons.prems(2) by simp
  from sim_expr [OF assms e this] obtain t where t: "evals_int H e s y t" "rep H P t ([] @ fst st, snd st)" .
  from t(1) obtain x where x: "ap_fits NUM_TYPE_INT x" "num_value NUM_TYPE_INT x = y"
    and re: "runs H (\<lambda>ev. rexpr ev e) s (Val (int_num x)) t"
    and rv: "runs H (\<lambda>ev. rvalue ev e) s (int_num x) t" by (rule evals_intE)
  have "stack_ext s t"
    using re by (rule runs_preserves [rotated]) (rule stack_emu.ev_preservesD [OF stack_emu.interp_preserves])
  then have "fst st = []" using Cons.prems(2) t(2) by (simp add: stack_ext_def rep_def)
  with t(2) have rt: "rep H P t ([], fst (snd st), snd (snd st))" by simp
  have sp: "same_program s t"
    using re by (rule runs_preserves [rotated]) (rule program_emu.ev_preservesD [OF program_emu.interp_preserves])
  obtain z where z: "emu_cast_to H (int_num x) IntType = Inr (int_num z)" "ap_fits NUM_TYPE_INT z"
    "num_value NUM_TYPE_INT z = y" using int_cast_self [OF assms(1) x(1)] x(2) by metis
  have "vd_name v \<in> set (prog_globals P)" using Cons.prems(4) by simp
  from sim_init_var [OF assms(1) rt this nm z(2)] obtain loc b bs u where
    l: "local_vars t (curr_source t) (vd_name v) = Some loc" "get_block (lblock loc) t = Inr (b, t)"
    "dump_repr H (int_num z) = Inr bs" "store_bytes b (loffset loc) bs t = Inr ((), u)"
    and u: "rep H P u ([], fst (snd st) @ [(vd_name v, y)], snd (snd st))" "same_program t u"
    unfolding z(3) by blast
  have "curr_source t = 0" using sp Cons.prems(3) by (simp add: same_program_def)
  then have step: "runs H (\<lambda>ev. InitializeVar H ev v 0) s () u"
    by (intro runs_mono [OF rv]) (use i ty z(1) l Cons.prems(5) in \<open>simp add: InitializeVar_def run_simps\<close>)
  have "curr_source u = 0" using sp u(2) Cons.prems(3) by (simp add: same_program_def)
  from Cons.IH [OF rest u(1) this] Cons.prems(4,5) obtain q where
    q: "runs H (\<lambda>ev. forM vs (\<lambda>v. InitializeVar H ev v 0)) u () q" "rep H P q ([], w')" "same_program u q"
    by auto
  have "runs H (\<lambda>ev. forM (v # vs) (\<lambda>v. InitializeVar H ev v 0)) s () q"
    unfolding forM.simps by (rule runs_bind [OF step q(1)])
  with q sp u(2) show ?case unfolding same_program_def by auto
qed

lemma file_names: "vd_name ` set (file_vars fs) \<subseteq> set (prog_globals (file_prog fs))"
  by (simp add: file_prog_def)

lemma file_vars_defined: "\<forall>v \<in> set (file_vars fs). \<not> vd_extern_storage v"
  by (auto simp: file_vars_def split: top_decl.splits if_splits)

lemma init_file: "forM fs (init_decl H ev 0) = forM (file_vars fs) (\<lambda>v. InitializeVar H ev v 0)"
proof (induction fs)
  case (Cons d fs)
  then show ?case by (cases d) (auto simp: init_decl_def InitializeVar_def bindM_ret_left)
qed simp

section \<open>Running main\<close>

lemma num_val_mod:
  "ap_fits NUM_TYPE_INT x \<Longrightarrow> ap_val x = nat (num_value NUM_TYPE_INT x mod 2 ^ 32)"
  using take_bit_num_value [of NUM_TYPE_INT x] by (simp add: take_bit_eq_mod)

text \<open>\<open>find_main\<close> reads the block of \<open>main\<close>, and the body runs in the first frame.\<close>

lemma RunProgram_int:
  assumes "llvm_host H" and rp: "rep H P t ([], w)" and c: "curr_source t = 0" and ms: "main_source t = Some 0"
    and f: "prog_fun P ''main'' = Some f"
    and "fd_return f = IntType" and "fd_params f = []" and "fd_body f = Some body"
    and "a_exec P n body ([[]], w) = Some (Ret v, st')"
  shows "runs_to H (\<lambda>ev. RunProgram H ev t) (ExitClean 32 (nat (v mod 2 ^ 32)))"
proof -
  have c0: "t\<lparr>curr_source := 0\<rparr> = t" and sv: "stack_vars t = []" using c rp by (simp_all add: rep_def)
  from rp f c obtain i fid where "local_vars t 0 ''main'' = Some (lvalue_of (BlkPtr i) (fd_type f) 0)"
    "func_block t i fid (fd_type f)" "global_functions t fid = Some (0, f)"
    unfolding rep_def tables_rep_def fun_rep_def by metis
  then have m: "find_main t = Inr ((0, f), t)" by (rule find_main_run [OF ms])
  have "rep H P (t\<lparr>stack_vars := [[]]\<rparr>) ([] @ fst ([[]], w), snd ([[]], w))"
    using sim_push [OF rp] sv by (simp add: a_push_def)
  from simulatesE [OF sim_stmt [OF assms(1)] assms(9) this] obtain p u where
    r: "runs H (\<lambda>ev. run_stmt ev body) (t\<lparr>stack_vars := [[]]\<rparr>) p u" and "ret_rel (Ret v) p" .
  then obtain x where p: "p = Val (int_num x)" and x: "ap_fits NUM_TYPE_INT x" "num_value NUM_TYPE_INT x = v"
    by (auto simp: ret_rel_def)
  obtain z where z: "emu_cast_to H (int_num x) IntType = Inr (int_num z)" "ap_fits NUM_TYPE_INT z"
    "num_value NUM_TYPE_INT z = v" using int_cast_self [OF assms(1) x(1)] x(2) by metis
  from r show ?thesis unfolding runs_def runs_to_def
  proof (rule eventually_mono)
    fix j assume "run_stmt (interp H j) body (t\<lparr>stack_vars := [[]]\<rparr>) = Inr (p, u)"
    then show "RunProgram H (interp H j) t = Inl (ExitClean 32 (nat (v mod 2 ^ 32)))"
      using assms(6-8) z num_val_mod [OF z(2)]
      by (simp add: RunProgram_def m c0 sv run_simps add_stack_frame_run check_main_params_def p do_exit_def ap_fits_def)
  qed
qed

text \<open>The variables of a file that is loaded get the values the semantics says.\<close>

lemma file_init:
  assumes "llvm_host H" and tab: "file_table t (filter fd_is_definition (file_funs fs)) (map vd_name (file_vars fs))"
    and d: "distinct (map fd_name (filter fd_is_definition (file_funs fs)) @ map vd_name (file_vars fs))"
    and k: "3 + length (filter fd_is_definition (file_funs fs)) + length (file_vars fs) + k \<le> 2 ^ 32"
    and w: "a_globals (a_eval (file_prog fs) (a_call (a_exec (file_prog fs) n))) (file_vars fs) ([], k) = Some w"
  obtains u where "runs H (\<lambda>ev. forM (file_vars fs) (\<lambda>v. InitializeVar H ev v 0)) t () u"
    and "rep H (file_prog fs) u ([], w)" and "same_program t u"
proof -
  have c: "curr_source t = 0" using tab by (simp add: file_table_def)
  have call: "call_sim H (file_prog fs) (a_call (a_exec (file_prog fs) n))"
    by (rule sim_bodies [OF sim_stmt [OF assms(1)]])
  from sim_globals [OF assms(1) call w rep_start [OF tab d k] c file_names file_vars_defined] that
  show thesis by blast
qed

text \<open>From the start of the process, given the state after loading.\<close>

lemma file_run:
  assumes "llvm_host H" and tab: "file_table t (filter fd_is_definition (file_funs fs)) (map vd_name (file_vars fs))"
    and d: "distinct (map fd_name (filter fd_is_definition (file_funs fs)) @ map vd_name (file_vars fs))"
    and k: "3 + length (filter fd_is_definition (file_funs fs)) + length (file_vars fs) + k \<le> 2 ^ 32"
    and ms: "main_source t = Some 0" and f: "prog_fun (file_prog fs) ''main'' = Some f"
    and "fd_return f = IntType" and "fd_params f = []" and "a_program n fs k = Some v"
  shows "runs_to H (\<lambda>ev. seqM (forM fs (init_decl H ev 0))
      (seqM (modifyM (\<lambda>s. s\<lparr>static_init := False\<rparr>)) (RunProgram H ev)) t) (ExitClean 32 (nat (v mod 2 ^ 32)))"
proof -
  let ?P = "file_prog fs"
  from assms(9) f obtain body w st' where b: "fd_body f = Some body"
    and w: "a_globals (a_eval ?P (a_call (a_exec ?P n))) (file_vars fs) ([], k) = Some w"
    and e: "a_exec ?P n body ([[]], w) = Some (Ret v, st')"
    by (auto simp: a_program_def split: option.splits int_result.splits)
  from file_init [OF assms(1) tab d k w] obtain u where
    u: "runs H (\<lambda>ev. forM (file_vars fs) (\<lambda>v. InitializeVar H ev v 0)) t () u"
      "rep H ?P u ([], w)" "same_program t u" .
  let ?u = "u\<lparr>static_init := False\<rparr>"
  have "tables_rep H ?P (fst w) ?u"
    by (rule tables_keep [of H ?P _ u]) (use u(2) in \<open>auto simp: rep_def\<close>)
  then have "rep H ?P ?u ([], w)"
    using rep_cong [OF u(2), of ?u "[]"] u(2) by (simp add: rep_def stack_inv_def)
  moreover have "curr_source ?u = 0" "main_source ?u = Some 0"
    using u(3) ms tab by (simp_all add: same_program_def file_table_def)
  ultimately have "runs_to H (\<lambda>ev. RunProgram H ev ?u) (ExitClean 32 (nat (v mod 2 ^ 32)))"
    using RunProgram_int [OF assms(1) _ _ _ f assms(7,8) b e] by blast
  from eventually_conj [OF u(1) [unfolded runs_def] this [unfolded runs_to_def]]
  show ?thesis unfolding runs_to_def by (rule eventually_mono) (simp add: init_file run_simps)
qed

section \<open>A program\<close>

text \<open>
  \<open>int top = 1 + 2; int s = 0;\<close>, \<open>int fact(int n) { if (n <= 1) return 1; return n * fact(n - 1); }\<close>
  and \<open>int main() { for (int i = 1; i < top; i += 1)
  switch (i) { case 1: s += 2; break; default: s += fact(i + 1); } return s; }\<close>,
  with a declaration of \<open>fact\<close> before them.
\<close>

definition lit :: "nat \<Rightarrow> expr" where
  "lit k = IntegerLiteral (APInt 32 k)"

definition rd :: "string \<Rightarrow> expr" where
  "rd nm = ImplicitCastExpr CK_LValueToRValue (DeclRefExpr nm IntType) IntType"

definition int_decl :: "string \<Rightarrow> expr \<Rightarrow> bool \<Rightarrow> var_decl" where
  "int_decl nm e ext = \<lparr>vd_name = nm, vd_type = IntType, vd_init = Some e,
     vd_extern_storage = False, vd_external_linkage = ext\<rparr>"

definition int_var :: "string \<Rightarrow> expr \<Rightarrow> stmt" where
  "int_var nm e = DeclStmt [VarDecl (int_decl nm e False)]"

definition fact_call :: "expr \<Rightarrow> expr" where
  "fact_call e = CallExpr (ImplicitCastExpr CK_FunctionToPointerDecay
     (DeclRefExpr ''fact'' (QFunction ''int (int)'')) (QPointer (QFunction ''int (int)''))) [e]"

definition fact_body :: stmt where
  "fact_body = CompoundStmt
     [IfStmt (BinaryOperator BO_LE (rd ''n'') (lit 1)) (ReturnStmt (Some (lit 1))) None,
      ReturnStmt (Some (BinaryOperator BO_Mul (rd ''n'')
        (fact_call (BinaryOperator BO_Sub (rd ''n'') (lit 1)))))]"

definition fact_decl :: "stmt option \<Rightarrow> function_decl" where
  "fact_decl b = \<lparr>fd_name = ''fact'', fd_type = QFunction ''int (int)'', fd_return = IntType,
     fd_params = [(''n'', IntType)], fd_body = b, fd_is_definition = (b \<noteq> None), fd_external_linkage = True\<rparr>"

definition add_to_s :: "expr \<Rightarrow> stmt" where
  "add_to_s e = ExprStmt (BinaryOperator BO_AddAssign (DeclRefExpr ''s'' IntType) e)"

definition main_body :: stmt where
  "main_body = CompoundStmt [
     ForStmt (Some (int_var ''i'' (lit 1))) (Some (BinaryOperator BO_LT (rd ''i'') (rd ''top'')))
       (Some (BinaryOperator BO_AddAssign (DeclRefExpr ''i'' IntType) (lit 1)))
       (SwitchStmt (rd ''i'') (CompoundStmt
         [CaseStmt (lit 1) (add_to_s (lit 2)), BreakStmt,
          DefaultStmt (add_to_s (fact_call (BinaryOperator BO_Add (rd ''i'') (lit 1))))])),
     ReturnStmt (Some (rd ''s''))]"

definition fact_program :: "top_decl list" where
  "fact_program = [TopFunction (fact_decl None), TopVar (int_decl ''top'' (BinaryOperator BO_Add (lit 1) (lit 2)) True),
     TopVar (int_decl ''s'' (lit 0) True), TopFunction (sample_function main_body),
     TopFunction (fact_decl (Some fact_body))]"

lemma lits: "ap_fits NUM_TYPE_INT (APInt 32 0)" "ap_fits NUM_TYPE_INT (APInt 32 (Suc 0))"
  "ap_fits NUM_TYPE_INT (APInt 32 3)" "num_value NUM_TYPE_INT (APInt 32 0) = 0"
  "num_value NUM_TYPE_INT (APInt 32 (Suc 0)) = 1" "num_value NUM_TYPE_INT (APInt 32 3) = 3"
  "ap_fits NUM_TYPE_INT (APInt 32 2)" "num_value NUM_TYPE_INT (APInt 32 2) = 2"
  by (simp_all add: ap_fits_def ap_wf_def num_value_def ap_sint_def)

lemma fact_file:
  "filter fd_is_definition (file_funs fact_program) = [sample_function main_body, fact_decl (Some fact_body)]"
  "file_vars fact_program = [int_decl ''top'' (BinaryOperator BO_Add (lit 1) (lit 2)) True, int_decl ''s'' (lit 0) True]"
  "file_prog fact_program = \<lparr>prog_fun = [''main'' \<mapsto> sample_function main_body, ''fact'' \<mapsto> fact_decl (Some fact_body)],
     prog_globals = [''top'', ''s'']\<rparr>"
  by (simp_all add: file_prog_def fact_program_def fact_decl_def sample_function_def int_decl_def fun_upd_twist)

lemmas a_defs = a_frame_def a_push_def a_pop_def a_decl_def a_init_def a_declare_def a_for_def a_assign_def
  a_lookup_def a_update_def a_get_def a_set_def a_put_def a_free_def a_binary_def a_call_def a_callee_def
  stack_pos_def frame_pos_def wrap32_def num_wrap_def lits

lemma fact_globals:
  "a_globals (a_eval (file_prog fact_program) call) (file_vars fact_program) ([], k) = Some ([(''top'', 3), (''s'', 0)], k)"
  unfolding fact_file by (simp add: int_decl_def lit_def a_defs)

lemma fact_main:
  "a_exec (file_prog fact_program) (Suc (Suc (Suc (Suc (Suc (Suc (Suc (Suc (Suc (Suc (Suc (Suc (Suc (Suc 0))))))))))))))
     main_body ([[]], [(''top'', 3), (''s'', 0)], Suc (Suc (Suc (Suc 0))))
   = Some (Ret 8, [[]], [(''top'', 3), (''s'', 8)], 0)"
  unfolding fact_file
  by (simp add: main_body_def fact_body_def fact_decl_def fact_call_def int_var_def int_decl_def rd_def lit_def
      add_to_s_def a_switch_def a_defs)

lemma fact_program_meaning:
  "a_program (Suc (Suc (Suc (Suc (Suc (Suc (Suc (Suc (Suc (Suc (Suc (Suc (Suc (Suc 0)))))))))))))) fact_program
     (Suc (Suc (Suc (Suc 0)))) = Some 8"
proof -
  have "prog_fun (file_prog fact_program) ''main'' = Some (sample_function main_body)" by (simp add: fact_file)
  moreover have "fd_body (sample_function main_body) = Some main_body" by (simp add: sample_function_def)
  ultimately show ?thesis
    unfolding a_program_def option.case fact_globals by (simp only: option.case fact_main prod.case int_result.case)
qed

lemma fact_program_ok:
  "distinct (map fd_name (filter fd_is_definition (file_funs fact_program)) @ map vd_name (file_vars fact_program))"
  "\<forall>f \<in> set (file_funs fact_program). isFunctionType (fd_type f)"
  "\<forall>v \<in> set (file_vars fact_program). vd_type v = IntType"
  "all_defined (filter fd_is_definition (file_funs fact_program)) (file_funs fact_program)"
  by (simp_all add: fact_program_def all_defined_def fact_decl_def sample_function_def int_decl_def)

text \<open>The state in which its \<open>main\<close> starts.\<close>

lemma fact_program_state:
  assumes "7 + k \<le> 2 ^ 32"
  obtains t where "rep std_host (file_prog fact_program) t ([[]], [(''top'', 3), (''s'', 0)], k)"
proof -
  obtain t where t: "file_table t (filter fd_is_definition (file_funs fact_program)) (map vd_name (file_vars fact_program))"
    by (rule startup_file [OF fact_program_ok, of std_host])
      (auto simp: fact_program_def fact_decl_def sample_function_def int_decl_def)
  obtain u where "rep std_host (file_prog fact_program) u ([], [(''top'', 3), (''s'', 0)], k)"
    by (rule file_init [OF std.llvm_host_axioms t fact_program_ok(1) _ fact_globals]) (use assms in \<open>auto simp: fact_file\<close>)
  from sim_push [OF this] that show thesis by (auto simp: a_push_def)
qed

section \<open>Properties\<close>

text \<open>C3: Expressions of the \<open>int\<close> fragment. These are the expressions with a value in the semantics
  \<open>a_eval\<close>: integer literals, reads of initialized \<open>int\<close> variables, parentheses, unary minus and
  \<open>!\<close>, the operators \<open>+ - * / & |\<close>, the six comparisons, \<open>=\<close>, \<open>+=\<close> and \<open>-=\<close> to a variable, and
  calls of functions of the program in which no argument mentions the name of an earlier
  parameter, within the number of blocks that may still be allocated. Such an expression is evaluated, with enough fuel, to a defined number of the
  value; the right operand comes first, assignments inside it update the variables of the
  function and the global ones, a call leaves the variables of its callers alone, and the
  memory represents the new state. Other expressions of C have no value there: of these the
  interpreter rejects \<open>%\<close>, \<open>&&\<close>, \<open>||\<close>, \<open>++\<close>, \<open>--\<close>, \<open>?:\<close> and the shifts.\<close>

theorem expression_value:
  assumes "llvm_host H" and "rep H P s (gs @ fs, w)"
    and "a_eval P (a_call (a_exec P n)) e (fs, w) = Some (v, fs', w')"
  shows "\<exists>m x t. (\<forall>j \<ge> m. rexpr (interp H j) e s = Inr (Val (num_of_apint NUM_TYPE_INT x), t)) \<and>
    ap_fits NUM_TYPE_INT x \<and> num_value NUM_TYPE_INT x = v \<and> rep H P t (gs @ fs', w')"
proof -
  from sim_expr [OF assms(1) sim_bodies [OF sim_stmt [OF assms(1)]] assms(3), of s gs] assms(2)
  obtain t where "evals_int H e s v t" "rep H P t (gs @ fs', w')" by auto
  then show ?thesis by (fastforce simp: runs_def eventually_sequentially elim: evals_intE)
qed

theorem expression_value_witness:
  "\<exists>s m x t. (\<forall>j \<ge> m. rexpr (interp std_host j)
      (BinaryOperator BO_AddAssign (DeclRefExpr ''s'' IntType) (IntegerLiteral (APInt 32 1))) s
        = Inr (Val (num_of_apint NUM_TYPE_INT x), t)) \<and>
    num_value NUM_TYPE_INT x = 1 \<and> rep std_host (file_prog fact_program) t ([[]], [(''top'', 3), (''s'', 1)], 0)"
proof -
  obtain s where "rep std_host (file_prog fact_program) s ([] @ [[]], [(''top'', 3), (''s'', 0)], 0)"
    using fact_program_state [of 0] by auto
  moreover have "a_eval (file_prog fact_program) (a_call (a_exec (file_prog fact_program) 0))
      (BinaryOperator BO_AddAssign (DeclRefExpr ''s'' IntType) (IntegerLiteral (APInt 32 1)))
      ([[]], [(''top'', 3), (''s'', 0)], 0) = Some (1, [[]], [(''top'', 3), (''s'', 1)], 0)"
    by (simp add: a_defs)
  ultimately show ?thesis using expression_value [OF std.llvm_host_axioms] by fastforce
qed

text \<open>C2: Statements of the \<open>int\<close> fragment. These are the statements with a meaning in the semantics
  \<open>a_exec\<close>: blocks, declarations of \<open>int\<close> variables, \<open>if\<close>, \<open>for\<close> with all its parts, \<open>switch\<close>,
  \<open>break\<close> out of a \<open>switch\<close>, \<open>return\<close> with a value and the expressions of the fragment, within
  the number of blocks that may still be allocated. Among what has no meaning there is what the
  interpreter does not do as C does: a \<open>break\<close> out of a \<open>for\<close>, an initializer that changes a
  variable, a label right behind another or inside a statement of the \<open>switch\<close> body, a
  declaration among the labels, and a local variable with the name of a function or of a global
  variable. A statement of the fragment is executed, with enough fuel, without an error; it returns the value of the
  \<open>return\<close> it reaches, the mark of a \<open>break\<close> that leaves it, or null, and the memory represents
  the variables as the semantics leaves them, the global ones included, its own frames popped
  and those of the callers untouched.\<close>

theorem statement_refines_C:
  assumes "llvm_host H" and "rep H P s (gs @ fs, w)" and "a_exec P n c (fs, w) = Some (r, fs', w')"
  shows "\<exists>m p t. (\<forall>j \<ge> m. run_stmt (interp H j) c s = Inr (p, t)) \<and> rep H P t (gs @ fs', w') \<and>
    (case r of Norm \<Rightarrow> p = NullVal
     | Brk \<Rightarrow> p = BreakPtr
     | Ret v \<Rightarrow> \<exists>x. p = Val (num_of_apint NUM_TYPE_INT x) \<and> ap_fits NUM_TYPE_INT x \<and>
         num_value NUM_TYPE_INT x = v)"
proof -
  from simulatesE [OF sim_stmt [OF assms(1)] assms(3), of s gs] assms(2) obtain p t where
    "runs H (\<lambda>ev. run_stmt ev c) s p t" "ret_rel r p" "rep H P t (gs @ fs', w')" by auto
  then show ?thesis by (auto simp: runs_def eventually_sequentially ret_rel_def)
qed

theorem statement_refines_C_witness:
  "\<exists>s m x t. \<forall>j \<ge> m. run_stmt (interp std_host j) main_body s
     = Inr (Val (num_of_apint NUM_TYPE_INT x), t) \<and> num_value NUM_TYPE_INT x = 8"
proof -
  obtain s where "rep std_host (file_prog fact_program) s
      ([] @ [[]], [(''top'', 3), (''s'', 0)], Suc (Suc (Suc (Suc 0))))"
    using fact_program_state [of "Suc (Suc (Suc (Suc 0)))"] by auto
  from statement_refines_C [OF std.llvm_host_axioms this fact_main] show ?thesis by fastforce
qed

text \<open>C1: Programs. The process, run on a directory without syntax trees and a C file of
  functions and \<open>int\<close> variables with different names, in which every function declared is
  defined, and whose \<open>int main()\<close> has a result by C within the \<open>int\<close> fragment, with the
  initializers of the variables and with whatever calls between its functions, recursive or
  not, exits cleanly with this result, as the 32-bit number it prints: from loading the file to
  \<open>do_exit\<close>, nothing fails.\<close>

theorem program_refines_C:
  assumes "llvm_host H"
    and "distinct (map fd_name (filter fd_is_definition (file_funs fs)) @ map vd_name (file_vars fs))"
    and "\<forall>g \<in> set (file_funs fs). isFunctionType (fd_type g)"
    and "\<forall>v \<in> set (file_vars fs). vd_type v = IntType"
    and "all_defined (filter fd_is_definition (file_funs fs)) (file_funs fs)"
    and "prog_fun (file_prog fs) ''main'' = Some f" and "fd_external_linkage f"
    and "fd_return f = IntType" and "fd_params f = []" and "a_program n fs k = Some v"
    and "4 + length (filter fd_is_definition (file_funs fs)) + length (file_vars fs) + k \<le> 2 ^ 32"
    and "3 \<le> length argv" and "opendir W (argv ! 1) = Some entries"
    and "list_all (\<lambda>name. \<not> strstr name ''.ast'') entries" and "load_c W (argv ! 2) = Some fs"
  shows "\<exists>m. \<forall>j \<ge> m. cinterp H (interp H j) W argv init_state
    = Inl (ExitClean 32 (nat (v mod 2 ^ 32)))"
proof -
  have "4 + length (filter fd_is_definition (file_funs fs)) + length (file_vars fs) \<le> 2 ^ 32"
    and k: "3 + length (filter fd_is_definition (file_funs fs)) + length (file_vars fs) + k \<le> 2 ^ 32"
    using assms(11) by simp_all
  moreover have "\<exists>f \<in> set (file_funs fs). fd_is_definition f \<and> fd_external_linkage f \<and> fd_name f = ''main''"
    using file_funD [OF assms(6)] assms(7) by auto
  ultimately obtain t where t: "\<And>ev. cinterp_main H ev [fs] init_state = seqM (forM fs (init_decl H ev 0))
      (seqM (modifyM (\<lambda>s. s\<lparr>static_init := False\<rparr>)) (RunProgram H ev)) t"
    and tab: "file_table t (filter fd_is_definition (file_funs fs)) (map vd_name (file_vars fs))"
    and ms: "main_source t = Some 0" using startup_file [OF assms(2-5)] by metis
  from file_run [OF assms(1) tab assms(2) k ms assms(6,8-10)] obtain m where
    "\<forall>j \<ge> m. cinterp_main H (interp H j) [fs] init_state = Inl (ExitClean 32 (nat (v mod 2 ^ 32)))"
    unfolding runs_to_def t [symmetric] by (auto simp: eventually_sequentially)
  then show ?thesis by (intro exI [of _ m]) (simp add: cinterp_single [OF assms(12-15)] run_simps)
qed

theorem program_refines_C_witness:
  "\<exists>m. \<forall>j \<ge> m. cinterp std_host (interp std_host j)
     \<lparr>opendir = (\<lambda>dir. Some [''a.c'']), load_ast = (\<lambda>dir name. None),
      load_c = (\<lambda>name. Some fact_program)\<rparr> [''cinterp'', ''lib'', ''a.c''] init_state
    = Inl (ExitClean 32 8)"
proof -
  have "\<exists>m. \<forall>j \<ge> m. cinterp std_host (interp std_host j)
     \<lparr>opendir = (\<lambda>dir. Some [''a.c'']), load_ast = (\<lambda>dir name. None),
      load_c = (\<lambda>name. Some fact_program)\<rparr> [''cinterp'', ''lib'', ''a.c''] init_state
    = Inl (ExitClean 32 (nat (8 mod 2 ^ 32)))"
    by (rule program_refines_C [OF std.llvm_host_axioms fact_program_ok _ _ _ _ fact_program_meaning, where entries = "[''a.c'']"])
      (auto simp: fact_file sample_function_def)
  then show ?thesis by simp
qed

end
