(* ===== verification/LoopProps.thy ===== *)
theory LoopProps
  imports IntProgram
begin

text \<open>
  Loops that end: \<open>for (int x = lo; x < hi; x += 1) body\<close>, with a body that can be executed
  at every iteration and leaves \<open>x\<close> alone, in the semantics of \<open>IntSem\<close> and so in the
  interpreter.
\<close>

section \<open>The loop in the semantics\<close>

definition count_cond :: "string \<Rightarrow> apint \<Rightarrow> expr" where
  "count_cond x hi = BinaryOperator BO_LT (rd x) (IntegerLiteral hi)"

definition count_step :: "string \<Rightarrow> expr" where
  "count_step x = BinaryOperator BO_AddAssign (DeclRefExpr x IntType) (lit 1)"

definition count_loop :: "string \<Rightarrow> apint \<Rightarrow> apint \<Rightarrow> stmt \<Rightarrow> stmt" where
  "count_loop x lo hi b = ForStmt (Some (int_var x (IntegerLiteral lo))) (Some (count_cond x hi))
     (Some (count_step x)) b"

lemma lookup_top: "a_lookup (gs @ [[(x, c)]]) x = Some c"
proof (cases "stack_pos x gs @ [(length gs, 0)]")
  case (Cons p ps)
  have "last (p # ps) = (length gs, 0)" unfolding Cons [symmetric] by simp
  with Cons show ?thesis by (simp add: a_lookup_def stack_pos_snoc frame_pos_def nth_append del: last.simps)
qed simp

lemma update_top: "a_update (gs @ [[(x, c)]]) x v = Some (gs @ [[(x, Some v)]])"
proof (cases "stack_pos x gs @ [(length gs, 0)]")
  case (Cons p ps)
  have "last (p # ps) = (length gs, 0)" unfolding Cons [symmetric] by simp
  with Cons show ?thesis by (simp add: a_update_def stack_pos_snoc frame_pos_def nth_append del: last.simps)
qed simp

lemma count_cond_eval:
  assumes "ap_fits NUM_TYPE_INT hi"
  shows "a_eval P call (count_cond x hi) (gs @ [[(x, Some a)]], k)
    = Some (if a < num_value NUM_TYPE_INT hi then 1 else 0, gs @ [[(x, Some a)]], k)"
  using assms by (simp add: count_cond_def rd_def a_get_def lookup_top a_binary_def)

lemma count_step_eval:
  "a_eval P call (count_step x) (gs @ [[(x, Some a)]], k)
    = Some (wrap32 (a + 1), gs @ [[(x, Some (wrap32 (a + 1)))]], k)"
  by (simp add: count_step_def lit_def lits a_assign_def a_get_def a_set_def lookup_top update_top)

lemma wrap32_id: "- (2 ^ 31) \<le> a \<Longrightarrow> a < 2 ^ 31 \<Longrightarrow> wrap32 a = a"
  by (simp add: wrap32_def num_wrap_def signed_take_bit_int_eq_self_iff)

text \<open>The loop from the value \<open>hi - j\<close> on ends after \<open>j\<close> iterations.\<close>

lemma count_loop_ends:
  assumes hi: "ap_fits NUM_TYPE_INT hi"
    and body: "\<And>j gs k. - (2 ^ 31) \<le> num_value NUM_TYPE_INT hi - int (Suc j) \<Longrightarrow> I (Suc j) gs k \<Longrightarrow>
      \<exists>gs' k'. ex b (gs @ [[(x, Some (num_value NUM_TYPE_INT hi - int (Suc j)))]], k)
          = Some (Norm, gs' @ [[(x, Some (num_value NUM_TYPE_INT hi - int (Suc j)))]], k') \<and> I j gs' k'"
  shows "I j gs k \<Longrightarrow> j < n \<Longrightarrow> - (2 ^ 31) \<le> num_value NUM_TYPE_INT hi - int j \<Longrightarrow>
    \<exists>gs' k'. a_loop ex (a_eval P call) n (count_cond x hi) (count_step x) b
        (gs @ [[(x, Some (num_value NUM_TYPE_INT hi - int j))]], k)
      = Some (Norm, gs' @ [[(x, Some (num_value NUM_TYPE_INT hi))]], k') \<and> I 0 gs' k'"
proof (induction j arbitrary: n gs k)
  case 0
  then obtain n' where "n = Suc n'" by (cases n) auto
  with 0 show ?case by (simp add: count_cond_eval [OF hi])
next
  case (Suc j)
  then obtain n' where n: "n = Suc n'" by (cases n) auto
  let ?a = "num_value NUM_TYPE_INT hi - int (Suc j)"
  from body [OF Suc.prems(3,1)] obtain gs1 k1 where
    b: "ex b (gs @ [[(x, Some ?a)]], k) = Some (Norm, gs1 @ [[(x, Some ?a)]], k1)" and i: "I j gs1 k1" by blast
  have w: "wrap32 (?a + 1) = num_value NUM_TYPE_INT hi - int j"
    using Suc.prems(3) value_range32(2) [OF hi] by (subst wrap32_id) simp_all
  from Suc.IH [OF i, of n'] Suc.prems(2,3) n obtain gs' k' where
    l: "a_loop ex (a_eval P call) n' (count_cond x hi) (count_step x) b
        (gs1 @ [[(x, Some (num_value NUM_TYPE_INT hi - int j))]], k1)
      = Some (Norm, gs' @ [[(x, Some (num_value NUM_TYPE_INT hi))]], k')" "I 0 gs' k'" by auto
  have step: "a_eval P call (count_step x) (gs1 @ [[(x, Some ?a)]], k1)
      = Some (num_value NUM_TYPE_INT hi - int j, gs1 @ [[(x, Some (num_value NUM_TYPE_INT hi - int j))]], k1)"
    using count_step_eval [of P call x gs1 ?a k1] unfolding w .
  show ?case
    by (intro exI [of _ gs'] exI [of _ k']) (use l b step in \<open>simp add: n count_cond_eval [OF hi]\<close>)
qed

lemma count_loop_exec:
  assumes "ap_fits NUM_TYPE_INT lo" and hi: "ap_fits NUM_TYPE_INT hi"
    and "num_value NUM_TYPE_INT lo \<le> num_value NUM_TYPE_INT hi"
    and "a_free P x" and "I (nat (num_value NUM_TYPE_INT hi - num_value NUM_TYPE_INT lo)) fs (g, k)"
    and body: "\<And>n j gs k. n0 \<le> n \<Longrightarrow> I (Suc j) gs k \<Longrightarrow>
      \<exists>gs' k'. a_exec P n b (gs @ [[(x, Some (num_value NUM_TYPE_INT hi - int (Suc j)))]], k)
          = Some (Norm, gs' @ [[(x, Some (num_value NUM_TYPE_INT hi - int (Suc j)))]], k') \<and> I j gs' k'"
  shows "\<exists>n fs' k'. a_exec P n (count_loop x lo hi b) (fs, g, Suc k) = Some (Norm, fs', k') \<and> I 0 fs' k'"
proof -
  let ?j = "nat (num_value NUM_TYPE_INT hi - num_value NUM_TYPE_INT lo)"
  let ?n = "Suc (max n0 (Suc ?j))"
  have j: "num_value NUM_TYPE_INT hi - int ?j = num_value NUM_TYPE_INT lo" using assms(3) by simp
  have "\<exists>gs' k'. a_loop (a_exec P ?n) (a_eval P (a_call (a_exec P ?n))) ?n (count_cond x hi) (count_step x) b
        (fs @ [[(x, Some (num_value NUM_TYPE_INT hi - int ?j))]], g, k)
      = Some (Norm, gs' @ [[(x, Some (num_value NUM_TYPE_INT hi))]], k') \<and> I 0 gs' k'"
  proof (rule count_loop_ends [where I = I and hi = hi and ex = "a_exec P ?n" and b = b and x = x, OF hi])
    show "\<exists>gs' k'. a_exec P ?n b (gs @ [[(x, Some (num_value NUM_TYPE_INT hi - int (Suc j)))]], k)
        = Some (Norm, gs' @ [[(x, Some (num_value NUM_TYPE_INT hi - int (Suc j)))]], k') \<and> I j gs' k'"
      if "I (Suc j) gs k" for j gs k
      by (rule body [OF _ that]) simp
    show "- (2 ^ 31) \<le> num_value NUM_TYPE_INT hi - int ?j"
      unfolding j by (rule value_range32(1) [OF assms(1)])
  qed (use assms(5) in simp_all)
  then obtain gs' k' where l: "a_loop (a_exec P ?n) (a_eval P (a_call (a_exec P ?n))) ?n (count_cond x hi)
      (count_step x) b (fs @ [[(x, Some (num_value NUM_TYPE_INT lo))]], g, k)
      = Some (Norm, gs' @ [[(x, Some (num_value NUM_TYPE_INT hi))]], k')" "I 0 gs' k'"
    unfolding j by blast
  have i: "a_exec P ?n (int_var x (IntegerLiteral lo)) (fs @ [[]], g, Suc k)
      = Some (Norm, fs @ [[(x, Some (num_value NUM_TYPE_INT lo))]], g, k)"
    using assms(1,4) by (simp add: int_var_def int_decl_def a_decl_def a_init_def a_declare_def)
  have "a_exec P (Suc ?n) (count_loop x lo hi b) (fs, g, Suc k) = Some (Norm, gs', k')"
    using l(1) i unfolding count_loop_def a_exec.simps(2)
    by (simp add: a_frame_def a_push_def a_pop_def a_for_def del: a_exec.simps a_loop.simps)
  with l(2) show ?thesis by blast
qed

section \<open>Properties\<close>

text \<open>C4: Counting loops end. A loop \<open>for (int x = lo; x < hi; x += 1) body\<close> with \<open>lo\<close> at most
  \<open>hi\<close> ends, with enough fuel and without an error, whenever its body, in the semantics of the
  \<open>int\<close> fragment, ends normally at each of the values from \<open>lo\<close> below \<open>hi\<close>, so with no \<open>return\<close>
  and no \<open>break\<close> out of it, and leaves \<open>x\<close> as it was: the interpreter comes out of the loop, its
  frame popped, in the state the body has led to in exactly \<open>hi - lo\<close> iterations. The relation
  \<open>I j\<close> says what holds of the variables, the global ones and the blocks left when \<open>j\<close>
  iterations are still to come.\<close>

theorem counting_loop_ends:
  assumes "llvm_host H" and "rep H P s (hs @ fs, g, Suc k)" and "a_free P x"
    and "ap_fits NUM_TYPE_INT lo" and "ap_fits NUM_TYPE_INT hi"
    and "num_value NUM_TYPE_INT lo \<le> num_value NUM_TYPE_INT hi"
    and "I (nat (num_value NUM_TYPE_INT hi - num_value NUM_TYPE_INT lo)) fs (g, k)"
    and "\<And>n j gs k. n0 \<le> n \<Longrightarrow> I (Suc j) gs k \<Longrightarrow>
      \<exists>gs' k'. a_exec P n b (gs @ [[(x, Some (num_value NUM_TYPE_INT hi - int (Suc j)))]], k)
          = Some (Norm, gs' @ [[(x, Some (num_value NUM_TYPE_INT hi - int (Suc j)))]], k') \<and> I j gs' k'"
  shows "\<exists>m t fs' k'. (\<forall>i \<ge> m. run_stmt (interp H i) (ForStmt
       (Some (DeclStmt [VarDecl \<lparr>vd_name = x, vd_type = IntType, vd_init = Some (IntegerLiteral lo),
          vd_extern_storage = False, vd_external_linkage = False\<rparr>]))
       (Some (BinaryOperator BO_LT
          (ImplicitCastExpr CK_LValueToRValue (DeclRefExpr x IntType) IntType) (IntegerLiteral hi)))
       (Some (BinaryOperator BO_AddAssign (DeclRefExpr x IntType) (IntegerLiteral (APInt 32 1)))) b) s
     = Inr (NullVal, t)) \<and> rep H P t (hs @ fs', k') \<and> I 0 fs' k'"
proof -
  from count_loop_exec [where I = I, OF assms(4-6,3,7,8)] obtain n fs' k' where
    e: "a_exec P n (count_loop x lo hi b) (fs, g, Suc k) = Some (Norm, fs', k')" and i: "I 0 fs' k'" by blast
  from simulatesE [OF sim_stmt [OF assms(1)] e, of s hs] assms(2) obtain p t where
    "runs H (\<lambda>ev. run_stmt ev (count_loop x lo hi b)) s p t" "ret_rel Norm p" and rp: "rep H P t (hs @ fs', k')" by auto
  then obtain m where "\<forall>j \<ge> m. run_stmt (interp H j) (count_loop x lo hi b) s = Inr (NullVal, t)"
    by (auto simp: runs_def eventually_sequentially)
  with i rp show ?thesis
    unfolding count_loop_def int_var_def int_decl_def count_cond_def count_step_def rd_def lit_def by blast
qed

text \<open>\<open>for (int i = 0; i < 3; i += 1) s += i;\<close> with a global \<open>s\<close> that is 0: the values of \<open>s\<close> by
  the iterations still to come.\<close>

definition sum_values :: "nat \<Rightarrow> int_frames \<Rightarrow> int_world \<Rightarrow> bool" where
  "sum_values j fs w \<longleftrightarrow> j \<le> 3 \<and> fs = [[]] \<and> w = ([(''top'', 3), (''s'', [3, 1, 0, 0] ! j)], 0)"

theorem counting_loop_ends_witness:
  "\<exists>s m t. (\<forall>i \<ge> m. run_stmt (interp std_host i) (ForStmt
       (Some (DeclStmt [VarDecl \<lparr>vd_name = ''i'', vd_type = IntType, vd_init = Some (IntegerLiteral (APInt 32 0)),
          vd_extern_storage = False, vd_external_linkage = False\<rparr>]))
       (Some (BinaryOperator BO_LT
          (ImplicitCastExpr CK_LValueToRValue (DeclRefExpr ''i'' IntType) IntType) (IntegerLiteral (APInt 32 3))))
       (Some (BinaryOperator BO_AddAssign (DeclRefExpr ''i'' IntType) (IntegerLiteral (APInt 32 1))))
       (ExprStmt (BinaryOperator BO_AddAssign (DeclRefExpr ''s'' IntType) (rd ''i'')))) s = Inr (NullVal, t)) \<and>
    rep std_host (file_prog fact_program) t ([[]], [(''top'', 3), (''s'', 3)], 0)"
proof -
  obtain s where s: "rep std_host (file_prog fact_program) s ([] @ [[]], [(''top'', 3), (''s'', 0)], Suc 0)"
    using fact_program_state [of "Suc 0"] by auto
  have body: "\<exists>gs' k'. a_exec (file_prog fact_program) n
      (ExprStmt (BinaryOperator BO_AddAssign (DeclRefExpr ''s'' IntType) (rd ''i'')))
      (gs @ [[(''i'', Some (num_value NUM_TYPE_INT (APInt 32 3) - int (Suc j)))]], k)
    = Some (Norm, gs' @ [[(''i'', Some (num_value NUM_TYPE_INT (APInt 32 3) - int (Suc j)))]], k') \<and>
      sum_values j gs' k'" if n: "Suc 0 \<le> n" and i: "sum_values (Suc j) gs k" for n j gs k
  proof -
    obtain n' where n': "n = Suc n'" using n by (cases n) auto
    have "j = 0 \<or> j = 1 \<or> j = 2" using i by (auto simp: sum_values_def)
    with i show ?thesis
      by (auto simp: n' sum_values_def rd_def a_defs)
  qed
  have z: "sum_values (nat (num_value NUM_TYPE_INT (APInt 32 3) - num_value NUM_TYPE_INT (APInt 32 0)))
      [[]] ([(''top'', 3), (''s'', 0)], 0)" by (simp add: sum_values_def lits)
  have f: "a_free (file_prog fact_program) ''i''" by (simp add: a_free_def fact_file)
  from counting_loop_ends [where I = sum_values and x = "''i''", OF std.llvm_host_axioms s f lits(1,3) _ z body]
  show ?thesis by (fastforce simp: sum_values_def lits)
qed

end
