(* ===== verification/Deviations.thy ===== *)
theory Deviations
  imports IntProgram
begin

text \<open>
  Where the interpreter departs from C in its statements: a \<open>break\<close> out of a loop, an
  initializer with a side effect, and labels right behind one another. The semantics of
  \<open>IntSem\<close> gives these no meaning; here is what the interpreter makes of them.
\<close>

section \<open>A break out of a loop\<close>







section \<open>Labels\<close>



section \<open>Properties\<close>







end
