(* ===== verification/ArrayProps.thy ===== *)
theory ArrayProps
  imports IntProgram
begin

text \<open>
  Local arrays of \<open>int\<close>. The storage that \<open>newarr\<close> makes is a list of uninitialized elements;
  but the conversion of an array to a pointer does not lead to it, so that an assignment to an
  element that C allows is reported.
\<close>

section \<open>Filling the storage\<close>

text \<open>A block for \<open>n\<close> elements of which \<open>m\<close> are written.\<close>

definition part_array :: "host \<Rightarrow> emu_state \<Rightarrow> u32 \<Rightarrow> nat \<Rightarrow> nat \<Rightarrow> bool" where
  "part_array H s i n m \<longleftrightarrow> (\<exists>b d. active_mem s i = Some b \<and> bid b = i \<and>
     memtype b \<noteq> MEM_TYPE_FREED \<and> bdata b = Some d \<and> bsize b = 8 * n \<and> length d = 8 * n \<and>
     (if m = 0 then firsttag b = None \<and> tags b = rbtree_empty
      else firsttag b = Some 0 \<and> uniform_tags IntType 8 m (tags b)) \<and> (\<forall>j < m. cell_at H d j None))"

lemma part_array_write:
  assumes "llvm_host H" and "part_array H s i n m" and "m < n" and "8 * n < 2 ^ 31"
  shows "\<exists>b. block_write H (BlkPtr i) (int_val H None) (8 * m) s
      = Inr ((), s\<lparr>active_mem := (active_mem s)(i := Some b)\<rparr>) \<and>
    part_array H (s\<lparr>active_mem := (active_mem s)(i := Some b)\<rparr>) i n (Suc m)"
proof -
  from assms(2) obtain b d where b: "active_mem s i = Some b" "bid b = i" "memtype b \<noteq> MEM_TYPE_FREED"
    "bdata b = Some d" "bsize b = 8 * n" "length d = 8 * n"
    and tg: "if m = 0 then firsttag b = None \<and> tags b = rbtree_empty
      else firsttag b = Some 0 \<and> uniform_tags IntType 8 m (tags b)"
    and c: "\<And>j. j < m \<Longrightarrow> cell_at H d j None" by (auto simp: part_array_def)
  obtain bs where bs: "dump_repr H (int_val H None) = Inr bs" "length bs = 8"
    and rb: "\<And>d j. 8 * j + 8 \<le> length d \<Longrightarrow> cell_at H (store_at d (8 * j) bs) j None"
    using int_val_repr [OF assms(1), of None] by blast
  have l: "8 * m + 8 \<le> 8 * n" using assms(3) by simp
  obtain tt where tt: "update_tag_write H IntType 8 (8 * m) (firsttag b) (tags b) = Inr (Some 0, tt)"
    and un: "uniform_tags IntType 8 (Suc m) tt"
  proof (cases "m = 0")
    case True
    with tg first_write [of IntType 8 H] that show thesis by auto
  next
    case False
    have "Suc m * 8 < 2 ^ 31" using l assms(4) by simp
    with False tg append_write [of IntType 8 m "tags b" H] that show thesis by (auto simp: mult.commute)
  qed
  let ?b = "b\<lparr>bdata := Some (store_at d (8 * m) bs), firsttag := Some 0, tags := tt\<rparr>"
  have "block_write H (BlkPtr i) (int_val H None) (8 * m) s
      = Inr ((), s\<lparr>active_mem := (active_mem s)(i := Some ?b)\<rparr>)"
    by (rule block_write_run [OF b(1,2,4) _ bs(1)]) (use b bs l tt in simp_all)
  moreover have "cell_at H (store_at d (8 * m) bs) j None" if "j < Suc m" for j
  proof (cases "j = m")
    case True
    then show ?thesis using rb [of m d] l b(6) by simp
  next
    case False
    then show ?thesis using cell_at_other [OF False, of d bs H None] c [of j] l b(6) bs(2) that by simp
  qed
  then have "part_array H (s\<lparr>active_mem := (active_mem s)(i := Some ?b)\<rparr>) i n (Suc m)"
    using b bs(2) un l by (simp add: part_array_def)
  ultimately show ?thesis by blast
qed

lemma part_array_fill:
  assumes "llvm_host H" and "8 * n < 2 ^ 31"
  shows "part_array H s i n m \<Longrightarrow> m + k = n \<Longrightarrow>
    \<exists>b. forM (map (\<lambda>j. j * 8) [m..<n]) (\<lambda>j. block_write H (BlkPtr i) (int_val H None) j) s
        = Inr ((), s\<lparr>active_mem := (active_mem s)(i := Some b)\<rparr>) \<and>
      part_array H (s\<lparr>active_mem := (active_mem s)(i := Some b)\<rparr>) i n n"
proof (induction k arbitrary: s m)
  case 0
  then obtain b where "active_mem s i = Some b" by (auto simp: part_array_def)
  then have e: "s\<lparr>active_mem := (active_mem s)(i := Some b)\<rparr> = s" by (simp add: fun_upd_idem)
  show ?case using 0 by (intro exI [of _ b]) (simp add: run_simps e del: fun_upd_apply)
next
  case (Suc k)
  then have m: "m < n" by simp
  from part_array_write [OF assms(1) Suc.prems(1) m assms(2)] obtain b where
    w: "block_write H (BlkPtr i) (int_val H None) (8 * m) s
      = Inr ((), s\<lparr>active_mem := (active_mem s)(i := Some b)\<rparr>)"
    and p: "part_array H (s\<lparr>active_mem := (active_mem s)(i := Some b)\<rparr>) i n (Suc m)" by blast
  let ?s = "s\<lparr>active_mem := (active_mem s)(i := Some b)\<rparr>"
  have "Suc m + k = n" using Suc.prems(2) by simp
  from Suc.IH [OF p this] obtain c where
    c: "forM (map (\<lambda>j. j * 8) [Suc m..<n]) (\<lambda>j. block_write H (BlkPtr i) (int_val H None) j) ?s
      = Inr ((), ?s\<lparr>active_mem := (active_mem ?s)(i := Some c)\<rparr>)"
    "part_array H (?s\<lparr>active_mem := (active_mem ?s)(i := Some c)\<rparr>) i n n" by blast
  have e: "?s\<lparr>active_mem := (active_mem ?s)(i := Some c)\<rparr> = s\<lparr>active_mem := (active_mem s)(i := Some c)\<rparr>" by simp
  have "forM (map (\<lambda>j. j * 8) [m..<n]) (\<lambda>j. block_write H (BlkPtr i) (int_val H None) j) s
      = Inr ((), s\<lparr>active_mem := (active_mem s)(i := Some c)\<rparr>)"
    unfolding upt_conv_Cons [OF m] using w c(1) unfolding e
    by (simp add: run_simps mult.commute del: fun_upd_apply)
  with c(2) show ?case unfolding e by blast
qed

text \<open>\<open>newarr\<close> for \<open>int\<close> elements without a value.\<close>

lemma newarr_run:
  assumes "llvm_host H" and "0 < n" and "8 * n < 2 ^ 31" and "id_counter s \<noteq> 0"
  shows "\<exists>b. newarr_fill H q (int_val H None) n s = Inr (ptr_of_mem_ptr (BlkPtr (id_counter s)) 0 q,
        s\<lparr>id_counter := id_counter s + 1, active_mem := (active_mem s)(id_counter s := Some b)\<rparr>) \<and>
      int_array H (s\<lparr>id_counter := id_counter s + 1, active_mem := (active_mem s)(id_counter s := Some b)\<rparr>)
        (id_counter s) (replicate n None)"
proof -
  let ?i = "id_counter s" and ?ty = "if static_init s then MEM_TYPE_GLOBAL else MEM_TYPE_STACK"
  let ?u = "s\<lparr>id_counter := ?i + 1, active_mem := (active_mem s)(?i := Some (fresh_block H ?i ?ty (8 * n)))\<rparr>"
  have "part_array H ?u ?i n 0" by (simp add: part_array_def fresh_block_def)
  from part_array_fill [OF assms(1,3) this, of n] obtain b where
    f: "forM (map (\<lambda>j. j * 8) [0..<n]) (\<lambda>j. block_write H (BlkPtr ?i) (int_val H None) j) ?u
        = Inr ((), s\<lparr>id_counter := ?i + 1, active_mem := (active_mem s)(?i := Some b)\<rparr>)"
    and p: "part_array H (s\<lparr>id_counter := ?i + 1, active_mem := (active_mem s)(?i := Some b)\<rparr>) ?i n n" by auto
  have "n \<le> SIZE_MAX div 8" using assms(3) by simp
  then have "newarr_fill H q (int_val H None) n s = Inr (ptr_of_mem_ptr (BlkPtr ?i) 0 q,
        s\<lparr>id_counter := ?i + 1, active_mem := (active_mem s)(?i := Some b)\<rparr>)"
    using f assms(3,4) by (simp add: newarr_fill_def run_simps block_of_size_run PTRDIFF_MAX_def)
  moreover have "int_array H (s\<lparr>id_counter := ?i + 1, active_mem := (active_mem s)(?i := Some b)\<rparr>) ?i
      (replicate n None)"
    using p assms(2) by (auto simp: part_array_def int_array_def)
  ultimately show ?thesis by blast
qed

section \<open>A local array\<close>

text \<open>A name just added to the stack is found.\<close>

lemma declref_new:
  assumes "stack_inv s" and "add_stack_var nm l s = Inr ((), t)"
  shows "eval_declref nm t = Inr (l, t)"
proof -
  from assms(2) obtain fs f where fs: "stack_vars s = fs @ [f]" and t: "stack_vars t = fs @ [f @ [(nm, l)]]"
    by (rule add_stack_var_Inr)
  have p: "stack_pos nm (stack_vars t) = stack_pos nm fs @ frame_pos nm (length fs) f @ [(length fs, length f)]"
    by (simp add: t stack_pos_snoc frame_pos_snoc)
  have "stack_var_map t nm = Some (stack_pos nm (stack_vars t))"
    using stack_inv_add [OF assms] p by (simp add: stack_inv_def index_entry_def)
  then show ?thesis unfolding p by (simp add: eval_declref_def run_simps stack_entry_def t)
qed

text \<open>
  The declaration \<open>int a[n];\<close> makes the storage of the array, a list of uninitialized elements,
  and a variable in a block of its own that holds a pointer to it.
\<close>

lemma array_decl_run:
  assumes "llvm_host H" and "0 < n" and "8 * n < 2 ^ 31" and "next_id s + 2 \<le> 2 ^ 32" and "stack_inv s"
    and f: "stack_vars s = fs @ [f]"
    and v: "vd_type v = QConstantArray IntType n" "vd_init v = None"
  obtains t b where "\<And>ev. exec_decl H ev (VarDecl v) s = Inr ((), t)"
    and "eval_declref (vd_name v) t = Inr (lvalue_of (BlkPtr (id_counter s + 1)) (QConstantArray IntType n) 0, t)"
    and "active_mem t (id_counter s + 1) = Some b" and "bsize b = 16" and "memtype b \<noteq> MEM_TYPE_FREED"
    and "bdata b \<noteq> None" and "int_array H t (id_counter s) (replicate n None)"
proof -
  let ?i = "id_counter s" and ?q = "QConstantArray IntType n"
  have u: "?i \<noteq> 0" "unat ?i + 2 \<le> 2 ^ 32" using assms(4) by (auto simp: next_id_def split: if_splits)
  then have "unat (?i + 1) = unat ?i + 1" by (simp add: unat_word_ariths)
  then have nz: "?i \<noteq> 0" "?i + 1 \<noteq> 0" "?i + 1 \<noteq> ?i" using u(1) by auto
  from newarr_run [OF assms(1-3) nz(1), of ?q] obtain a where
    n: "newarr_fill H ?q (int_val H None) n s = Inr (ptr_of_mem_ptr (BlkPtr ?i) 0 ?q,
        s\<lparr>id_counter := ?i + 1, active_mem := (active_mem s)(?i := Some a)\<rparr>)"
    and ia: "int_array H (s\<lparr>id_counter := ?i + 1, active_mem := (active_mem s)(?i := Some a)\<rparr>) ?i (replicate n None)"
    by blast
  let ?p = "ptr_of_mem_ptr (BlkPtr ?i) 0 ?q"
  let ?s = "s\<lparr>id_counter := ?i + 1, active_mem := (active_mem s)(?i := Some a)\<rparr>"
  let ?bs = "bytes_u32 EMU_TYPE_PTR_ID @ bytes_u32 ?i @ bytes_u64 0"
  have id: "id_counter ?s \<noteq> 0" using nz(2) by simp
  obtain b where bv: "block_of_value H MEM_TYPE_STACK ?p ?s = Inr (BlkPtr (id_counter ?s),
      ?s\<lparr>id_counter := id_counter ?s + 1, active_mem := (active_mem ?s)(id_counter ?s := Some b)\<rparr>)"
    and b: "memtype b = MEM_TYPE_STACK" "bsize b = 16" "bdata b = Some ?bs"
    by (rule block_of_value_run [of ?p 16 H ?bs ?s MEM_TYPE_STACK])
      (use id in \<open>auto simp: ptr_of_mem_ptr_def ptr_dump_def emu_size_defs\<close>)
  let ?u = "?s\<lparr>id_counter := id_counter ?s + 1, active_mem := (active_mem ?s)(id_counter ?s := Some b)\<rparr>"
  have su: "stack_vars ?u = fs @ [f]" "stack_inv ?u" using f assms(5) by (simp_all add: stack_inv_def)
  obtain t where t: "add_stack_var (vd_name v) (lvalue_of (BlkPtr (?i + 1)) ?q 0) ?u = Inr ((), t)"
    and m: "active_mem t = active_mem ?u" using add_stack_var_run [OF su(1)] by auto
  have "load_at H ev (lvalue_of NullBlk ?q 0) s = Inr (?p, ?s)" for ev
    using n by (simp add: load_at_def load_def lvalue_of_def load_loc_def run_simps load_num_def int_val_def)
  then have "exec_decl H ev (VarDecl v) s = Inr ((), t)" for ev
    using bv t unfolding exec_decl_def decl.case v option.case
    by (simp add: run_bind ptr_of_mem_ptr_def)
  moreover have "int_array H t ?i (replicate n None)"
    using ia int_array_cong [of t ?i ?s] nz(3) by (simp add: m)
  moreover have "active_mem t (?i + 1) = Some b" by (simp add: m)
  ultimately show thesis using that declref_new [OF su(2) t] b by auto
qed

section \<open>Elements\<close>

text \<open>An element of an array, and where the interpreter finds it.\<close>

definition array_element :: "string \<Rightarrow> qtype \<Rightarrow> apint \<Rightarrow> expr" where
  "array_element nm q k = ArraySubscriptExpr
     (ImplicitCastExpr CK_ArrayToPointerDecay (DeclRefExpr nm q) (QPointer IntType)) (IntegerLiteral k)"

lemma element_offset:
  assumes "0 \<le> z" and "z < 2 ^ 31" and "w = (of_int (8 * z) :: u64)"
  shows "sint w = 8 * z" and "unat w = nat (8 * z)"
proof -
  have "signed_take_bit 63 (8 * z) = 8 * z" using assms(1,2) by (intro signed_take_bit_int_eq_self) simp_all
  then show "sint w = 8 * z" unfolding assms(3) signed_of_int by simp
  have "uint w = 8 * z" using assms unfolding assms(3) uint_word_of_int by (intro mod_pos_pos_trivial) simp_all
  then show "unat w = nat (8 * z)" by (simp add: unat_eq_nat_uint)
qed

lemma subscript_run:
  assumes "rvalue ev b t = Inr (ptr_of_mem_ptr (BlkPtr j) 0 (QPointer IntType), t)"
    and "rvalue ev i t = Inr (int_num k, t)" and "ap_get_sext H k = of_int z"
    and "0 \<le> z" and "z < 2 ^ 31"
  shows "eval_subscript H ev b i t = Inr (lvalue_of (BlkPtr j) IntType (nat (8 * z)), t)"
proof -
  have "of_nat 8 * ap_get_sext H k + 0 = (of_int (8 * z) :: u64)" by (simp add: assms(3))
  note o = element_offset [OF assms(4,5) this]
  have "\<not> sint (of_nat 8 * ap_get_sext H k + 0 :: u64) < 0" unfolding o using assms(4) by simp
  then show ?thesis
    using assms(1,2) o(2)
    by (simp add: eval_subscript_def run_simps ptr_of_mem_ptr_def num_of_apint_def bytes_in_num_type_def Let_def)
qed

lemma element_run:
  assumes "llvm_host H" and d: "eval_declref nm t = Inr (lvalue_of (BlkPtr j) q 0, t)"
    and k: "ap_fits NUM_TYPE_INT k" and "0 \<le> num_value NUM_TYPE_INT k"
  shows "runs H (\<lambda>ev. lexpr ev (array_element nm q k)) t
    (lvalue_of (BlkPtr j) IntType (nat (8 * num_value NUM_TYPE_INT k))) t"
proof -
  let ?p = "ptr_of_mem_ptr (BlkPtr j) 0 (QPointer IntType)"
  let ?o = "of_int (8 * num_value NUM_TYPE_INT k) :: u64"
  have base: "runs H (\<lambda>ev. rvalue ev (ImplicitCastExpr CK_ArrayToPointerDecay (DeclRefExpr nm q) (QPointer IntType))) t ?p t"
    by (rule runs_rvalue, rule runs_rexpr, rule runs_mono [OF runs_declref [OF d, where q = q]])
      (simp add: eval_rexpr_def eval_cast_def run_simps lvalue_of_def)
  have idx: "runs H (\<lambda>ev. rvalue ev (IntegerLiteral k)) t (int_num k) t"
    by (rule runs_rvalue, rule runs_rexpr, rule runs_cong [THEN iffD1, OF _ runs_const])
      (simp_all add: eval_rexpr_def literal_value [OF assms(1) k] run_simps)
  have "ap_get_sext H k = of_int (num_value NUM_TYPE_INT k)"
    using llvm_host.get_sext [OF assms(1), of k] k by (simp add: num_value_def ap_fits_def)
  note sub = subscript_run [OF _ _ this assms(4) value_range32(2) [OF k]]
  show ?thesis
    unfolding array_element_def
    by (rule runs_lexpr, rule runs_mono2 [OF base idx]) (simp add: eval_lexpr_def sub)
qed

text \<open>A write past the end of a block.\<close>

lemma write_outside:
  assumes "active_mem t j = Some b" and "bsize b < off + 8"
  shows "block_write H (BlkPtr j) (int_num x) off t = Inl BadMemWrite"
proof -
  have "off \<le> bsize b \<Longrightarrow> bsize b - off < 8" using assms(2) by linarith
  then show ?thesis using assms(1)
    by (cases "off \<le> bsize b") (simp_all add: block_write_def run_simps Let_def num_of_apint_def)
qed

section \<open>Properties\<close>

text \<open>C27: Local arrays. The declaration \<open>int a[n];\<close> makes a block that is a list of \<open>n\<close>
  uninitialized elements, and a variable of its own for the pointer to it. But the element
  \<open>a[k]\<close> is looked for in the block of the variable, which has the size of a pointer: every
  assignment to an element from the third on ends the process with a bad write, although C
  allows it.\<close>

theorem local_array_write_reported:
  assumes "llvm_host H" and "stack_inv s" and "stack_vars s \<noteq> []" and "next_id s + 2 \<le> 2 ^ 32"
    and "8 * n < 2 ^ 31" and k: "ap_fits NUM_TYPE_INT k" "2 \<le> num_value NUM_TYPE_INT k"
    and "num_value NUM_TYPE_INT k < int n" and x: "ap_fits NUM_TYPE_INT x"
  shows "\<exists>t. (\<forall>ev. exec_decl H ev (VarDecl \<lparr>vd_name = nm, vd_type = QConstantArray IntType n, vd_init = None,
        vd_extern_storage = False, vd_external_linkage = False\<rparr>) s = Inr ((), t)) \<and>
    int_array H t (id_counter s) (replicate n None) \<and>
    (\<exists>m. \<forall>j \<ge> m. rexpr (interp H j) (BinaryOperator BO_Assign
       (array_element nm (QConstantArray IntType n) k) (IntegerLiteral x)) t = Inl BadMemWrite)"
proof -
  let ?v = "\<lparr>vd_name = nm, vd_type = QConstantArray IntType n, vd_init = None,
    vd_extern_storage = False, vd_external_linkage = False\<rparr>"
  let ?e = "array_element nm (QConstantArray IntType n) k"
  obtain fs f where f: "stack_vars s = fs @ [f]" using assms(3) by (metis rev_exhaust)
  have n: "0 < n" using k(2) assms(8) by linarith
  have v: "vd_type ?v = QConstantArray IntType n" "vd_init ?v = None" "vd_name ?v = nm" by simp_all
  obtain t b where t: "\<And>ev. exec_decl H ev (VarDecl ?v) s = Inr ((), t)"
    and d: "eval_declref nm t = Inr (lvalue_of (BlkPtr (id_counter s + 1)) (QConstantArray IntType n) 0, t)"
    and b: "active_mem t (id_counter s + 1) = Some b" "bsize b = 16"
    and ia: "int_array H t (id_counter s) (replicate n None)"
    by (rule array_decl_run [OF assms(1) n assms(5,4,2) f v(1,2), unfolded v(3)]) blast
  have "0 \<le> num_value NUM_TYPE_INT k" using k(2) by simp
  from element_run [OF assms(1) d k(1) this] have l: "runs H (\<lambda>ev. lexpr ev ?e) t
    (lvalue_of (BlkPtr (id_counter s + 1)) IntType (nat (8 * num_value NUM_TYPE_INT k))) t" .
  have r: "runs H (\<lambda>ev. rexpr ev (IntegerLiteral x)) t (Val (int_num x)) t"
    by (rule runs_rexpr, rule runs_cong [THEN iffD1, OF _ runs_const])
      (simp_all add: eval_rexpr_def literal_value [OF assms(1) x] run_simps)
  obtain z where z: "emu_cast_to H (int_num x) IntType = Inr (int_num z)" using int_cast_self [OF assms(1) x] by metis
  have w: "block_write H (BlkPtr (id_counter s + 1)) (int_num z) (nat (8 * num_value NUM_TYPE_INT k)) t = Inl BadMemWrite"
    using k(2) by (intro write_outside [OF b(1)]) (simp add: b(2))
  have "eventually (\<lambda>j. eval_rexpr H (interp H j) (BinaryOperator BO_Assign ?e (IntegerLiteral x)) t
      = Inl BadMemWrite) sequentially"
    using eventually_conj [OF l [unfolded runs_def] r [unfolded runs_def]]
    by (rule eventually_mono)
      (simp add: eval_rexpr_def eval_binary_def eval_assign_def run_simps lvalue_of_def z w)
  then have "eventually (\<lambda>j. rexpr (interp H (Suc j)) (BinaryOperator BO_Assign ?e (IntegerLiteral x)) t
      = Inl BadMemWrite) sequentially" by (simp add: interp_step_def)
  then have "eventually (\<lambda>j. rexpr (interp H j) (BinaryOperator BO_Assign ?e (IntegerLiteral x)) t
      = Inl BadMemWrite) sequentially" by (rule eventually_sequentially_Suc [THEN iffD1])
  with t ia show ?thesis by (auto simp: eventually_sequentially)
qed

theorem local_array_write_reported_witness:
  "\<exists>s t m. \<forall>j \<ge> m. exec_decl std_host (interp std_host j) (VarDecl \<lparr>vd_name = ''a'',
        vd_type = QConstantArray IntType 3, vd_init = None,
        vd_extern_storage = False, vd_external_linkage = False\<rparr>) s = Inr ((), t) \<and>
     rexpr (interp std_host j) (BinaryOperator BO_Assign
       (array_element ''a'' (QConstantArray IntType 3) (APInt 32 2)) (IntegerLiteral (APInt 32 7))) t = Inl BadMemWrite"
proof -
  let ?s = "init_state\<lparr>stack_vars := [[]]\<rparr>"
  have "stack_inv ?s" using stack_inv_frame [OF stack_inv_init] by (simp add: init_state_def)
  moreover have "next_id ?s + 2 \<le> 2 ^ 32" by (simp add: init_state_def next_id_def block_id_defs)
  moreover have "ap_fits NUM_TYPE_INT (APInt 32 7)" by (simp add: ap_fits_def ap_wf_def)
  ultimately show ?thesis
    using local_array_write_reported [OF std.llvm_host_axioms, of ?s 3 "APInt 32 2" "APInt 32 7" "''a''"]
    by (simp add: lits) blast
qed

end
