(* ===== verification/CastProps.thy ===== *)
theory CastProps
  imports Casts RoundTrip
begin

text \<open>
  Zero values: \<open>zero_init\<close> makes a value that has the type asked for, in every member, and
  takes as many bytes as \<open>getSizeOf\<close> says.
\<close>

section \<open>Values of a type\<close>

text \<open>A defined value of the structure a type asks for; a number has the width of its type.\<close>

fun conforms :: "host \<Rightarrow> qtype \<Rightarrow> emu_val \<Rightarrow> bool" and conform_members :: "host \<Rightarrow> members \<Rightarrow> emu_val list \<Rightarrow> bool" where
  "conforms H (QBuiltin k) v \<longleftrightarrow> (case v of
     EmuNum s T n r \<Rightarrow> s = STATUS_DEFINED \<and> type_from_num_type T = QBuiltin k \<and> ap_fits T n
   | _ \<Rightarrow> False)"
| "conforms H (QPointer t) v \<longleftrightarrow> (case v of
     EmuPtr s q u off \<Rightarrow> s = STATUS_DEFINED \<and> q = QPointer t | _ \<Rightarrow> False)"
| "conforms H (QConstantArray t n) v \<longleftrightarrow> (case v of
     EmuStruct s q r ms \<Rightarrow> s = STATUS_DEFINED \<and> q = QConstantArray t n \<and> length ms = n \<and>
       list_all (conforms H t) ms
   | _ \<Rightarrow> False)"
| "conforms H (QStruct nm m) v \<longleftrightarrow> (case v of
     EmuStruct s q r ms \<Rightarrow> s = STATUS_DEFINED \<and> q = QStruct nm m \<and> conform_members H m ms
   | _ \<Rightarrow> False)"
| "conforms H (QUndefStruct nm) v \<longleftrightarrow> (case v of
     EmuStruct s q r ms \<Rightarrow> s = STATUS_DEFINED \<and> q = QUndefStruct nm \<and> ms = [] | _ \<Rightarrow> False)"
| "conforms H _ v \<longleftrightarrow> False"
| "conform_members H MNil ms \<longleftrightarrow> ms = []"
| "conform_members H (MField t m) ms \<longleftrightarrow> (case ms of [] \<Rightarrow> False
     | v # vs \<Rightarrow> conforms H t v \<and> conform_members H m vs)"
| "conform_members H (MNonValue m) ms \<longleftrightarrow> False"

text \<open>
  The types without unions, without the two spellings of character types that have no number
  type of their own, and with array lengths that fit an \<open>unsigned int\<close>.
\<close>

fun simple_type :: "qtype \<Rightarrow> bool" and simple_members :: "members \<Rightarrow> bool" where
  "simple_type (QBuiltin k) \<longleftrightarrow> k \<noteq> BK_SChar \<and> k \<noteq> BK_Char_U"
| "simple_type (QConstantArray t n) \<longleftrightarrow> simple_type t \<and> n < 2 ^ 32"
| "simple_type (QStruct s m) \<longleftrightarrow> simple_members m"
| "simple_type (QUnion s m) \<longleftrightarrow> False"
| "simple_type _ \<longleftrightarrow> True"
| "simple_members MNil \<longleftrightarrow> True"
| "simple_members (MField t m) \<longleftrightarrow> simple_type t \<and> simple_members m"
| "simple_members (MNonValue m) \<longleftrightarrow> simple_members m"

section \<open>Zero values\<close>

lemma conforms_obj_type: "conforms H q v \<Longrightarrow> obj_type H v = q \<and> emu_status v = STATUS_DEFINED"
  by (cases q; cases v) auto

lemma sz_sz_add [simp]: "sz (sz a + b) = sz (a + b)" "sz (a + sz b) = sz (a + b)"
  by (simp_all add: sz_def mod_simps)

lemma emu_sizes_replicate:
  "emu_size z = Inr k \<Longrightarrow> emu_sizes (replicate n z) (sz acc) = Inr (sz (acc + n * k))"
  by (induction n arbitrary: acc) (simp_all add: res_bind_def algebra_simps)

lemma getNumType_simple:
  assumes "getNumType (QBuiltin k) = Inr t" and "k \<noteq> BK_SChar" and "k \<noteq> BK_Char_U"
  shows "type_from_num_type t = QBuiltin k"
  using assms by (cases k) auto

lemma zero_correct:
  assumes "llvm_host H"
  shows "getSizeOf q = Inr k \<Longrightarrow> simple_type q \<Longrightarrow>
      \<exists>v. zero_init H q = Inr v \<and> conforms H q v \<and> emu_size v = Inr k"
    and "struct_size m acc = Inr k \<Longrightarrow> simple_members m \<Longrightarrow> acc < 2 ^ 64 \<Longrightarrow>
      \<exists>vs. zero_members H m = Inr vs \<and> conform_members H m vs \<and> emu_sizes vs acc = Inr k"
    and "union_size m acc' = Inr k \<Longrightarrow> True"
proof (induction q and m acc and m acc' arbitrary: k and k and k rule: getSizeOf_struct_size_union_size.induct)
  case (1 b)
  then have i: "builtin_is_integer b" by (auto split: if_splits)
  with 1 obtain t where t: "getNumType (QBuiltin b) = Inr t" and k: "k = 4 + bytes_in_num_type t"
    by (auto simp: res_bind_def split: sum.splits)
  have "ap_fits t (ap_new H (bits_in_num_type t) 0 (is_num_type_signed t))"
    using llvm_host.new [OF assms, of "bits_in_num_type t"] by (simp add: ap_fits_def)
  with i t k getNumType_simple [OF t] 1 show ?case
    by (simp add: res_bind_def num_of_apint_def bytes_in_num_type_def)
next
  case (2 t)
  then show ?case by (simp add: ptr_of_mem_ptr_def)
next
  case (3 t n)
  then obtain sub where s: "getSizeOf t = Inr sub" and k: "k = sz (n * sub + 4)"
    by (auto simp: res_bind_def split: sum.splits)
  from "3.IH" [OF s] "3.prems"(2) obtain z where z: "zero_init H t = Inr z" "conforms H t z"
    "emu_size z = Inr sub" by auto
  have n: "n mod 2 ^ 32 = n" using "3.prems"(2) by simp
  have "zero_init H (QConstantArray t n) = Inr (zero_struct (QConstantArray t n) (replicate n z))"
    using z(1) by (simp add: n [simplified] res_bind_def)
  moreover have "emu_sizes (replicate n z) 4 = Inr k"
    using emu_sizes_replicate [OF z(3), of n 4] k by (simp add: add.commute)
  ultimately show ?case using z(2) by (simp add: zero_struct_def list_all_iff)
next
  case (4 s m)
  then have "struct_size m 4 = Inr k" "simple_members m" by auto
  from "4.IH" [OF this] obtain vs where "zero_members H m = Inr vs" "conform_members H m vs"
    "emu_sizes vs 4 = Inr k" by auto
  then show ?case by (simp add: res_bind_def zero_struct_def)
next
  case (5 s)
  then show ?case by (simp add: zero_struct_def)
next
  case (11 t m acc)
  then obtain j where j: "getSizeOf t = Inr j" and m: "struct_size m (sz (acc + j)) = Inr k"
    by (auto simp: res_bind_def split: sum.splits)
  from "11.IH"(1) [OF j] "11.prems"(2) obtain v where v: "zero_init H t = Inr v" "conforms H t v"
    "emu_size v = Inr j" by auto
  from "11.IH"(2) [OF m] "11.prems"(2) sz_lt obtain vs where
    "zero_members H m = Inr vs" "conform_members H m vs" "emu_sizes vs (sz (acc + j)) = Inr k" by auto
  with v show ?case by (simp add: res_bind_def)
qed auto

section \<open>Properties\<close>

text \<open>C21: Zero values have their type. For a type whose size \<open>getSizeOf\<close> knows, and that has nowhere
  inside a union, the types \<open>signed char\<close> or plain \<open>char\<close> where it is unsigned, or an array of
  \<open>2 ^ 32\<close> or more elements, \<open>zero_init\<close> makes a defined value of this very type, with as many
  elements or members as the type has and each of them of its type, whose size is the one
  \<open>getSizeOf\<close> gives, also where the sizes wrap around.\<close>

theorem zero_init_typed:
  assumes "llvm_host H" and "simple_type q" and "getSizeOf q = Inr k"
  shows "\<exists>v. zero_init H q = Inr v \<and> obj_type H v = q \<and> conforms H q v \<and> emu_size v = Inr k"
  using zero_correct(1) [OF assms(1,3,2)] conforms_obj_type by blast

theorem zero_init_typed_witness:
  "\<exists>v. zero_init std_host (QStruct ''s'' (MField IntType (MField (QConstantArray CharType 3) MNil))) = Inr v \<and>
     emu_size v = Inr 31"
  using zero_init_typed [OF std.llvm_host_axioms,
      of "QStruct ''s'' (MField IntType (MField (QConstantArray CharType 3) MNil))" 31]
  by (auto simp: res_bind_def bytes_in_num_type_def)

end
