(* ===== verification/Debug.thy ===== *)
theory Debug
  imports Interp
begin

text \<open>
  The dump of the state for a front end (\<open>debug.cpp\<close>) and the printing of values (\<open>print\<close>
  and \<open>print_impl\<close> in \<open>types.h\<close> and \<open>types.cpp\<close>): a JSON text on the standard output, with
  the global variables, the frames of the stack and the blocks of the memory. What the code
  takes from outside is the record \<open>debug_env\<close>: the line of the current location, the
  names of types, the digits of an \<open>APInt\<close>, and the order in which the unordered maps are
  walked. The lines written to the standard error are left out.
\<close>

section \<open>Text\<close>

text \<open>An unsigned number on a \<open>raw_ostream\<close>.\<close>

fun decimal :: "nat \<Rightarrow> string" where
  "decimal n = (if n < 10 then [char_of (48 + n)] else decimal (n div 10) @ [char_of (48 + n mod 10)])"

declare decimal.simps [simp del]

definition quoted :: "string \<Rightarrow> string" where
  "quoted s = [CHR 0x22] @ s @ [CHR 0x22]"

text \<open>What is written before an element, by the flag that says whether it is the first.\<close>

definition comma :: "bool \<Rightarrow> string" where
  "comma first = (if first then [] else line '','')"

section \<open>Printing values\<close>

record debug_env =
  spelling_line :: u32
  type_string :: "qtype \<Rightarrow> string"
  apint_string :: "apint \<Rightarrow> string"
  locals_order :: "(string \<Rightarrow> lvalue option) \<Rightarrow> (string \<times> lvalue) list"
  memory_order :: "(u32 \<Rightarrow> mem_block option) \<Rightarrow> mem_block list"

definition print_impl :: "debug_env \<Rightarrow> emu_val \<Rightarrow> string emu" where
  "print_impl E v = (case v of
     EmuNum s T n r \<Rightarrow> ret (apint_string E n)
   | EmuPtr s q u off \<Rightarrow> bindM (get_block (union_block u)) (\<lambda>b.
       ret (''<ptr to block '' @ decimal (unat (bid b)) @ '' offset '' @ decimal (unat off) @ ''>''))
   | EmuFunc s q r f \<Rightarrow> ret ''<function machine code>''
   | EmuVoid \<Rightarrow> ret ''<void>''
   | EmuStackPos s r l n \<Rightarrow> ret (line (''(reference to variable at stack frame '' @
       decimal (unat l) @ '' number '' @ decimal (unat n)))
   | EmuStruct s q r ms \<Rightarrow> ret ''<struct>'')"

definition print_val :: "debug_env \<Rightarrow> emu_val \<Rightarrow> string emu" where
  "print_val E v = (case emu_status v of
     STATUS_UNDEFINED \<Rightarrow> ret ''(undefined)''
   | STATUS_UNINITIALIZED \<Rightarrow> ret ''(uninitialized)''
   | STATUS_DEFINED \<Rightarrow> print_impl E v)"

section \<open>Global variables and frames\<close>

text \<open>A loop over the variables of a file whose block is not that of an undefined function.\<close>

fun dump_globals :: "(string \<Rightarrow> u32 \<Rightarrow> string) \<Rightarrow> bool \<Rightarrow> (string \<times> lvalue) list \<Rightarrow> string emu" where
  "dump_globals f first [] = ret []"
| "dump_globals f first (v # vs) = bindM (get_block (lblock (snd v))) (\<lambda>b.
     if memtype b \<noteq> MEM_TYPE_INVALID
     then bindM (dump_globals f False vs) (\<lambda>out. ret (comma first @ f (fst v) (bid b) @ out))
     else dump_globals f first vs)"

definition global_name :: "string \<Rightarrow> u32 \<Rightarrow> string" where
  "global_name nm i = quoted nm"

definition global_ref :: "string \<Rightarrow> u32 \<Rightarrow> string" where
  "global_ref nm i = quoted nm @ '': ['' @ quoted ''REF'' @ '', '' @ decimal (unat i) @ '']''"

text \<open>The key of a local variable: its type and name.\<close>

definition local_key :: "debug_env \<Rightarrow> string \<times> lvalue \<Rightarrow> string" where
  "local_key E v = quoted (type_string E (ltype (snd v)) @ '' '' @ fst v)"

fun dump_locals :: "debug_env \<Rightarrow> bool \<Rightarrow> (string \<times> lvalue) list \<Rightarrow> string emu" where
  "dump_locals E first [] = ret []"
| "dump_locals E first (v # vs) = bindM (get_block (lblock (snd v))) (\<lambda>b.
     bindM (dump_locals E False vs) (\<lambda>out. ret (comma first @ local_key E v @ '': ['' @ quoted ''REF'' @
       '', '' @ decimal (unat (bid b)) @ '']'' @ out)))"

fun dump_names :: "debug_env \<Rightarrow> bool \<Rightarrow> (string \<times> lvalue) list \<Rightarrow> string" where
  "dump_names E first [] = []"
| "dump_names E first (v # vs) = comma first @ local_key E v @ dump_names E False vs"

text \<open>The text of a frame around its variables; the hash has the number of the next frame.\<close>

definition frame_text :: "nat \<Rightarrow> string \<Rightarrow> string \<Rightarrow> string" where
  "frame_text n locals names =
     line ''{'' @ quoted ''frame_id'' @ '': '' @ decimal n @ line '','' @
     quoted ''encoded_locals'' @ line '': {'' @ locals @ line [] @ line ''},'' @
     quoted ''is_highlighted'' @ line '': false,'' @ quoted ''is_parent'' @ line '': false,'' @
     quoted ''func_name'' @ '': '' @ quoted ''unnamed'' @ line '','' @
     quoted ''is_zombie'' @ line '': false,'' @ quoted ''parent_frame_id_list'' @ line '': [],'' @
     quoted ''unique_hash'' @ '': '' @ quoted (''func_'' @ decimal (n + 1)) @ line '','' @
     quoted ''ordered_varnames'' @ line '': ['' @ names @ line [] @ line '']'' @ ''}''"

text \<open>The frames that have variables, numbered from the number given.\<close>

fun dump_frames :: "debug_env \<Rightarrow> bool \<Rightarrow> nat \<Rightarrow> (string \<times> lvalue) list list \<Rightarrow> string emu" where
  "dump_frames E first n [] = ret []"
| "dump_frames E first n (f # fs) =
     (if f = [] then dump_frames E first n fs
      else bindM (dump_locals E True f) (\<lambda>locals.
        bindM (dump_frames E False (n + 1) fs) (\<lambda>out.
          ret (comma first @ frame_text n locals (dump_names E True f) @ out))))"

section \<open>The memory\<close>

text \<open>The name of a kind of block; blocks of the other kinds are left out.\<close>

fun type_desc :: "mem_type_t \<Rightarrow> string option" where
  "type_desc MEM_TYPE_STATIC = Some ''STATIC''"
| "type_desc MEM_TYPE_GLOBAL = Some ''GLOBAL''"
| "type_desc MEM_TYPE_HEAP = Some ''HEAP''"
| "type_desc MEM_TYPE_STACK = Some ''STACK''"
| "type_desc MEM_TYPE_EXTERN = Some ''EXTERN''"
| "type_desc _ = None"

text \<open>
  The tags of a block, through the \<open>next\<close> pointers. The loop of the source does not end on
  a cyclic list; a list without repetition is no longer than the number of nodes allocated.
\<close>

fun tag_list :: "nat \<Rightarrow> tag_tree \<Rightarrow> nat option \<Rightarrow> mem_tag list res" where
  "tag_list n t None = Inr []"
| "tag_list 0 t (Some a) = Inl OutOfFuel"
| "tag_list (Suc n) t (Some a) = (case get_tag (Some a) t of
     Inl e \<Rightarrow> Inl e
   | Inr (v, t') \<Rightarrow> res_bind (tag_list n t (tnext v)) (\<lambda>vs. Inr (v # vs)))"

definition block_tags :: "mem_block \<Rightarrow> mem_tag list res" where
  "block_tags b = tag_list (next_addr (tags b)) (tags b) (firsttag b)"

definition object_name :: "mem_block \<Rightarrow> nat \<Rightarrow> string" where
  "object_name b pos = decimal (unat (bid b)) @ ''O'' @ decimal pos"

definition gap_text :: "nat \<Rightarrow> string" where
  "gap_text n = line ('',['' @ quoted [] @ '','' @ quoted (decimal n @ '' bytes uninitialized'') @ '']'')"

text \<open>
  The entries of a block and the position after them. The position grows by the bytes of
  the objects only, not by the gap before them.
\<close>

fun dump_tags :: "mem_block \<Rightarrow> nat \<Rightarrow> mem_tag list \<Rightarrow> string \<times> nat" where
  "dump_tags b currpos [] = ([], currpos)"
| "dump_tags b currpos (t # ts) = (let pos = toffset t;
     (out, last) = dump_tags b (sz (currpos + typesize t * tcount t)) ts in
     ((if pos > currpos then gap_text (pos - currpos) else []) @
      line ('',['' @ quoted [] @ '',['' @ quoted ''REF'' @ '','' @ quoted (object_name b pos) @ '']]'') @ out,
      last))"

definition dump_block :: "mem_block \<Rightarrow> string \<Rightarrow> mem_tag list \<Rightarrow> string" where
  "dump_block b desc ts = (let (out, currpos) = dump_tags b 0 ts in
     quoted (decimal (unat (bid b))) @ '': ['' @ quoted ''CLASS'' @ '', '' @ quoted desc @ '', []'' @ out @
     (if currpos < bsize b then gap_text (bsize b - currpos) else []) @ ''] '')"

fun dump_blocks :: "bool \<Rightarrow> mem_block list \<Rightarrow> string emu" where
  "dump_blocks first [] = ret []"
| "dump_blocks first (b # bs) = (case type_desc (memtype b) of
     None \<Rightarrow> dump_blocks first bs
   | Some desc \<Rightarrow> bindM (lift (block_tags b)) (\<lambda>ts.
       bindM (dump_blocks False bs) (\<lambda>out. ret (comma first @ dump_block b desc ts @ out))))"

text \<open>An object of a block: a reference for a pointer or an array, else its value.\<close>

definition dump_object :: "host \<Rightarrow> interp_fns \<Rightarrow> debug_env \<Rightarrow> mem_block \<Rightarrow> qtype \<Rightarrow> nat \<Rightarrow> string emu" where
  "dump_object H ev E b q pos =
     bindM (load_at H ev (lvalue_of (BlkPtr (bid b)) q pos)) (\<lambda>v.
     if (isPointerType (obj_type H v) \<or> isArrayType (obj_type H v)) \<and> emu_status v = STATUS_DEFINED
     then bindM (lift (ptr_parts v)) (\<lambda>(s, u, off). bindM (get_block (union_block u)) (\<lambda>c.
       ret ('', ['' @ quoted ''REF'' @ '','' @ quoted (object_name c (unat off)) @ '']'')))
     else bindM (print_val E v) (\<lambda>out. ret ('', '' @ quoted out)))"

definition dump_objects :: "host \<Rightarrow> interp_fns \<Rightarrow> debug_env \<Rightarrow> mem_block \<Rightarrow> mem_tag \<Rightarrow> string emu" where
  "dump_objects H ev E b t =
     bindM (mapM (\<lambda>i. dump_object H ev E b (ttype t) (sz (toffset t + i * typesize t))) [0..<tcount t]) (\<lambda>outs.
     ret ('', '' @ quoted (object_name b (toffset t)) @ '': ['' @ quoted ''LIST'' @ concat outs @ '']''))"

definition dump_contents :: "host \<Rightarrow> interp_fns \<Rightarrow> debug_env \<Rightarrow> mem_block list \<Rightarrow> string emu" where
  "dump_contents H ev E bs =
     bindM (mapM (\<lambda>b. case type_desc (memtype b) of
         None \<Rightarrow> ret []
       | Some desc \<Rightarrow> bindM (lift (block_tags b)) (\<lambda>ts.
           bindM (mapM (dump_objects H ev E b) ts) (\<lambda>outs. ret (concat outs)))) bs)
       (\<lambda>outs. ret (concat outs))"

section \<open>debug\_dump\<close>

text \<open>\<open>firsttime\<close> and \<open>lastline\<close>, with their initial values.\<close>

record debug_state =
  firsttime :: bool
  lastline :: u32

definition init_debug :: debug_state where
  "init_debug = \<lparr>firsttime = True, lastline = 0\<rparr>"

text \<open>The text, once it is decided that there is one; \<open>ms\<close> is the file of \<open>main\<close>.\<close>

definition dump_text :: "host \<Rightarrow> interp_fns \<Rightarrow> debug_env \<Rightarrow> string option \<Rightarrow> nat \<Rightarrow> bool \<Rightarrow> string emu" where
  "dump_text H ev E exc ms first_time =
     bindM (gets (\<lambda>s. locals_order E (local_vars s ms))) (\<lambda>globals.
     bindM (dump_globals global_name True globals) (\<lambda>names.
     bindM (gets stack_vars) (\<lambda>frames.
     bindM (dump_frames E True 1 frames) (\<lambda>stack.
     bindM (dump_globals global_ref True globals) (\<lambda>refs.
     bindM (gets (\<lambda>s. memory_order E (active_mem s))) (\<lambda>blocks.
     bindM (dump_blocks True blocks) (\<lambda>heap.
     bindM (gets (\<lambda>s. memory_order E (active_mem s))) (\<lambda>blocks'.
     bindM (dump_contents H ev E blocks') (\<lambda>contents.
       ret ((if first_time then line ''['' else line '','') @
         line ''{'' @ quoted ''ordered_globals'' @ line '': ['' @ names @ line [] @ line ''],'' @
         quoted ''stdout'' @ '': '' @ quoted [] @ line '','' @
         (case exc of None \<Rightarrow> [] | Some m \<Rightarrow> quoted ''exception_msg'' @ '': '' @ quoted m @ '', '') @
         quoted ''func_name'' @ '': '' @ quoted ''unnamed_func'' @ line '','' @
         quoted ''stack_to_render'' @ '': ['' @ stack @ line [] @ line ''],'' @
         quoted ''globals'' @ line '': {'' @ refs @ line [] @ line ''},'' @
         quoted ''heap'' @ line '': {'' @ heap @ contents @
         ''}, '' @ quoted ''line'' @ '': '' @ decimal (unat (spelling_line E)) @ '', '' @
         quoted ''event'' @ '': '' @
         (case exc of None \<Rightarrow> quoted ''step_line'' @ ''}'' | Some m \<Rightarrow> quoted ''exception'' @ ''}]'')))))))))))"

text \<open>Nothing is written unless \<open>lastline\<close> has one value, to which nothing sets it.\<close>

definition debug_dump :: "host \<Rightarrow> interp_fns \<Rightarrow> debug_env \<Rightarrow> string option \<Rightarrow> debug_state
    \<Rightarrow> (string \<times> debug_state) emu" where
  "debug_dump H ev E exc d =
     (if lastline d \<noteq> 0x42424242 then ret ([], d)
      else bindM (gets curr_source) (\<lambda>s. bindM (gets main_source) (\<lambda>ms.
        if exc = None \<and> Some s \<noteq> ms then ret ([], d)
        else
          let loc = spelling_line E in
          if exc = None \<and> loc = lastline d then ret ([], d)
          else (case ms of
              None \<Rightarrow> fail (HostUB ''local_vars of no file'')
            | Some m \<Rightarrow> bindM (dump_text H ev E exc m (firsttime d)) (\<lambda>out.
                ret (out, d\<lparr>firsttime := False, lastline := loc\<rparr>))))))"

end
