(* ===== verification/DebugProps.thy ===== *)
theory DebugProps
  imports Debug StackProps
begin

text \<open>
  The dump: its guard is never passed, and what its loops with a flag for the first element
  write is the same as joining the elements with separators.
\<close>

section \<open>The guard\<close>

text \<open>Nothing is written while \<open>lastline\<close> is not the one value, and it starts as another.\<close>

lemma debug_dump_guard:
  "lastline d \<noteq> 0x42424242 \<Longrightarrow> debug_dump H ev E exc d s = Inr (([], d), s)"
  by (simp add: debug_dump_def run_simps)

lemma init_debug_guard: "debug_dump H ev E exc init_debug s = Inr (([], init_debug), s)"
  by (rule debug_dump_guard) (simp add: init_debug_def)

section \<open>Joined elements\<close>

fun join :: "string \<Rightarrow> string list \<Rightarrow> string" where
  "join sep [] = []"
| "join sep [x] = x"
| "join sep (x # y # zs) = x @ sep @ join sep (y # zs)"

lemma join_Cons: "join sep (x # xs) = x @ (if xs = [] then [] else sep @ join sep xs)"
  by (cases xs) simp_all

text \<open>What a loop writes that starts with the flag \<open>first\<close>.\<close>

definition listed :: "bool \<Rightarrow> string list \<Rightarrow> string" where
  "listed first xs = (if first \<or> xs = [] then [] else line '','') @ join (line '','') xs"

lemma listed_simps [simp]:
  "listed first [] = []" "listed True xs = join (line '','') xs"
  "comma first @ x @ listed False xs = listed first (x # xs)"
  by (auto simp: listed_def comma_def join_Cons)

lemma dump_names_listed: "dump_names E first vs = listed first (map (local_key E) vs)"
  by (induction vs arbitrary: first) simp_all

text \<open>The id of the block of a variable that has one.\<close>

definition var_id :: "string \<times> lvalue \<Rightarrow> u32" where
  "var_id v = (case lblock (snd v) of BlkPtr i \<Rightarrow> i | _ \<Rightarrow> 0)"

definition has_block :: "emu_state \<Rightarrow> string \<times> lvalue \<Rightarrow> bool" where
  "has_block s v \<longleftrightarrow> (\<exists>i. lblock (snd v) = BlkPtr i \<and> active_mem s i \<noteq> None)"

lemma has_block_run:
  assumes "mem_inv s" and "has_block s v"
  obtains b where "get_block (lblock (snd v)) s = Inr (b, s)" and "bid b = var_id v"
    and "active_mem s (var_id v) = Some b"
  using assms mem_invD(1) [OF assms(1)] by (auto simp: has_block_def var_id_def run_simps)

definition local_text :: "debug_env \<Rightarrow> string \<times> lvalue \<Rightarrow> string" where
  "local_text E v = local_key E v @ '': ['' @ quoted ''REF'' @ '', '' @ decimal (unat (var_id v)) @ '']''"

lemma dump_locals_listed:
  "mem_inv s \<Longrightarrow> list_all (has_block s) vs \<Longrightarrow>
   dump_locals E first vs s = Inr (listed first (map (local_text E) vs), s)"
proof (induction vs arbitrary: first)
  case (Cons v vs)
  from Cons.prems obtain b where "get_block (lblock (snd v)) s = Inr (b, s)" "bid b = var_id v"
    by (auto elim: has_block_run)
  with Cons show ?case
    by (simp add: run_simps) (simp add: local_text_def flip: listed_simps(3))
qed (simp add: run_simps)

text \<open>The frames that have variables, each with its number.\<close>

definition frames_text :: "debug_env \<Rightarrow> nat \<Rightarrow> (string \<times> lvalue) list list \<Rightarrow> string list" where
  "frames_text E n fs = map (\<lambda>(i, f). frame_text i (join (line '','') (map (local_text E) f))
     (join (line '','') (map (local_key E) f))) (zip [n..<n + length fs] (filter (\<lambda>f. f \<noteq> []) fs))"

lemma zip_upt_longer:
  "length ys \<le> m \<Longrightarrow> zip [n..<n + m] ys = zip [n..<n + length ys] ys"
proof -
  assume "length ys \<le> m"
  then have "zip [n..<n + m] ys = zip (take (length ys) [n..<n + m]) (take (length ys) ys)"
    by (metis take_all_iff le_refl min.absorb1 length_zip length_upt diff_add_inverse take_zip
        min.commute)
  with \<open>length ys \<le> m\<close> show ?thesis by (simp add: take_upt)
qed

lemma frames_text_Cons:
  "frames_text E n (f # fs) = (if f = [] then frames_text E n fs
     else frame_text n (join (line '','') (map (local_text E) f)) (join (line '','') (map (local_key E) f))
       # frames_text E (n + 1) fs)"
proof -
  have l: "length (filter (\<lambda>f. f \<noteq> []) fs) \<le> length fs" by (rule length_filter_le)
  have c: "[n..<n + length (f # fs)] = n # [n + 1..<n + 1 + length fs]"
    by (simp add: upt_conv_Cons del: upt_Suc)
  show ?thesis
  proof (cases "f = []")
    case True
    then show ?thesis using zip_upt_longer [of "filter (\<lambda>f. f \<noteq> []) fs" "length (f # fs)" n]
        zip_upt_longer [of "filter (\<lambda>f. f \<noteq> []) fs" "length fs" n] l
      by (simp add: frames_text_def)
  next
    case False
    then show ?thesis unfolding frames_text_def c by simp
  qed
qed

lemma dump_frames_listed:
  "mem_inv s \<Longrightarrow> list_all (list_all (has_block s)) fs \<Longrightarrow>
   dump_frames E first n fs s = Inr (listed first (frames_text E n fs), s)"
proof (induction fs arbitrary: first n)
  case (Cons f fs)
  then show ?case
    by (simp add: run_simps frames_text_Cons dump_locals_listed dump_names_listed)
qed (simp add: run_simps frames_text_def)

section \<open>Properties\<close>

text \<open>C22: The stack in the dump. When every variable on the stack has its block, the loops over
  frames and variables, with their flags and counters, write the frames that have variables,
  numbered in order and joined by commas, in each the variables joined by commas, each with
  its type, its name and the id of its block, and change nothing.\<close>

theorem dump_frames_joined:
  assumes "mem_inv s" and "list_all (list_all (has_block s)) (stack_vars s)"
  shows "dump_frames E True 1 (stack_vars s) s = Inr (join (line '','')
    (map (\<lambda>(i, f). frame_text i
        (join (line '','') (map (\<lambda>v. quoted (type_string E (ltype (snd v)) @ '' '' @ fst v) @ '': ['' @
           quoted ''REF'' @ '', '' @ decimal (unat (var_id v)) @ '']'') f))
        (join (line '','') (map (\<lambda>v. quoted (type_string E (ltype (snd v)) @ '' '' @ fst v)) f)))
      (zip [1..<1 + length (stack_vars s)] (filter (\<lambda>f. f \<noteq> []) (stack_vars s)))), s)"
  using dump_frames_listed [OF assms, of E True 1]
  unfolding frames_text_def local_text_def local_key_def by simp

lemma decimal_3: "decimal 3 = ''3''"
  by (simp add: decimal.simps char_of_def bit_Suc_0_iff)

theorem dump_frames_joined_witness:
  "\<exists>s E. stack_vars s = [[], [(''x'', lvalue_of (BlkPtr 3) IntType 0)]] \<and>
    dump_frames E True 1 (stack_vars s) s
      = Inr (frame_text 1 (quoted ''int x'' @ '': ['' @ quoted ''REF'' @ '', 3]'') (quoted ''int x''), s)"
proof -
  let ?s = "one_block\<lparr>stack_vars := [[], [(''x'', lvalue_of (BlkPtr 3) IntType 0)]]\<rparr>"
  let ?E = "\<lparr>spelling_line = 0, type_string = \<lambda>q. ''int'', apint_string = \<lambda>n. [],
    locals_order = \<lambda>m. [], memory_order = \<lambda>m. []\<rparr>"
  have "mem_inv ?s" using mem_inv_one_block mem_ext_cong [of ?s one_block] by (simp add: mem_ext_def)
  moreover have "list_all (list_all (has_block ?s)) (stack_vars ?s)"
    by (simp add: has_block_def lvalue_of_def one_block_def)
  ultimately have "dump_frames ?E True 1 (stack_vars ?s) ?s
      = Inr (frame_text 1 (quoted ''int x'' @ '': ['' @ quoted ''REF'' @ '', 3]'') (quoted ''int x''), ?s)"
    by (subst dump_frames_joined) (simp_all add: var_id_def lvalue_of_def decimal_3 upt_rec)
  then show ?thesis by (intro exI [of _ ?s] exI [of _ ?E]) simp
qed

end
