(* ===== verification/Spec2Isabelle.thy ===== *)
theory Spec2Isabelle
  imports Startup RoundTrip RbTreeProps TagProps MemoryProps StackProps InterpInv InterpFuel
    IntCells IntSem IntNums IntRel IntSim IntStmt StartupProps LoadProps IntProgram
    LoopProps Deviations ArrayProps CastProps DebugProps
begin

text \<open>
  A model of CTutor's interpreter \<open>cinterp\<close>: it loads C files through Clang, interprets
  \<open>main\<close> on an emulated memory in which every object carries a type tag, and stops with a
  message on the first operation it takes to be undefined.

  \<^bold>\<open>The program and its model.\<close> The theories follow the source files.

    \<^item> \<open>Prelude\<close>: \<open>exit.cpp\<close>. The functions that end the process are the values of
      \<open>emu_error\<close>; the rest of the program runs in the state-and-error monad \<open>sm\<close>. The
      constructor \<open>HostUB\<close> marks the points where the C++ program itself has undefined
      behaviour. Also here: relations that computations preserve (locale \<open>state_preorder\<close>),
      the order in which more fuel defines more, byte strings, and \<open>size_t\<close>.
    \<^item> \<open>Clang_Ast\<close>: the syntax trees and types received from Clang. \<open>Host\<close>: what is outside
      the source, \<open>llvm::APInt\<close> and the contents of fresh memory, as the parameter \<open>host\<close>;
      the locale \<open>llvm_host\<close> states the documented behaviour of \<open>APInt\<close>, and \<open>std_host\<close> has it.
    \<^item> \<open>Values\<close>, \<open>Repr\<close>, \<open>Arith\<close>: \<open>enums.h\<close>, \<open>types.h\<close>, \<open>types.cpp\<close>. Values with their status,
      their tagged representation, arithmetic and casts.
    \<^item> \<open>RbTree\<close>: \<open>rbtree.h\<close>, \<open>rbtree.cpp\<close>, over an explicit store of nodes. \<open>MemTags\<close> and
      \<open>Memory\<close>: \<open>mem.h\<close>, \<open>mem.cpp\<close>; the record \<open>emu_state\<close> holds all globals of the program.
    \<^item> \<open>Casts\<close>: \<open>cast.cpp\<close> (and the constructor of a structure from memory). \<open>External\<close>:
      \<open>external.cpp\<close>.
    \<^item> \<open>Interp\<close>: \<open>eval.cpp\<close> up to \<open>exec_stmt\<close>. \<open>eval_lexpr\<close>, \<open>eval_rexpr\<close> and \<open>exec_stmt\<close> are
      written over a record of the three functions they call, and \<open>interp H n\<close> is that record at
      recursion depth \<open>n\<close>. \<open>Startup\<close>: the rest of \<open>eval.cpp\<close> and the end of \<open>main.cpp\<close>.
      \<open>CommandLine\<close>: \<open>main\<close> from its arguments on, with the answers of the operating system and
      of Clang as the parameter \<open>os_env\<close>.
    \<^item> \<open>Debug\<close>: \<open>debug.cpp\<close> and the printing of values, with what the text takes from outside as
      the parameter \<open>debug_env\<close>.

  \<^bold>\<open>What is shown.\<close>

    \<^item> \<open>IntSem\<close> states what C says of programs over local and global \<open>int\<close> variables
      (expressions, assignments, calls, declarations, blocks, \<open>if\<close>, \<open>for\<close>, \<open>switch\<close>, \<open>break\<close>,
      \<open>return\<close>), on numbers, without memory and with static scoping. \<open>IntCells\<close> shows that a
      block of \<open>int\<close> objects behaves as a list, \<open>IntNums\<close> relates the host's numbers to integers,
      \<open>IntRel\<close> the states of the interpreter to those of the semantics, \<open>IntSim\<close> shows that the
      interpreter evaluates expressions and calls as that semantics says, \<open>IntStmt\<close> that it
      executes statements so, and \<open>IntProgram\<close> whole programs of several, possibly recursive
      functions and initialized global variables, from the command line up to the number that is
      printed. \<open>LoopProps\<close>: counting loops end. \<open>Deviations\<close>: what the interpreter does where it
      departs from C and that semantics has no meaning: a \<open>break\<close> out of a loop, an initializer
      with a side effect, a label right behind another. \<open>ArrayProps\<close>: the storage of a local array
      is made as it should be, and not used.
    \<^item> \<open>InterpInv\<close> goes through every function of the interpreter once, in the locale
      \<open>emu_invariant\<close>, and is interpreted for the memory (\<open>MemoryProps\<close>: ids are fresh, blocks keep
      their size, freed memory stays freed), for the stack (\<open>StackProps\<close>: frames are balanced, the
      index is that of the stack) and for the tables of the program. \<open>InterpFuel\<close>: fuel is only a
      bound.
    \<^item> \<open>RoundTrip\<close> interprets the contract \<open>mem_codec\<close> between \<open>dump_repr\<close> and the constructors
      from memory for the classes of values, and says which values do not survive. \<open>Arith\<close> gives
      the numbers and statuses that arithmetic and casts compute.
    \<^item> \<open>RbTreeProps\<close>: searching is correct on every search tree, inserting is so where no rotation
      is needed, and it loses nodes where one is. \<open>TagProps\<close>: the tags of arrays filled in order.
    \<^item> \<open>StartupProps\<close>: a function that is stored is found again. \<open>LoadProps\<close>: so are all the
      functions and global variables of a file, after it is loaded and set up. \<open>CastProps\<close>: zero
      values have their type and its size.
    \<^item> \<open>DebugProps\<close>: the guard of \<open>debug_dump\<close> is never passed, so that its calls, which are left
      out of \<open>Interp\<close> and \<open>Startup\<close>, write nothing; and what its loops would write.

  \<^bold>\<open>Bounds.\<close> Recursion of the interpreter and its loops are bounded by the depth \<open>n\<close> of
  \<open>interp H n\<close>; the lemma \<open>le_interp\<close> shows that a result does not depend on it, and the
  refinement theorems that some depth is enough. The loops of the tree are bounded by the number
  of nodes ever allocated, which is enough on every tree. Sizes are natural numbers with the
  wrap-around of \<open>size_t\<close> written out (\<open>sz\<close>), ids and tags are words.

  \<^bold>\<open>Assumptions.\<close> The host is little-endian with 64-bit \<open>size_t\<close>; plain \<open>char\<close> is signed in the
  interpreted programs; types are canonical; conversions of \<open>size_t\<close> to \<open>int\<close> wrap. A block above
  \<open>PTRDIFF_MAX\<close> bytes is refused with an exception (\<open>BadAlloc\<close>); below that the host does not run
  out of memory. \<open>mem_block::free\<close>, which uses \<open>delete\<close> on an array, releases the bytes.

  \<^bold>\<open>Not modelled.\<close> What Clang does with a file is a parameter. The help text (\<open>help.cpp\<close>), the
  diagnostics of Clang and the lines for the standard error are output only. The lifetimes of
  the \<open>EmuVal\<close> objects of the host are not tracked, except where the source reads one it has
  just deleted.
\<close>

end
